theory Spec2Isabelle
  imports Main "HOL-Library.Word"
begin

unbundle bit_operations_syntax

section \<open>Data model of the routing layer (xaie_routing.h)\<close>

text \<open>
  The embedding follows \<^verbatim>\<open>driver/src/routing/xaie_routing.c\<close>. Structs are records,
  enums are datatypes, \<^verbatim>\<open>u8\<close>/\<^verbatim>\<open>u64\<close> fields are words, C \<^verbatim>\<open>int\<close> locals that hold
  a port number or \<^verbatim>\<open>-1\<close> are \<^typ>\<open>int\<close>. The per-tile table
  \<^verbatim>\<open>CoreConstraintPerCore[col][row]\<close> is a function from tile locations to optional tile
  records (\<open>None\<close> is the null pointer). Linked lists (\<^verbatim>\<open>routesDB\<close>, the steps of a path)
  are HOL lists in the order the C code traverses them.
\<close>

type_synonym u8 = "8 word"
type_synonym u16 = "16 word"
type_synonym u32 = "32 word"
type_synonym u64 = "64 word"

text \<open>\<^verbatim>\<open>AieRC\<close>: \<^verbatim>\<open>XAIE_OK\<close> is 0; the code accumulates return codes with \<^verbatim>\<open>RC |= ...\<close>.\<close>

type_synonym AieRC = "32 word"

definition XAIE_OK :: AieRC where "XAIE_OK = 0"
definition XAIE_ERR :: AieRC where "XAIE_ERR = 1"

record XAie_LocType =
  Row :: u8
  Col :: u8

definition XAie_TileLoc :: "u8 \<Rightarrow> u8 \<Rightarrow> XAie_LocType" where
  "XAie_TileLoc col row = \<lparr>Row = row, Col = col\<rparr>"

datatype TileType = XAIE_AIE_SHIM | XAIE_AIE_MEM | XAIE_AIE_CORE

datatype StrmSwPortType =
  CORE | DMA | CTRL | FIFO | SOUTH | WEST | NORTH | EAST | TRACE | SS_PORT_TYPE_MAX

datatype XAie_DmaDirection = DMA_S2MM | DMA_MM2S

record XAie_StreamDirSupported =
  canMoveNorth :: bool
  canMoveSouth :: bool
  canMoveEast :: bool
  canMoveWest :: bool

record XAie_ChannelPortMapping =
  channel :: u8
  port :: u8
  availability :: bool

record XAie_RoutingStep =
  sourceTile :: XAie_LocType
  sourceStream :: int
  destStream :: int
  source_direction :: StrmSwPortType
  dest_direction :: StrmSwPortType

record XAie_RoutingPath =
  source :: XAie_LocType
  destination :: XAie_LocType
  MM2S_portNo :: u8
  S2MM_portNo :: u8
  nextStep :: "XAie_RoutingStep list"

text \<open>
  \<^verbatim>\<open>XAie_CoreConstraint\<close>. \<^verbatim>\<open>Host2AIEPorts\<close> and \<^verbatim>\<open>AIE2HostPorts\<close> are pointers to
  arrays of port mappings that several shim tiles may share (the initialiser hands the same
  two default arrays to every shim tile), so they are addresses into the store
  \<open>PortMappings\<close> of the routing instance. The fields \<^verbatim>\<open>s2mmChannelsInUse\<close> and
  \<^verbatim>\<open>mm2sChannelsInUse\<close> are left out: the code only ever works on local copies of them.
\<close>

record XAie_CoreConstraint =
  isAutoConfigured :: bool
  MM2S_State :: u8
  S2MM_State :: u8
  ShimMM2S_State :: u8
  ShimS2MM_State :: u8
  AllChannelsInUse :: bool
  BDState :: u64
  AllBDsareInUse :: bool
  tile_type :: TileType
  DirSupported :: XAie_StreamDirSupported
  SlaveEast :: u8
  SlaveWest :: u8
  SlaveSouth :: u8
  SlaveNorth :: u8
  MasterEast :: u8
  MasterWest :: u8
  MasterSouth :: u8
  MasterNorth :: u8
  Host2AIEPorts :: "nat option"
  Host2AIEPortCount :: u8
  AIE2HostPorts :: "nat option"
  AIE2HostPortCount :: u8
  routesDB :: "XAie_RoutingPath list"
  isCoreExecuting :: bool

text \<open>
  \<^verbatim>\<open>XAie_RouteConstraints\<close>: each (array, count) pair is a list. A null
  \<^verbatim>\<open>RouteConstraints\<close> pointer is \<open>None\<close>.
\<close>

record XAie_RouteConstraints =
  BlackListedCores :: "XAie_LocType list"
  WhiteListedCores :: "XAie_LocType list"

record XAie_RoutingInstance =
  CoreConstraintPerCore :: "XAie_LocType \<Rightarrow> XAie_CoreConstraint option"
  NumRows :: u8
  NumCols :: u8
  PortMappings :: "nat \<Rightarrow> XAie_ChannelPortMapping list"

text \<open>The fields of \<^verbatim>\<open>XAie_DevInst\<close> that \<^verbatim>\<open>XAie_InitRoutingHandler\<close> reads.\<close>

record XAie_DevInst =
  DevNumRows :: u8
  DevNumCols :: u8
  ShimRow :: u8
  MemTileRowStart :: u8
  MemTileNumRows :: u8
  AieTileRowStart :: u8
  AieTileNumRows :: u8

section \<open>Bit arithmetic\<close>

text \<open>
  \<^verbatim>\<open>1 << n\<close> on a 32-bit \<^verbatim>\<open>int\<close>. C defines it for \<open>0 \<le> n < 31\<close>; outside that range
  the embedding gives the 32-bit shift where it exists (\<open>n = 31\<close> is the sign bit, larger
  counts give 0) and 0 for a negative count. Port numbers are 0..7 and the buffer
  descriptors the theorems below speak about are below 31.
\<close>

definition int_shl1 :: "int \<Rightarrow> u32" where
  "int_shl1 n = (if n < 0 then 0 else push_bit (nat n) 1)"

text \<open>\<^verbatim>\<open>field & (1 << n)\<close>, \<^verbatim>\<open>field &= ~(1 << n)\<close> and \<^verbatim>\<open>field |= (1 << n)\<close> on a
  \<^verbatim>\<open>u8\<close> field: the \<^verbatim>\<open>int\<close> is truncated to 8 bits.\<close>

definition test_bit8 :: "u8 \<Rightarrow> int \<Rightarrow> bool" where
  "test_bit8 w n = (w AND ucast (int_shl1 n) \<noteq> 0)"

definition unset_bit8 :: "u8 \<Rightarrow> int \<Rightarrow> u8" where
  "unset_bit8 w n = w AND ucast (NOT (int_shl1 n))"

definition set_bit8 :: "u8 \<Rightarrow> int \<Rightarrow> u8" where
  "set_bit8 w n = w OR ucast (int_shl1 n)"

text \<open>The same on the \<^verbatim>\<open>u64\<close> field \<^verbatim>\<open>BDState\<close>: the \<^verbatim>\<open>int\<close> is sign-extended.\<close>

definition test_bit64 :: "u64 \<Rightarrow> int \<Rightarrow> bool" where
  "test_bit64 w n = (w AND scast (int_shl1 n) \<noteq> 0)"

definition unset_bit64 :: "u64 \<Rightarrow> int \<Rightarrow> u64" where
  "unset_bit64 w n = w AND scast (NOT (int_shl1 n))"

definition set_bit64 :: "u64 \<Rightarrow> int \<Rightarrow> u64" where
  "set_bit64 w n = w OR scast (int_shl1 n)"

text \<open>\<^verbatim>\<open>for (int i = 0; i < 8; i++) if (w & (1 << i)) return i;\<close> and \<open>-1\<close> after it.\<close>

fun first_set_from :: "u8 \<Rightarrow> nat \<Rightarrow> nat \<Rightarrow> int" where
  "first_set_from w i 0 = -1"
| "first_set_from w i (Suc k) =
     (if test_bit8 w (int i) then int i else first_set_from w (Suc i) k)"

definition first_set_bit8 :: "u8 \<Rightarrow> int" where
  "first_set_bit8 w = first_set_from w 0 8"

section \<open>The tile table\<close>

definition tile_at :: "XAie_RoutingInstance \<Rightarrow> XAie_LocType \<Rightarrow> XAie_CoreConstraint option" where
  "tile_at ri t = CoreConstraintPerCore ri t"

text \<open>A write through \<^verbatim>\<open>CoreConstraintPerCore[col][row]->field\<close>. The C code would fault on
  a null entry; the table the initialiser builds has none inside the grid.\<close>

definition upd_tile ::
  "XAie_LocType \<Rightarrow> (XAie_CoreConstraint \<Rightarrow> XAie_CoreConstraint) \<Rightarrow>
   XAie_RoutingInstance \<Rightarrow> XAie_RoutingInstance" where
  "upd_tile t f ri =
     ri\<lparr>CoreConstraintPerCore :=
          (CoreConstraintPerCore ri)(t := map_option f (CoreConstraintPerCore ri t))\<rparr>"

definition XAie_isShimTile :: "XAie_RoutingInstance \<Rightarrow> XAie_LocType \<Rightarrow> bool" where
  "XAie_isShimTile ri t =
     (case tile_at ri t of None \<Rightarrow> False | Some c \<Rightarrow> tile_type c = XAIE_AIE_SHIM)"

definition XAie_isMemTile :: "XAie_RoutingInstance \<Rightarrow> XAie_LocType \<Rightarrow> bool" where
  "XAie_isMemTile ri t =
     (case tile_at ri t of None \<Rightarrow> False | Some c \<Rightarrow> tile_type c = XAIE_AIE_MEM)"

section \<open>Initialisation (\<^verbatim>\<open>XAie_InitRoutingHandler\<close>)\<close>

definition MemTileEnd :: "XAie_DevInst \<Rightarrow> u8" where
  "MemTileEnd d =
     (if MemTileRowStart d > 0 then MemTileRowStart d + MemTileNumRows d - 1 else 0)"

definition AieTileRowEnd :: "XAie_DevInst \<Rightarrow> u8" where
  "AieTileRowEnd d = AieTileRowStart d + AieTileNumRows d"

definition isShimTileRow :: "XAie_DevInst \<Rightarrow> u8 \<Rightarrow> bool" where
  "isShimTileRow d row = (row = ShimRow d)"

definition isMemTileRow :: "XAie_DevInst \<Rightarrow> u8 \<Rightarrow> bool" where
  "isMemTileRow d row = (row \<ge> MemTileRowStart d \<and> row \<le> MemTileEnd d)"

definition isAieTile :: "XAie_DevInst \<Rightarrow> u8 \<Rightarrow> bool" where
  "isAieTile d row = (row \<ge> AieTileRowStart d \<and> row \<le> AieTileRowEnd d)"

text \<open>The addresses of the two default mapping arrays the initialiser allocates.\<close>

definition defaultHost2AIE_addr :: nat where "defaultHost2AIE_addr = 0"
definition defaultAIE2Host_addr :: nat where "defaultAIE2Host_addr = 1"

definition defaultHost2AIEPortChannelMapping :: "XAie_ChannelPortMapping list" where
  "defaultHost2AIEPortChannelMapping =
     [\<lparr>channel = 0, port = 3, availability = True\<rparr>,
      \<lparr>channel = 1, port = 7, availability = True\<rparr>]"

definition defaultAIE2HostPortChannelMapping :: "XAie_ChannelPortMapping list" where
  "defaultAIE2HostPortChannelMapping =
     [\<lparr>channel = 0, port = 2, availability = True\<rparr>,
      \<lparr>channel = 1, port = 3, availability = True\<rparr>]"

definition init_mem_tile :: "XAie_CoreConstraint \<Rightarrow> XAie_CoreConstraint" where
  "init_mem_tile c = c\<lparr>
     isAutoConfigured := False, tile_type := XAIE_AIE_MEM,
     S2MM_State := 0x3F, MM2S_State := 0x3F, ShimS2MM_State := 0x0, ShimMM2S_State := 0x0,
     BDState := 0xFFFFFFFFFFFF,
     DirSupported := \<lparr>canMoveNorth = True, canMoveSouth = True,
                       canMoveEast = False, canMoveWest = False\<rparr>,
     SlaveEast := 0x0, SlaveWest := 0x0, SlaveSouth := 0x3F, SlaveNorth := 0xF,
     MasterEast := 0x0, MasterWest := 0x0, MasterSouth := 0xF, MasterNorth := 0x3F,
     Host2AIEPorts := None, Host2AIEPortCount := 0,
     AIE2HostPorts := None, AIE2HostPortCount := 0,
     routesDB := [], isCoreExecuting := False\<rparr>"

definition init_aie_tile :: "XAie_CoreConstraint \<Rightarrow> XAie_CoreConstraint" where
  "init_aie_tile c = c\<lparr>
     isAutoConfigured := False, tile_type := XAIE_AIE_CORE,
     S2MM_State := 0x3, MM2S_State := 0x3, ShimS2MM_State := 0x0, ShimMM2S_State := 0x0,
     BDState := 0xFFFF,
     DirSupported := \<lparr>canMoveNorth = True, canMoveSouth = True,
                       canMoveEast = True, canMoveWest = True\<rparr>,
     SlaveEast := 0xF, SlaveWest := 0xF, SlaveSouth := 0x3F, SlaveNorth := 0xF,
     MasterEast := 0xF, MasterWest := 0xF, MasterSouth := 0xF, MasterNorth := 0x3F,
     Host2AIEPorts := None, Host2AIEPortCount := 0,
     AIE2HostPorts := None, AIE2HostPortCount := 0,
     routesDB := [], isCoreExecuting := False\<rparr>"

definition init_shim_tile :: "XAie_CoreConstraint \<Rightarrow> XAie_CoreConstraint" where
  "init_shim_tile c = c\<lparr>
     isAutoConfigured := False, tile_type := XAIE_AIE_SHIM,
     S2MM_State := 0x3, MM2S_State := 0x3, ShimS2MM_State := 0x3, ShimMM2S_State := 0x3,
     BDState := 0xFFFF,
     DirSupported := \<lparr>canMoveNorth = True, canMoveSouth = True,
                       canMoveEast = True, canMoveWest = True\<rparr>,
     SlaveEast := 0xF, SlaveWest := 0xF, SlaveSouth := 0x0, SlaveNorth := 0xF,
     MasterEast := 0xF, MasterWest := 0xF, MasterSouth := 0x0, MasterNorth := 0x3F,
     Host2AIEPorts := Some defaultHost2AIE_addr, Host2AIEPortCount := 2,
     AIE2HostPorts := Some defaultAIE2Host_addr, AIE2HostPortCount := 2,
     routesDB := [], isCoreExecuting := False\<rparr>"

text \<open>
  The body of the initialising double loop for one tile. \<open>c\<close> is the content of the freshly
  allocated, uninitialised record: a row that is in none of the three bands keeps it, but
  for the two flags set after the \<^verbatim>\<open>if\<close> chain.
\<close>

definition init_tile :: "XAie_DevInst \<Rightarrow> u8 \<Rightarrow> XAie_CoreConstraint \<Rightarrow> XAie_CoreConstraint" where
  "init_tile d row c =
     (let c' = (if isMemTileRow d row \<and> \<not> isShimTileRow d row then init_mem_tile c
                else if isAieTile d row then init_aie_tile c
                else if isShimTileRow d row then init_shim_tile c
                else c)
      in c'\<lparr>AllChannelsInUse := False, AllBDsareInUse := False\<rparr>)"

text \<open>
  \<open>fresh\<close> gives the uninitialised content of each allocated tile record and \<open>heap\<close> the
  mapping arrays that exist outside the two the initialiser allocates.
\<close>

definition XAie_InitRoutingHandler ::
  "XAie_DevInst \<Rightarrow> (XAie_LocType \<Rightarrow> XAie_CoreConstraint) \<Rightarrow>
   (nat \<Rightarrow> XAie_ChannelPortMapping list) \<Rightarrow> XAie_RoutingInstance" where
  "XAie_InitRoutingHandler d fresh heap =
     \<lparr>CoreConstraintPerCore =
        (\<lambda>t. if Col t < DevNumCols d \<and> Row t < DevNumRows d
             then Some (init_tile d (Row t) (fresh t)) else None),
      NumRows = DevNumRows d,
      NumCols = DevNumCols d,
      PortMappings = heap(defaultHost2AIE_addr := defaultHost2AIEPortChannelMapping,
                          defaultAIE2Host_addr := defaultAIE2HostPortChannelMapping)\<rparr>"

section \<open>Errors and the hardware backend\<close>

text \<open>
  Every public call returns \<^verbatim>\<open>XAIE_ERR\<close> on failure; the constructors below name the
  place of the failing \<^verbatim>\<open>return\<close> (the message it logs). \<open>NullRoutingPath\<close> is the null
  dereference in \<^verbatim>\<open>XAie_DeRoute\<close> when the source has routes but none to the destination.
  A failing call leaves the state as it is at the \<^verbatim>\<open>return\<close>, so an error carries it.
\<close>

datatype XAie_Error =
    NullConstraint
  | RouteAlreadyProgrammed
  | PathNotFound
  | NoPortOnLastTile
  | NoStreamPortAvailable
  | StrmConnEnableFailed
  | AieToShimEnableFailed
  | ShimToAieEnableFailed
  | RouteDoesNotExist
  | NullRoutingPath
  | StrmConnDisableFailed
  | BDProgrammingFailed
  | NoProgrammedPath
  | SourceChannelFailed
  | DestChannelFailed
  | PendingBdFailed

definition AieRC_of :: "XAie_Error \<Rightarrow> AieRC" where
  "AieRC_of e = XAIE_ERR"

text \<open>
  The driver calls the routing layer makes on the device. Their code is outside the
  routing layer: each is a parameter that takes the device state \<open>'hw\<close> and returns a
  return code and the new device state. The two DMA descriptors of
  \<^verbatim>\<open>_XAie_programBufferDescriptors\<close> are named by a number (0 source, 1 destination).
  \<open>XAie_DmaGetPendingBdCount\<close> may write the count through its out parameter (\<open>Some n\<close>) or
  not. \<open>BackendIsRaw\<close> says that the backend type is \<^verbatim>\<open>XAIE_IO_BACKEND_BAREMETAL\<close> or
  \<^verbatim>\<open>XAIE_IO_BACKEND_SOCKET\<close>.
\<close>

record 'hw XAie_Backend =
  XAie_StrmConnCctEnable ::
    "'hw \<Rightarrow> XAie_LocType \<Rightarrow> StrmSwPortType \<Rightarrow> int \<Rightarrow> StrmSwPortType \<Rightarrow> int \<Rightarrow> AieRC \<times> 'hw"
  XAie_StrmConnCctDisable ::
    "'hw \<Rightarrow> XAie_LocType \<Rightarrow> StrmSwPortType \<Rightarrow> int \<Rightarrow> StrmSwPortType \<Rightarrow> int \<Rightarrow> AieRC \<times> 'hw"
  XAie_EnableAieToShimDmaStrmPort :: "'hw \<Rightarrow> XAie_LocType \<Rightarrow> int \<Rightarrow> AieRC \<times> 'hw"
  XAie_EnableShimDmaToAieStrmPort :: "'hw \<Rightarrow> XAie_LocType \<Rightarrow> int \<Rightarrow> AieRC \<times> 'hw"
  XAie_DmaDescInit :: "'hw \<Rightarrow> nat \<Rightarrow> XAie_LocType \<Rightarrow> AieRC \<times> 'hw"
  XAie_DmaSetAddrLen :: "'hw \<Rightarrow> nat \<Rightarrow> u64 \<Rightarrow> u32 \<Rightarrow> AieRC \<times> 'hw"
  XAie_DmaSetAddrOffsetLen :: "'hw \<Rightarrow> nat \<Rightarrow> u64 \<Rightarrow> u64 \<Rightarrow> u32 \<Rightarrow> AieRC \<times> 'hw"
  XAie_DmaEnableBd :: "'hw \<Rightarrow> nat \<Rightarrow> AieRC \<times> 'hw"
  XAie_DmaWriteBd :: "'hw \<Rightarrow> nat \<Rightarrow> XAie_LocType \<Rightarrow> int \<Rightarrow> AieRC \<times> 'hw"
  XAie_DmaChannelPushBdToQueue ::
    "'hw \<Rightarrow> XAie_LocType \<Rightarrow> u8 \<Rightarrow> XAie_DmaDirection \<Rightarrow> u16 \<Rightarrow> AieRC \<times> 'hw"
  XAie_DmaChannelEnable :: "'hw \<Rightarrow> XAie_LocType \<Rightarrow> u8 \<Rightarrow> XAie_DmaDirection \<Rightarrow> AieRC \<times> 'hw"
  XAie_DmaGetPendingBdCount ::
    "'hw \<Rightarrow> XAie_LocType \<Rightarrow> u8 \<Rightarrow> XAie_DmaDirection \<Rightarrow> AieRC \<times> u8 option \<times> 'hw"
  XAie_CoreEnable :: "'hw \<Rightarrow> XAie_LocType \<Rightarrow> AieRC \<times> 'hw"
  BackendIsRaw :: bool

type_synonym 'hw outcome =
  "(XAie_Error \<times> 'hw \<times> XAie_RoutingInstance) + ('hw \<times> XAie_RoutingInstance)"

section \<open>Shim port mappings\<close>

text \<open>The loop \<^verbatim>\<open>for (i = 0; i < count; i++) if (ports[i].port == port)
  ports[i].availability = SetOrUnset;\<close> over the first \<open>n\<close> entries of an array.\<close>

definition mark_ports ::
  "int \<Rightarrow> bool \<Rightarrow> nat \<Rightarrow> XAie_ChannelPortMapping list \<Rightarrow> XAie_ChannelPortMapping list" where
  "mark_ports p v n ms =
     map (\<lambda>m. if uint (port m) = p then m\<lparr>availability := v\<rparr> else m) (take n ms) @ drop n ms"

definition mark_store ::
  "nat option \<Rightarrow> u8 \<Rightarrow> int \<Rightarrow> bool \<Rightarrow> XAie_RoutingInstance \<Rightarrow> XAie_RoutingInstance" where
  "mark_store a n p v ri =
     (case a of
        None \<Rightarrow> ri
      | Some x \<Rightarrow> ri\<lparr>PortMappings :=
                      (PortMappings ri)(x := mark_ports p v (unat n) (PortMappings ri x))\<rparr>)"

definition XAie_updatePortAvailabilityForShimDmaToAie ::
  "XAie_RoutingInstance \<Rightarrow> XAie_LocType \<Rightarrow> int \<Rightarrow> bool \<Rightarrow> AieRC \<times> XAie_RoutingInstance" where
  "XAie_updatePortAvailabilityForShimDmaToAie ri tile p SetOrUnset =
     (if \<not> XAie_isShimTile ri tile then (XAIE_ERR, ri)
      else case tile_at ri tile of
             None \<Rightarrow> (XAIE_ERR, ri)
           | Some c \<Rightarrow>
               (XAIE_OK, mark_store (Host2AIEPorts c) (Host2AIEPortCount c) p SetOrUnset ri))"

definition XAie_updatePortAvailabilityForAieToShimDma ::
  "XAie_RoutingInstance \<Rightarrow> XAie_LocType \<Rightarrow> int \<Rightarrow> bool \<Rightarrow> AieRC \<times> XAie_RoutingInstance" where
  "XAie_updatePortAvailabilityForAieToShimDma ri tile p SetOrUnset =
     (if \<not> XAie_isShimTile ri tile then (XAIE_ERR, ri)
      else case tile_at ri tile of
             None \<Rightarrow> (XAIE_ERR, ri)
           | Some c \<Rightarrow>
               (XAIE_OK, mark_store (AIE2HostPorts c) (AIE2HostPortCount c) p SetOrUnset ri))"

text \<open>The entries a tile's (pointer, count) pair denotes.\<close>

definition mappings_of ::
  "XAie_RoutingInstance \<Rightarrow> nat option \<Rightarrow> u8 \<Rightarrow> XAie_ChannelPortMapping list" where
  "mappings_of ri a n = (case a of None \<Rightarrow> [] | Some x \<Rightarrow> take (unat n) (PortMappings ri x))"

definition findAvailableChannelIDforShimTile ::
  "XAie_RoutingInstance \<Rightarrow> XAie_LocType \<Rightarrow> u8 \<Rightarrow> bool \<Rightarrow> int" where
  "findAvailableChannelIDforShimTile ri tile p HostToAie =
     (case tile_at ri tile of
        None \<Rightarrow> 0
      | Some c \<Rightarrow>
          (case find (\<lambda>m. port m = p)
                  (if HostToAie then mappings_of ri (Host2AIEPorts c) (Host2AIEPortCount c)
                   else mappings_of ri (AIE2HostPorts c) (AIE2HostPortCount c)) of
             Some m \<Rightarrow> uint (channel m)
           | None \<Rightarrow> 0))"

section \<open>Stream-switch port bitmaps\<close>

definition unset_slave :: "StrmSwPortType \<Rightarrow> int \<Rightarrow> XAie_CoreConstraint \<Rightarrow> XAie_CoreConstraint" where
  "unset_slave d s c =
     (case d of
        SOUTH \<Rightarrow> c\<lparr>SlaveSouth := unset_bit8 (SlaveSouth c) s\<rparr>
      | NORTH \<Rightarrow> c\<lparr>SlaveNorth := unset_bit8 (SlaveNorth c) s\<rparr>
      | EAST \<Rightarrow> c\<lparr>SlaveEast := unset_bit8 (SlaveEast c) s\<rparr>
      | WEST \<Rightarrow> c\<lparr>SlaveWest := unset_bit8 (SlaveWest c) s\<rparr>
      | DMA \<Rightarrow> c\<lparr>MM2S_State := unset_bit8 (MM2S_State c) s\<rparr>
      | _ \<Rightarrow> c)"

definition unset_master :: "StrmSwPortType \<Rightarrow> int \<Rightarrow> XAie_CoreConstraint \<Rightarrow> XAie_CoreConstraint" where
  "unset_master d s c =
     (case d of
        SOUTH \<Rightarrow> c\<lparr>MasterSouth := unset_bit8 (MasterSouth c) s\<rparr>
      | NORTH \<Rightarrow> c\<lparr>MasterNorth := unset_bit8 (MasterNorth c) s\<rparr>
      | EAST \<Rightarrow> c\<lparr>MasterEast := unset_bit8 (MasterEast c) s\<rparr>
      | WEST \<Rightarrow> c\<lparr>MasterWest := unset_bit8 (MasterWest c) s\<rparr>
      | DMA \<Rightarrow> c\<lparr>S2MM_State := unset_bit8 (S2MM_State c) s\<rparr>
      | _ \<Rightarrow> c)"

definition XAie_updatePortAvailabilityForStrmConn ::
  "XAie_RoutingInstance \<Rightarrow> XAie_LocType \<Rightarrow> StrmSwPortType \<Rightarrow> int \<Rightarrow> StrmSwPortType \<Rightarrow> int \<Rightarrow>
   XAie_RoutingInstance" where
  "XAie_updatePortAvailabilityForStrmConn ri tile portSource sStream portDest dStream =
     upd_tile tile (\<lambda>c. unset_master portDest dStream (unset_slave portSource sStream c)) ri"

definition set_slave :: "StrmSwPortType \<Rightarrow> int \<Rightarrow> XAie_CoreConstraint \<Rightarrow> XAie_CoreConstraint" where
  "set_slave d s c =
     (case d of
        SOUTH \<Rightarrow> c\<lparr>SlaveSouth := set_bit8 (SlaveSouth c) s\<rparr>
      | NORTH \<Rightarrow> c\<lparr>SlaveNorth := set_bit8 (SlaveNorth c) s\<rparr>
      | EAST \<Rightarrow> c\<lparr>SlaveEast := set_bit8 (SlaveEast c) s\<rparr>
      | WEST \<Rightarrow> c\<lparr>SlaveWest := set_bit8 (SlaveWest c) s\<rparr>
      | DMA \<Rightarrow> c\<lparr>MM2S_State := set_bit8 (MM2S_State c) s\<rparr>
      | _ \<Rightarrow> c)"

definition set_master :: "StrmSwPortType \<Rightarrow> int \<Rightarrow> XAie_CoreConstraint \<Rightarrow> XAie_CoreConstraint" where
  "set_master d s c =
     (case d of
        SOUTH \<Rightarrow> c\<lparr>MasterSouth := set_bit8 (MasterSouth c) s\<rparr>
      | NORTH \<Rightarrow> c\<lparr>MasterNorth := set_bit8 (MasterNorth c) s\<rparr>
      | EAST \<Rightarrow> c\<lparr>MasterEast := set_bit8 (MasterEast c) s\<rparr>
      | WEST \<Rightarrow> c\<lparr>MasterWest := set_bit8 (MasterWest c) s\<rparr>
      | DMA \<Rightarrow> c\<lparr>S2MM_State := set_bit8 (S2MM_State c) s\<rparr>
      | _ \<Rightarrow> c)"

definition XAie_updatePortAvailabilityForStrmConnInverse ::
  "XAie_RoutingInstance \<Rightarrow> XAie_LocType \<Rightarrow> StrmSwPortType \<Rightarrow> int \<Rightarrow> StrmSwPortType \<Rightarrow> int \<Rightarrow>
   XAie_RoutingInstance" where
  "XAie_updatePortAvailabilityForStrmConnInverse ri tile portSource sStream portDest dStream =
     upd_tile tile (\<lambda>c. set_master portDest dStream (set_slave portSource sStream c)) ri"

text \<open>\<^verbatim>\<open>for (i = 0; i < 8; i++) if ((a & (1 << i)) && (b & (1 << i))) return i;\<close>\<close>

fun first_common_from :: "u8 \<Rightarrow> u8 \<Rightarrow> nat \<Rightarrow> nat \<Rightarrow> int" where
  "first_common_from a b i 0 = -1"
| "first_common_from a b i (Suc k) =
     (if test_bit8 a (int i) \<and> test_bit8 b (int i) then int i
      else first_common_from a b (Suc i) k)"

definition findFirstMatchingStreamForDestination ::
  "XAie_RoutingInstance \<Rightarrow> XAie_LocType \<Rightarrow> XAie_LocType \<Rightarrow> StrmSwPortType \<Rightarrow> int" where
  "findFirstMatchingStreamForDestination ri SourceTile DestinationTile SourceDirection =
     (case (tile_at ri SourceTile, tile_at ri DestinationTile) of
        (Some cs, Some cd) \<Rightarrow>
          (case SourceDirection of
             NORTH \<Rightarrow> first_common_from (MasterNorth cs) (SlaveSouth cd) 0 8
           | SOUTH \<Rightarrow> first_common_from (MasterSouth cs) (SlaveNorth cd) 0 8
           | EAST \<Rightarrow> first_common_from (MasterEast cs) (SlaveWest cd) 0 8
           | WEST \<Rightarrow> first_common_from (MasterWest cs) (SlaveEast cd) 0 8
           | DMA \<Rightarrow> first_common_from (- 1) (- 1) 0 8
           | _ \<Rightarrow> -1)
      | _ \<Rightarrow> -1)"

definition XAie_findFirstMatchingStream ::
  "XAie_RoutingInstance \<Rightarrow> XAie_LocType \<Rightarrow> StrmSwPortType \<Rightarrow> bool \<Rightarrow> int" where
  "XAie_findFirstMatchingStream ri tile direction isEndTile =
     (case tile_at ri tile of
        None \<Rightarrow> -1
      | Some c \<Rightarrow>
          (case (if XAie_isShimTile ri tile
                 then find availability
                        (if isEndTile then mappings_of ri (AIE2HostPorts c) (AIE2HostPortCount c)
                         else mappings_of ri (Host2AIEPorts c) (Host2AIEPortCount c))
                 else None) of
             Some m \<Rightarrow> uint (port m)
           | None \<Rightarrow>
               (case direction of
                  NORTH \<Rightarrow> first_set_bit8 (SlaveNorth c)
                | SOUTH \<Rightarrow> first_set_bit8 (SlaveSouth c)
                | EAST \<Rightarrow> first_set_bit8 (SlaveEast c)
                | WEST \<Rightarrow> first_set_bit8 (SlaveWest c)
                | DMA \<Rightarrow> first_set_bit8 (if isEndTile then S2MM_State c else MM2S_State c)
                | _ \<Rightarrow> -1)))"

section \<open>Buffer descriptors\<close>

text \<open>\<^verbatim>\<open>_XAie_resetBDAvailability\<close>: \<^verbatim>\<open>MAX_BUFFER_IDS\<close> is 16 here.\<close>

definition XAie_resetBDAvailability ::
  "XAie_RoutingInstance \<Rightarrow> XAie_LocType \<Rightarrow> u8 \<Rightarrow> XAie_RoutingInstance" where
  "XAie_resetBDAvailability ri tile bdID =
     (if bdID < 16
      then upd_tile tile (\<lambda>c. c\<lparr>BDState := set_bit64 (BDState c) (uint bdID)\<rparr>) ri
      else ri)"

text \<open>\<^verbatim>\<open>_XAie_findAvailableBufferID\<close>: \<^verbatim>\<open>MAX_BUFFER_IDS\<close> is 48 here.\<close>

fun first_free_bd_from :: "u64 \<Rightarrow> nat \<Rightarrow> nat \<Rightarrow> int" where
  "first_free_bd_from w i 0 = -1"
| "first_free_bd_from w i (Suc k) =
     (if test_bit64 w (int i) then int i else first_free_bd_from w (Suc i) k)"

definition XAie_findAvailableBufferID ::
  "XAie_RoutingInstance \<Rightarrow> XAie_LocType \<Rightarrow> int \<times> XAie_RoutingInstance" where
  "XAie_findAvailableBufferID ri tile =
     (case tile_at ri tile of
        None \<Rightarrow> (-1, ri)
      | Some c \<Rightarrow>
          (let bufferID = first_free_bd_from (BDState c) 0 48
           in if bufferID = -1 then (-1, ri)
              else (bufferID,
                    upd_tile tile (\<lambda>c. c\<lparr>BDState := unset_bit64 (BDState c) bufferID\<rparr>) ri)))"

section \<open>The catalog of programmed routes\<close>

definition XAie_addRouteInRoutesDB ::
  "XAie_RoutingPath list \<Rightarrow> XAie_RoutingPath \<Rightarrow> XAie_RoutingPath list" where
  "XAie_addRouteInRoutesDB head routePath = routePath # head"

definition route_matches :: "XAie_LocType \<Rightarrow> XAie_LocType \<Rightarrow> XAie_RoutingPath \<Rightarrow> bool" where
  "route_matches src dst p =
     ((Col (source p) = Col src \<and> Row (source p) = Row src) \<and>
      (Col (destination p) = Col dst \<and> Row (destination p) = Row dst))"

definition XAie_findRouteInRouteDB ::
  "XAie_RoutingPath list \<Rightarrow> XAie_LocType \<Rightarrow> XAie_LocType \<Rightarrow> XAie_RoutingPath option" where
  "XAie_findRouteInRouteDB db src dst = find (route_matches src dst) db"

fun XAie_FreeRouteFromRoutesDB ::
  "XAie_RoutingPath list \<Rightarrow> XAie_LocType \<Rightarrow> XAie_LocType \<Rightarrow> XAie_RoutingPath list" where
  "XAie_FreeRouteFromRoutesDB [] src dst = []"
| "XAie_FreeRouteFromRoutesDB (p # ps) src dst =
     (if route_matches src dst p then ps else p # XAie_FreeRouteFromRoutesDB ps src dst)"

section \<open>Programming a path (\<^verbatim>\<open>_XAie_performRoutingOnPath\<close>)\<close>

definition new_step ::
  "XAie_LocType \<Rightarrow> StrmSwPortType \<Rightarrow> int \<Rightarrow> StrmSwPortType \<Rightarrow> int \<Rightarrow> XAie_RoutingStep" where
  "new_step t sd ss dd ds =
     \<lparr>sourceTile = t, sourceStream = ss, destStream = ds,
      source_direction = sd, dest_direction = dd\<rparr>"

text \<open>Direction of flow from a tile to the next tile of the path, and the side of the next
  tile it arrives on (\<^verbatim>\<open>dirSource\<close> and \<^verbatim>\<open>dirDest\<close>).\<close>

definition flow_dirSource :: "XAie_LocType \<Rightarrow> XAie_LocType \<Rightarrow> StrmSwPortType" where
  "flow_dirSource s d =
     (if Col d = Col s then (if Row d > Row s then NORTH else SOUTH)
      else (if Col d > Col s then EAST else WEST))"

definition flow_dirDest :: "XAie_LocType \<Rightarrow> XAie_LocType \<Rightarrow> StrmSwPortType" where
  "flow_dirDest s d =
     (if Col d = Col s then (if Row d > Row s then SOUTH else NORTH)
      else (if Col d > Col s then WEST else EAST))"

text \<open>
  The round of the \<^verbatim>\<open>for\<close> loop for the last tile of the path (\<^verbatim>\<open>i == pathLength - 1\<close>).
  \<open>cur\<close> is \<^verbatim>\<open>CurrRoutingPath\<close>, \<open>src\<close> the tile whose \<^verbatim>\<open>routesDB\<close> receives the path.
\<close>

definition route_last_tile ::
  "'hw XAie_Backend \<Rightarrow> XAie_LocType \<Rightarrow> XAie_LocType \<Rightarrow> XAie_RoutingPath \<Rightarrow>
   StrmSwPortType \<Rightarrow> int \<Rightarrow> 'hw \<Rightarrow> XAie_RoutingInstance \<Rightarrow> 'hw outcome" where
  "route_last_tile be src LastTile cur lastDir lastStream hw ri =
     (let dirLast = (if XAie_isShimTile ri LastTile then SOUTH else DMA);
          dStream = XAie_findFirstMatchingStream ri LastTile dirLast True
      in if dStream = -1 then Inl (NoPortOnLastTile, hw, ri)
         else
           (let ri1 = upd_tile LastTile (\<lambda>c. c\<lparr>isAutoConfigured := True\<rparr>) ri;
                cur1 = cur\<lparr>S2MM_portNo := of_int dStream\<rparr>
            in (case XAie_StrmConnCctEnable be hw LastTile lastDir lastStream dirLast dStream of
                  (rc, hw1) \<Rightarrow>
                    (if rc \<noteq> XAIE_OK then Inl (StrmConnEnableFailed, hw1, ri1)
                     else
                       (let ri2 = XAie_updatePortAvailabilityForStrmConn ri1 LastTile
                                    lastDir lastStream dirLast dStream;
                            cur2 = cur1\<lparr>nextStep := nextStep cur1 @
                                     [new_step LastTile lastDir lastStream dirLast dStream]\<rparr>;
                            add = upd_tile src (\<lambda>c. c\<lparr>routesDB :=
                                     (if routesDB c = [] then [cur2]
                                      else XAie_addRouteInRoutesDB (routesDB c) cur2)\<rparr>)
                        in (if XAie_isShimTile ri2 LastTile
                            then (case XAie_EnableAieToShimDmaStrmPort be hw1 LastTile dStream of
                                    (rc2, hw2) \<Rightarrow>
                                      (if rc2 \<noteq> XAIE_OK
                                       then Inl (AieToShimEnableFailed, hw2, ri2)
                                       else Inr (hw2, add (snd
                                              (XAie_updatePortAvailabilityForAieToShimDma ri2
                                                 LastTile dStream False)))))
                            else Inr (hw1, add ri2)))))))"

text \<open>
  The round for a tile that has a successor on the path. \<open>first\<close> is \<^verbatim>\<open>i == 0\<close>. On
  success the round hands on \<^verbatim>\<open>CurrRoutingPath\<close>, \<^verbatim>\<open>lastDir\<close> and \<^verbatim>\<open>lastStream\<close>.
\<close>

definition route_hop ::
  "'hw XAie_Backend \<Rightarrow> bool \<Rightarrow> XAie_LocType \<Rightarrow> XAie_LocType \<Rightarrow> XAie_RoutingPath \<Rightarrow>
   StrmSwPortType \<Rightarrow> int \<Rightarrow> 'hw \<Rightarrow> XAie_RoutingInstance \<Rightarrow>
   (XAie_Error \<times> 'hw \<times> XAie_RoutingInstance) +
   (XAie_RoutingPath \<times> StrmSwPortType \<times> int \<times> 'hw \<times> XAie_RoutingInstance)" where
  "route_hop be first SourceTile DestinationTile cur lastDir lastStream hw ri =
     (let dirSource = flow_dirSource SourceTile DestinationTile;
          dirDest = flow_dirDest SourceTile DestinationTile;
          actualdirSource = (if XAie_isShimTile ri SourceTile then lastDir
                             else (if first then DMA else lastDir));
          actualdirDest = dirSource;
          sStream = (if XAie_isShimTile ri SourceTile
                     then (if first
                           then XAie_findFirstMatchingStream ri SourceTile actualdirSource False
                           else lastStream)
                     else XAie_findFirstMatchingStream ri SourceTile actualdirSource False);
          dStream = findFirstMatchingStreamForDestination ri SourceTile DestinationTile dirSource
      in if sStream = -1 \<or> dStream = -1 then Inl (NoStreamPortAvailable, hw, ri)
         else
           (let ri1 = upd_tile SourceTile (\<lambda>c. c\<lparr>isAutoConfigured := True\<rparr>) ri
            in (case XAie_StrmConnCctEnable be hw SourceTile actualdirSource sStream
                       actualdirDest dStream of
                  (rc, hw1) \<Rightarrow>
                    (if rc \<noteq> XAIE_OK then Inl (StrmConnEnableFailed, hw1, ri1)
                     else
                       (let cur1 = cur\<lparr>nextStep := nextStep cur @
                                     [new_step SourceTile actualdirSource sStream
                                        actualdirDest dStream]\<rparr>;
                            cur2 = (if first then cur1\<lparr>MM2S_portNo := of_int sStream\<rparr>
                                    else cur1);
                            ri2 = XAie_updatePortAvailabilityForStrmConn ri1 SourceTile
                                    actualdirSource sStream actualdirDest dStream
                        in (if XAie_isShimTile ri2 SourceTile \<and> first
                            then (case XAie_EnableShimDmaToAieStrmPort be hw1 SourceTile sStream of
                                    (rc2, hw2) \<Rightarrow>
                                      (if rc2 \<noteq> XAIE_OK
                                       then Inl (ShimToAieEnableFailed, hw2, ri2)
                                       else Inr (cur2, dirDest, dStream, hw2,
                                              snd (XAie_updatePortAvailabilityForShimDmaToAie ri2
                                                     SourceTile sStream False))))
                            else Inr (cur2, dirDest, dStream, hw1, ri2)))))))"

text \<open>The \<^verbatim>\<open>for\<close> loop over the path: no round for an empty path, else the rounds of the
  tiles with a successor and last the round of the last tile. A failing round returns.\<close>

fun performRoutingLoop ::
  "'hw XAie_Backend \<Rightarrow> XAie_LocType \<Rightarrow> bool \<Rightarrow> XAie_LocType list \<Rightarrow> XAie_RoutingPath \<Rightarrow>
   StrmSwPortType \<Rightarrow> int \<Rightarrow> 'hw \<Rightarrow> XAie_RoutingInstance \<Rightarrow> 'hw outcome" where
  "performRoutingLoop be src first [] cur lastDir lastStream hw ri = Inr (hw, ri)"
| "performRoutingLoop be src first [LastTile] cur lastDir lastStream hw ri =
     route_last_tile be src LastTile cur lastDir lastStream hw ri"
| "performRoutingLoop be src first (SourceTile # DestinationTile # rest) cur lastDir lastStream hw ri =
     (case route_hop be first SourceTile DestinationTile cur lastDir lastStream hw ri of
        Inl e \<Rightarrow> Inl e
      | Inr (cur1, lastDir1, lastStream1, hw1, ri1) \<Rightarrow>
          performRoutingLoop be src False (DestinationTile # rest) cur1 lastDir1 lastStream1 hw1 ri1)"

definition XAie_performRoutingOnPath ::
  "'hw XAie_Backend \<Rightarrow> XAie_RoutingInstance \<Rightarrow> XAie_LocType \<Rightarrow> XAie_LocType \<Rightarrow>
   XAie_LocType list \<Rightarrow> 'hw \<Rightarrow> 'hw outcome" where
  "XAie_performRoutingOnPath be ri src dst path hw =
     performRoutingLoop be src True path
       \<lparr>source = src, destination = dst, MM2S_portNo = - 1, S2MM_portNo = - 1, nextStep = []\<rparr>
       SOUTH (- 1) hw ri"

section \<open>Tearing a route down (\<^verbatim>\<open>XAie_DeRoute\<close>)\<close>

text \<open>One round of the \<^verbatim>\<open>while (currentStep != NULL)\<close> loop; \<open>psrc\<close> is
  \<^verbatim>\<open>routingPath->source\<close> and \<open>first\<close> is \<^verbatim>\<open>currentStep == routingPath->nextStep\<close>.\<close>

definition deroute_step ::
  "'hw XAie_Backend \<Rightarrow> XAie_LocType \<Rightarrow> bool \<Rightarrow> XAie_RoutingStep \<Rightarrow> 'hw \<Rightarrow>
   XAie_RoutingInstance \<Rightarrow> 'hw outcome" where
  "deroute_step be psrc first st hw ri =
     (case XAie_StrmConnCctDisable be hw (sourceTile st) (source_direction st) (sourceStream st)
             (dest_direction st) (destStream st) of
        (rc, hw1) \<Rightarrow>
          (if rc \<noteq> XAIE_OK then Inl (StrmConnDisableFailed, hw1, ri)
           else
             (let ri1 = XAie_updatePortAvailabilityForStrmConnInverse ri (sourceTile st)
                          (source_direction st) (sourceStream st)
                          (dest_direction st) (destStream st)
              in Inr (hw1,
                   (if XAie_isShimTile ri1 psrc
                    then (if first
                          then snd (XAie_updatePortAvailabilityForShimDmaToAie ri1
                                      (sourceTile st) (sourceStream st) True)
                          else snd (XAie_updatePortAvailabilityForAieToShimDma ri1
                                      (sourceTile st) (sourceStream st) True))
                    else ri1)))))"

fun deroute_steps ::
  "'hw XAie_Backend \<Rightarrow> XAie_LocType \<Rightarrow> bool \<Rightarrow> XAie_RoutingStep list \<Rightarrow> 'hw \<Rightarrow>
   XAie_RoutingInstance \<Rightarrow> 'hw outcome" where
  "deroute_steps be psrc first [] hw ri = Inr (hw, ri)"
| "deroute_steps be psrc first (st # rest) hw ri =
     (case deroute_step be psrc first st hw ri of
        Inl e \<Rightarrow> Inl e
      | Inr (hw1, ri1) \<Rightarrow> deroute_steps be psrc False rest hw1 ri1)"

definition clear_executing :: "bool \<Rightarrow> XAie_LocType \<Rightarrow> XAie_RoutingInstance \<Rightarrow> XAie_RoutingInstance" where
  "clear_executing ShouldModifyCoreConfig t ri =
     (if ShouldModifyCoreConfig \<and> \<not> XAie_isShimTile ri t \<and> \<not> XAie_isMemTile ri t
      then upd_tile t (\<lambda>c. c\<lparr>isCoreExecuting := False\<rparr>) ri else ri)"

definition XAie_DeRoute ::
  "'hw XAie_Backend \<Rightarrow> XAie_RoutingInstance \<Rightarrow> XAie_LocType \<Rightarrow> XAie_LocType \<Rightarrow> bool \<Rightarrow> 'hw \<Rightarrow>
   'hw outcome" where
  "XAie_DeRoute be ri src dst ShouldModifyCoreConfig hw =
     (case tile_at ri src of
        None \<Rightarrow> Inl (RouteDoesNotExist, hw, ri)
      | Some sc \<Rightarrow>
          (if routesDB sc = [] then Inl (RouteDoesNotExist, hw, ri)
           else
             (let ri1 = clear_executing ShouldModifyCoreConfig dst
                          (clear_executing ShouldModifyCoreConfig src ri)
              in (case XAie_findRouteInRouteDB (routesDB sc) src dst of
                    None \<Rightarrow> Inl (NullRoutingPath, hw, ri1)
                  | Some routingPath \<Rightarrow>
                      (case deroute_steps be (source routingPath) True (nextStep routingPath)
                              hw ri1 of
                         Inl e \<Rightarrow> Inl e
                       | Inr (hw2, ri2) \<Rightarrow>
                           Inr (hw2, upd_tile src (\<lambda>c. c\<lparr>routesDB :=
                                  XAie_FreeRouteFromRoutesDB (routesDB c) src dst\<rparr>) ri2))))))"

section \<open>The path finder (\<^verbatim>\<open>_XAie_findShortestPath\<close>)\<close>

definition same_tile :: "XAie_LocType \<Rightarrow> XAie_LocType \<Rightarrow> bool" where
  "same_tile a b = (Col a = Col b \<and> Row a = Row b)"

definition XAie_isTileBlackListed :: "XAie_LocType \<Rightarrow> XAie_RouteConstraints option \<Rightarrow> bool" where
  "XAie_isTileBlackListed CurrTile initialConstraints =
     (case initialConstraints of
        None \<Rightarrow> False
      | Some r \<Rightarrow> list_ex (\<lambda>b. Col CurrTile = Col b \<and> Row CurrTile = Row b) (BlackListedCores r))"

definition XAie_isTileWhitelisted :: "XAie_LocType \<Rightarrow> XAie_LocType list \<Rightarrow> bool" where
  "XAie_isTileWhitelisted CurrTile whitelist =
     list_ex (\<lambda>w. Col CurrTile = Col w \<and> Row CurrTile = Row w) whitelist"

definition XAie_isAdjTileValidForCurrTile ::
  "XAie_RoutingInstance \<Rightarrow> XAie_RouteConstraints option \<Rightarrow> XAie_LocType \<Rightarrow> XAie_LocType \<Rightarrow>
   StrmSwPortType \<Rightarrow> (XAie_LocType \<Rightarrow> bool) \<Rightarrow> bool" where
  "XAie_isAdjTileValidForCurrTile ri RouteConstraints currentTile adjTile direction vis =
     (if \<not> (Col adjTile < NumCols ri \<and> Row adjTile < NumRows ri) then False
      else
        let isPortAvailable =
              (case (tile_at ri currentTile, tile_at ri adjTile) of
                 (Some currentConstraint, Some adjConstraint) \<Rightarrow>
                   (case direction of
                      NORTH \<Rightarrow> SlaveNorth currentConstraint \<noteq> 0 \<and> MasterSouth adjConstraint \<noteq> 0
                    | SOUTH \<Rightarrow> SlaveSouth currentConstraint \<noteq> 0 \<and> MasterNorth adjConstraint \<noteq> 0
                    | EAST \<Rightarrow> SlaveEast currentConstraint \<noteq> 0 \<and> MasterWest adjConstraint \<noteq> 0
                    | WEST \<Rightarrow> SlaveWest currentConstraint \<noteq> 0 \<and> MasterEast adjConstraint \<noteq> 0
                    | _ \<Rightarrow> False)
               | _ \<Rightarrow> False)
        in \<not> XAie_isTileBlackListed adjTile RouteConstraints \<and> \<not> vis adjTile \<and> isPortAvailable)"

record bfs_state =
  queue :: "XAie_LocType list"
  visited :: "XAie_LocType \<Rightarrow> bool"
  Pred :: "XAie_LocType \<Rightarrow> XAie_LocType"
  found :: bool

text \<open>\<^verbatim>\<open>_XAie_enqueue\<close> on a queue of capacity \<open>cap\<close>: a full queue drops the item.\<close>

definition XAie_enqueue :: "nat \<Rightarrow> XAie_LocType list \<Rightarrow> XAie_LocType \<Rightarrow> XAie_LocType list" where
  "XAie_enqueue cap q item = (if length q = cap then q else q @ [item])"

text \<open>The arrays \<^verbatim>\<open>dRow\<close>, \<^verbatim>\<open>dCol\<close> and \<^verbatim>\<open>StrmSwPort\<close>; \<open>-1\<close> wraps in \<^verbatim>\<open>u8\<close>.\<close>

definition bfs_directions :: "(u8 \<times> u8 \<times> StrmSwPortType) list" where
  "bfs_directions = [(1, 0, NORTH), (- 1, 0, SOUTH), (0, 1, EAST), (0, - 1, WEST)]"

text \<open>The walk along the parent pointers that checks the white list. Nothing in the loop
  itself bounds it, so a walk that never reaches the source has no result.\<close>

partial_function (option) whitelist_walk ::
  "XAie_RouteConstraints option \<Rightarrow> (XAie_LocType \<Rightarrow> XAie_LocType) \<Rightarrow> XAie_LocType \<Rightarrow>
   XAie_LocType \<Rightarrow> bool option" where
  "whitelist_walk RouteConstraints pr src temp =
     (if same_tile temp src then Some True
      else if (case RouteConstraints of
                 None \<Rightarrow> False
               | Some r \<Rightarrow> WhiteListedCores r \<noteq> [] \<and>
                           \<not> XAie_isTileWhitelisted temp (WhiteListedCores r))
           then Some False
           else whitelist_walk RouteConstraints pr src (pr temp))"

declare whitelist_walk.simps [code]

text \<open>The inner \<^verbatim>\<open>for (i = 0; i < 4; i++)\<close> loop for the dequeued tile \<open>current\<close>.\<close>

fun bfs_neighbours ::
  "XAie_RoutingInstance \<Rightarrow> XAie_RouteConstraints option \<Rightarrow> XAie_LocType \<Rightarrow> XAie_LocType \<Rightarrow>
   nat \<Rightarrow> XAie_LocType \<Rightarrow> (u8 \<times> u8 \<times> StrmSwPortType) list \<Rightarrow> bfs_state \<Rightarrow> bfs_state option" where
  "bfs_neighbours ri rc src dst cap current [] st = Some st"
| "bfs_neighbours ri rc src dst cap current ((dRow, dCol, p) # ds) st =
     (let adj = XAie_TileLoc (Col current + dCol) (Row current + dRow)
      in if XAie_isAdjTileValidForCurrTile ri rc current adj p (visited st)
         then
           let st1 = st\<lparr>visited := (visited st)(adj := True),
                        queue := XAie_enqueue cap (queue st) adj,
                        Pred := (Pred st)(adj := current)\<rparr>
           in if same_tile adj dst
              then (case whitelist_walk rc (Pred st1) src adj of
                      None \<Rightarrow> None
                    | Some allWhitelisted \<Rightarrow>
                        if allWhitelisted then Some (st1\<lparr>found := True\<rparr>)
                        else bfs_neighbours ri rc src dst cap current ds st1)
              else bfs_neighbours ri rc src dst cap current ds st1
         else bfs_neighbours ri rc src dst cap current ds st)"

text \<open>The outer \<^verbatim>\<open>while (!isEmpty(queue) && !found)\<close> loop.\<close>

partial_function (option) bfs_loop ::
  "XAie_RoutingInstance \<Rightarrow> XAie_RouteConstraints option \<Rightarrow> XAie_LocType \<Rightarrow> XAie_LocType \<Rightarrow>
   nat \<Rightarrow> bfs_state \<Rightarrow> bfs_state option" where
  "bfs_loop ri rc src dst cap st =
     (case queue st of
        [] \<Rightarrow> Some st
      | current # q \<Rightarrow>
          if found st then Some st
          else Option.bind
                 (bfs_neighbours ri rc src dst cap current bfs_directions (st\<lparr>queue := q\<rparr>))
                 (bfs_loop ri rc src dst cap))"

declare bfs_loop.simps [code]

text \<open>
  The loop that writes the path into the caller's buffer of \<open>n\<close> free entries, from the
  destination back to the source. Writing past the buffer has no result.
\<close>

fun construct_path ::
  "nat \<Rightarrow> (XAie_LocType \<Rightarrow> XAie_LocType) \<Rightarrow> XAie_LocType \<Rightarrow> XAie_LocType \<Rightarrow>
   XAie_LocType list \<Rightarrow> XAie_LocType list option" where
  "construct_path 0 pr src at acc = None"
| "construct_path (Suc n) pr src at acc =
     (if same_tile at src then Some (acc @ [src])
      else construct_path n pr src (pr at) (acc @ [at]))"

definition reversePath :: "XAie_LocType list \<Rightarrow> XAie_LocType list" where
  "reversePath path = rev path"

text \<open>
  The result is \<open>None\<close> when the search has no result, \<open>Some None\<close> when it returns
  \<^verbatim>\<open>false\<close>, and \<open>Some (Some path)\<close> when it returns \<^verbatim>\<open>true\<close> with \<^verbatim>\<open>path[0..pathLength)\<close>.
\<close>

definition XAie_findShortestPath ::
  "XAie_RoutingInstance \<Rightarrow> XAie_RouteConstraints option \<Rightarrow> XAie_LocType \<Rightarrow> XAie_LocType \<Rightarrow>
   XAie_LocType list option option" where
  "XAie_findShortestPath ri rc src dst =
     (if same_tile src dst then Some (Some [])
      else
        let cap = unat (NumRows ri) * unat (NumCols ri)
        in case bfs_loop ri rc src dst cap
                  \<lparr>queue = XAie_enqueue cap [] src, visited = (\<lambda>t. False),
                   Pred = (\<lambda>t. XAie_TileLoc 0 0), found = False\<rparr> of
             None \<Rightarrow> None
           | Some st \<Rightarrow>
               if \<not> found st then Some None
               else (case construct_path cap (Pred st) src dst [] of
                       None \<Rightarrow> None
                     | Some path \<Rightarrow> Some (Some (reversePath path))))"

section \<open>\<^verbatim>\<open>XAie_Route\<close>, \<^verbatim>\<open>XAie_SetCoreExecute\<close> and \<^verbatim>\<open>XAie_Run\<close>\<close>

definition XAie_SetCoreExecute ::
  "XAie_RoutingInstance \<Rightarrow> XAie_LocType \<Rightarrow> bool \<Rightarrow> XAie_RoutingInstance" where
  "XAie_SetCoreExecute ri tile isExecute = upd_tile tile (\<lambda>c. c\<lparr>isCoreExecuting := isExecute\<rparr>) ri"

definition mark_endpoint :: "XAie_LocType \<Rightarrow> XAie_RoutingInstance \<Rightarrow> XAie_RoutingInstance" where
  "mark_endpoint t ri =
     (if \<not> XAie_isShimTile ri t \<and> \<not> XAie_isMemTile ri t then XAie_SetCoreExecute ri t True
      else ri)"

definition XAie_Route ::
  "'hw XAie_Backend \<Rightarrow> XAie_RoutingInstance \<Rightarrow> XAie_RouteConstraints option \<Rightarrow> XAie_LocType \<Rightarrow>
   XAie_LocType \<Rightarrow> 'hw \<Rightarrow> 'hw outcome option" where
  "XAie_Route be ri rc src dst hw =
     (case tile_at ri src of
        None \<Rightarrow> Some (Inl (NullConstraint, hw, ri))
      | Some Sourceconstraint \<Rightarrow>
          if XAie_findRouteInRouteDB (routesDB Sourceconstraint) src dst \<noteq> None
          then Some (Inl (RouteAlreadyProgrammed, hw, ri))
          else
            (case XAie_findShortestPath ri rc src dst of
               None \<Rightarrow> None
             | Some None \<Rightarrow> Some (Inl (PathNotFound, hw, ri))
             | Some (Some path) \<Rightarrow>
                 (case XAie_performRoutingOnPath be ri src dst path hw of
                    Inl e \<Rightarrow> Some (Inl e)
                  | Inr (hw1, ri1) \<Rightarrow> Some (Inr (hw1, mark_endpoint dst (mark_endpoint src ri1))))))"

text \<open>The tiles \<^verbatim>\<open>XAie_Run\<close> enables in one pass of its two inner loops, in that order.\<close>

definition executing_tiles :: "XAie_RoutingInstance \<Rightarrow> XAie_LocType list" where
  "executing_tiles ri =
     filter (\<lambda>t. case tile_at ri t of None \<Rightarrow> False | Some c \<Rightarrow> isCoreExecuting c)
       (concat (map (\<lambda>c. map (\<lambda>r. XAie_TileLoc (of_nat c) (of_nat r)) [0..<unat (NumRows ri)])
                  [0..<unat (NumCols ri)]))"

text \<open>\<open>XAie_Run_calls\<close> is the sequence of \<^verbatim>\<open>XAie_CoreEnable\<close> calls of \<^verbatim>\<open>XAie_Run\<close>, and
  \<open>XAie_Run\<close> the device state after them; the return code is always \<^verbatim>\<open>XAIE_OK\<close>.\<close>

definition XAie_Run_calls :: "XAie_RoutingInstance \<Rightarrow> u32 \<Rightarrow> XAie_LocType list" where
  "XAie_Run_calls ri count = concat (replicate (unat count) (executing_tiles ri))"

definition XAie_Run :: "'hw XAie_Backend \<Rightarrow> XAie_RoutingInstance \<Rightarrow> u32 \<Rightarrow> 'hw \<Rightarrow> AieRC \<times> 'hw" where
  "XAie_Run be ri count hw =
     (XAIE_OK, fold (\<lambda>t h. snd (XAie_CoreEnable be h t)) (XAie_Run_calls ri count) hw)"

section \<open>Moving data (\<^verbatim>\<open>XAie_MoveData\<close>)\<close>

text \<open>\<^verbatim>\<open>RC |= f(...)\<close>: the call \<open>f\<close> on the device, its code or-ed into the running one.\<close>

definition rc_call :: "('hw \<Rightarrow> AieRC \<times> 'hw) \<Rightarrow> AieRC \<times> 'hw \<Rightarrow> AieRC \<times> 'hw" where
  "rc_call f s = (case s of (rc, hw) \<Rightarrow> (case f hw of (r, hw1) \<Rightarrow> (rc OR r, hw1)))"

text \<open>Programming one descriptor (\<open>n\<close> is 0 for the source and 1 for the destination): the
  calls up to \<^verbatim>\<open>XAie_DmaWriteBd\<close>, with the buffer id the allocator returned.\<close>

definition program_one_bd ::
  "'hw XAie_Backend \<Rightarrow> XAie_RoutingInstance \<Rightarrow> nat \<Rightarrow> XAie_LocType \<Rightarrow> u64 \<Rightarrow> u32 \<Rightarrow>
   AieRC \<times> 'hw \<Rightarrow> (AieRC \<times> 'hw) \<times> int \<times> XAie_RoutingInstance" where
  "program_one_bd be ri n tile obj data_size s =
     (let s1 = rc_call (\<lambda>h. XAie_DmaDescInit be h n tile) s;
          s2 = (if XAie_isShimTile ri tile
                then (if BackendIsRaw be
                      then rc_call (\<lambda>h. XAie_DmaSetAddrLen be h n obj data_size) s1
                      else rc_call (\<lambda>h. XAie_DmaSetAddrOffsetLen be h n obj 0 data_size) s1)
                else rc_call (\<lambda>h. XAie_DmaSetAddrLen be h n obj data_size) s1);
          s3 = rc_call (\<lambda>h. XAie_DmaEnableBd be h n) s2
      in case XAie_findAvailableBufferID ri tile of
           (bufferID, ri1) \<Rightarrow>
             (rc_call (\<lambda>h. XAie_DmaWriteBd be h n tile bufferID) s3, bufferID, ri1))"

text \<open>\<^verbatim>\<open>_XAie_programBufferDescriptors\<close>: the result is the return code, the two entries of
  \<^verbatim>\<open>BDs\<close> (the second is unset when the source side fails), and the state.\<close>

definition XAie_programBufferDescriptors ::
  "'hw XAie_Backend \<Rightarrow> XAie_RoutingInstance \<Rightarrow> XAie_LocType \<Rightarrow> u64 \<Rightarrow> u32 \<Rightarrow> u64 \<Rightarrow>
   XAie_LocType \<Rightarrow> 'hw \<Rightarrow> AieRC \<times> u16 \<times> u16 option \<times> 'hw \<times> XAie_RoutingInstance" where
  "XAie_programBufferDescriptors be ri src SourceObject data_size DestinationObject dst hw =
     (case program_one_bd be ri 0 src SourceObject data_size (XAIE_OK, hw) of
        ((rc1, hw1), sourceBufferID, ri1) \<Rightarrow>
          if rc1 \<noteq> XAIE_OK then (XAIE_ERR, of_int sourceBufferID, None, hw1, ri1)
          else
            (case program_one_bd be ri1 1 dst DestinationObject data_size (rc1, hw1) of
               ((rc2, hw2), destBufferID, ri2) \<Rightarrow>
                 if rc2 \<noteq> XAIE_OK
                 then (XAIE_ERR, of_int sourceBufferID, Some (of_int destBufferID), hw2, ri2)
                 else (XAIE_OK, of_int sourceBufferID, Some (of_int destBufferID), hw2, ri2)))"

text \<open>The loop \<^verbatim>\<open>while (destPendingBDCount) RC |= XAie_DmaGetPendingBdCount(...)\<close>. It has
  no bound: a count that never reaches 0 gives no result.\<close>

partial_function (option) wait_pending ::
  "'hw XAie_Backend \<Rightarrow> XAie_LocType \<Rightarrow> u8 \<Rightarrow> u8 \<Rightarrow> AieRC \<times> 'hw \<Rightarrow> (AieRC \<times> 'hw) option" where
  "wait_pending be tile ch destPendingBDCount s =
     (if destPendingBDCount = 0 then Some s
      else case XAie_DmaGetPendingBdCount be (snd s) tile ch DMA_S2MM of
             (r, written, hw1) \<Rightarrow>
               wait_pending be tile ch
                 (case written of None \<Rightarrow> destPendingBDCount | Some n \<Rightarrow> n)
                 (fst s OR r, hw1))"

declare wait_pending.simps [code]

definition XAie_MoveData ::
  "'hw XAie_Backend \<Rightarrow> XAie_RoutingInstance \<Rightarrow> XAie_LocType \<Rightarrow> u64 \<Rightarrow> u32 \<Rightarrow> u64 \<Rightarrow>
   XAie_LocType \<Rightarrow> 'hw \<Rightarrow> 'hw outcome option" where
  "XAie_MoveData be ri src SourceObject data_size DestinationObject dst hw =
     (case XAie_programBufferDescriptors be ri src SourceObject data_size DestinationObject dst hw of
        (rc, sourceBD, destinationBD, hw1, ri1) \<Rightarrow>
          if rc \<noteq> XAIE_OK then Some (Inl (BDProgrammingFailed, hw1, ri1))
          else
            (case tile_at ri1 src of
               None \<Rightarrow> Some (Inl (NullConstraint, hw1, ri1))
             | Some Sourceconstraint \<Rightarrow>
                 (case XAie_findRouteInRouteDB (routesDB Sourceconstraint) src dst of
                    None \<Rightarrow> Some (Inl (NoProgrammedPath, hw1, ri1))
                  | Some routingPath \<Rightarrow>
                      (let sourceChannelID =
                             (if XAie_isShimTile ri1 src
                              then of_int (findAvailableChannelIDforShimTile ri1 src
                                             (MM2S_portNo routingPath) True)
                              else MM2S_portNo routingPath);
                           destChannelID =
                             (if XAie_isShimTile ri1 dst
                              then of_int (findAvailableChannelIDforShimTile ri1 dst
                                             (S2MM_portNo routingPath) False)
                              else S2MM_portNo routingPath);
                           destBD = (case destinationBD of None \<Rightarrow> 0 | Some b \<Rightarrow> b);
                           s1 = rc_call (\<lambda>h. XAie_DmaChannelEnable be h src sourceChannelID DMA_MM2S)
                                  (rc_call (\<lambda>h. XAie_DmaChannelPushBdToQueue be h src
                                                  sourceChannelID DMA_MM2S sourceBD)
                                     (XAIE_OK, hw1))
                       in if fst s1 \<noteq> XAIE_OK then Some (Inl (SourceChannelFailed, snd s1, ri1))
                          else
                            (let s2 = rc_call (\<lambda>h. XAie_DmaChannelEnable be h dst destChannelID
                                                      DMA_S2MM)
                                        (rc_call (\<lambda>h. XAie_DmaChannelPushBdToQueue be h dst
                                                        destChannelID DMA_S2MM destBD) s1)
                             in if fst s2 \<noteq> XAIE_OK
                                then Some (Inl (DestChannelFailed, snd s2, ri1))
                                else
                                  (case wait_pending be dst destChannelID 1 s2 of
                                     None \<Rightarrow> None
                                   | Some s3 \<Rightarrow>
                                       if fst s3 \<noteq> XAIE_OK
                                       then Some (Inl (PendingBdFailed, snd s3, ri1))
                                       else Some (Inr (snd s3,
                                              XAie_resetBDAvailability
                                                (XAie_resetBDAvailability ri1 dst (ucast destBD))
                                                src (ucast sourceBD)))))))))"

section \<open>The seed table of the specification and example devices\<close>




text \<open>A device of 5 columns and 4 rows (shim row 0, memory row 1, compute rows 2 and 3),
  the layout of the SystemC configuration in \<^verbatim>\<open>test/stest/hw_config.h\<close>; a zeroed tile
  record for the content of fresh memory; and a backend whose calls all succeed and on which
  no buffer descriptor is ever pending.\<close>

definition dev_5x4 :: XAie_DevInst where
  "dev_5x4 = \<lparr>DevNumRows = 4, DevNumCols = 5, ShimRow = 0, MemTileRowStart = 1,
              MemTileNumRows = 1, AieTileRowStart = 2, AieTileNumRows = 2\<rparr>"

definition zero_tile :: XAie_CoreConstraint where
  "zero_tile = \<lparr>isAutoConfigured = False, MM2S_State = 0, S2MM_State = 0, ShimMM2S_State = 0,
     ShimS2MM_State = 0, AllChannelsInUse = False, BDState = 0, AllBDsareInUse = False,
     tile_type = XAIE_AIE_SHIM,
     DirSupported = \<lparr>canMoveNorth = False, canMoveSouth = False,
                      canMoveEast = False, canMoveWest = False\<rparr>,
     SlaveEast = 0, SlaveWest = 0, SlaveSouth = 0, SlaveNorth = 0,
     MasterEast = 0, MasterWest = 0, MasterSouth = 0, MasterNorth = 0,
     Host2AIEPorts = None, Host2AIEPortCount = 0, AIE2HostPorts = None, AIE2HostPortCount = 0,
     routesDB = [], isCoreExecuting = False\<rparr>"

definition ri_5x4 :: XAie_RoutingInstance where
  "ri_5x4 = XAie_InitRoutingHandler dev_5x4 (\<lambda>t. zero_tile) (\<lambda>a. [])"

definition ok_backend :: "unit XAie_Backend" where
  "ok_backend = \<lparr>
     XAie_StrmConnCctEnable = (\<lambda>h t sd ss dd ds. (XAIE_OK, h)),
     XAie_StrmConnCctDisable = (\<lambda>h t sd ss dd ds. (XAIE_OK, h)),
     XAie_EnableAieToShimDmaStrmPort = (\<lambda>h t p. (XAIE_OK, h)),
     XAie_EnableShimDmaToAieStrmPort = (\<lambda>h t p. (XAIE_OK, h)),
     XAie_DmaDescInit = (\<lambda>h n t. (XAIE_OK, h)),
     XAie_DmaSetAddrLen = (\<lambda>h n a l. (XAIE_OK, h)),
     XAie_DmaSetAddrOffsetLen = (\<lambda>h n a off l. (XAIE_OK, h)),
     XAie_DmaEnableBd = (\<lambda>h n. (XAIE_OK, h)),
     XAie_DmaWriteBd = (\<lambda>h n t b. (XAIE_OK, h)),
     XAie_DmaChannelPushBdToQueue = (\<lambda>h t c d b. (XAIE_OK, h)),
     XAie_DmaChannelEnable = (\<lambda>h t c d. (XAIE_OK, h)),
     XAie_DmaGetPendingBdCount = (\<lambda>h t c d. (XAIE_OK, Some 0, h)),
     XAie_CoreEnable = (\<lambda>h t. (XAIE_OK, h)),
     BackendIsRaw = True\<rparr>"

section \<open>Predicates of the properties\<close>

text \<open>A bitmap that frees no port that the other has reserved: \<open>sub8 a b\<close> says that every
  bit set in \<open>a\<close> is set in \<open>b\<close>.\<close>

definition sub8 :: "u8 \<Rightarrow> u8 \<Rightarrow> bool" where
  "sub8 a b = (a AND b = a)"

definition tile_shrinks :: "XAie_CoreConstraint \<Rightarrow> XAie_CoreConstraint \<Rightarrow> bool" where
  "tile_shrinks c c' =
     (sub8 (SlaveEast c') (SlaveEast c) \<and> sub8 (SlaveWest c') (SlaveWest c) \<and>
      sub8 (SlaveSouth c') (SlaveSouth c) \<and> sub8 (SlaveNorth c') (SlaveNorth c) \<and>
      sub8 (MasterEast c') (MasterEast c) \<and> sub8 (MasterWest c') (MasterWest c) \<and>
      sub8 (MasterSouth c') (MasterSouth c) \<and> sub8 (MasterNorth c') (MasterNorth c) \<and>
      sub8 (MM2S_State c') (MM2S_State c) \<and> sub8 (S2MM_State c') (S2MM_State c) \<and>
      BDState c' = BDState c \<and> tile_type c' = tile_type c \<and>
      isCoreExecuting c' = isCoreExecuting c \<and>
      Host2AIEPorts c' = Host2AIEPorts c \<and> Host2AIEPortCount c' = Host2AIEPortCount c \<and>
      AIE2HostPorts c' = AIE2HostPorts c \<and> AIE2HostPortCount c' = AIE2HostPortCount c)"

definition mapping_shrinks :: "XAie_ChannelPortMapping \<Rightarrow> XAie_ChannelPortMapping \<Rightarrow> bool" where
  "mapping_shrinks m m' =
     (port m' = port m \<and> channel m' = channel m \<and> (availability m \<or> \<not> availability m'))"

definition instance_shrinks :: "XAie_RoutingInstance \<Rightarrow> XAie_RoutingInstance \<Rightarrow> bool" where
  "instance_shrinks ri ri' =
     (NumRows ri' = NumRows ri \<and> NumCols ri' = NumCols ri \<and>
      (\<forall>t. rel_option tile_shrinks (tile_at ri t) (tile_at ri' t)) \<and>
      (\<forall>a. list_all2 mapping_shrinks (PortMappings ri a) (PortMappings ri' a)))"

definition same_routes :: "XAie_RoutingInstance \<Rightarrow> XAie_RoutingInstance \<Rightarrow> bool" where
  "same_routes ri ri' = (\<forall>t. map_option routesDB (tile_at ri' t) = map_option routesDB (tile_at ri t))"

definition sub64 :: "u64 \<Rightarrow> u64 \<Rightarrow> bool" where
  "sub64 a b = (a AND b = a)"

definition bd_free :: "XAie_RoutingInstance \<Rightarrow> XAie_LocType \<Rightarrow> int \<Rightarrow> bool" where
  "bd_free ri t k = (case tile_at ri t of None \<Rightarrow> False | Some c \<Rightarrow> test_bit64 (BDState c) k)"

definition bd_shrinks :: "XAie_RoutingInstance \<Rightarrow> XAie_RoutingInstance \<Rightarrow> bool" where
  "bd_shrinks ri ri' =
     (\<forall>t. rel_option (\<lambda>c c'. sub64 (BDState c') (BDState c) \<and> routesDB c' = routesDB c \<and>
                              tile_type c' = tile_type c)
            (tile_at ri t) (tile_at ri' t))"

section \<open>Example runs\<close>

text \<open>What a call leaves behind: the state after it (also after a failing call), its
  error, and a field of a tile in a state.\<close>

definition state_after :: "'hw outcome option \<Rightarrow> XAie_RoutingInstance option" where
  "state_after r =
     (case r of None \<Rightarrow> None | Some (Inl (e, hw, ri)) \<Rightarrow> Some ri | Some (Inr (hw, ri)) \<Rightarrow> Some ri)"

definition error_of :: "'hw outcome option \<Rightarrow> XAie_Error option" where
  "error_of r = (case r of Some (Inl (e, hw, ri)) \<Rightarrow> Some e | _ \<Rightarrow> None)"

definition succeeded :: "'hw outcome option \<Rightarrow> bool" where
  "succeeded r = (case r of Some (Inr x) \<Rightarrow> True | _ \<Rightarrow> False)"

definition field_at ::
  "(XAie_CoreConstraint \<Rightarrow> 'a) \<Rightarrow> XAie_RoutingInstance option \<Rightarrow> XAie_LocType \<Rightarrow> 'a option" where
  "field_at f r t = (case r of None \<Rightarrow> None | Some ri \<Rightarrow> map_option f (tile_at ri t))"

definition then_route ::
  "XAie_RoutingInstance \<Rightarrow> XAie_LocType \<Rightarrow> XAie_LocType \<Rightarrow> XAie_RoutingInstance" where
  "then_route ri s d =
     (case state_after (XAie_Route ok_backend ri None s d ()) of None \<Rightarrow> ri | Some r \<Rightarrow> r)"

definition then_deroute ::
  "XAie_RoutingInstance \<Rightarrow> XAie_LocType \<Rightarrow> XAie_LocType \<Rightarrow> XAie_RoutingInstance" where
  "then_deroute ri s d =
     (case state_after (Some (XAie_DeRoute ok_backend ri s d False ())) of
        None \<Rightarrow> ri | Some r \<Rightarrow> r)"

definition then_move ::
  "XAie_RoutingInstance \<Rightarrow> XAie_LocType \<Rightarrow> XAie_LocType \<Rightarrow> XAie_RoutingInstance" where
  "then_move ri s d =
     (case state_after (XAie_MoveData ok_backend ri s 0x2000 128 0x2000 d ()) of
        None \<Rightarrow> ri | Some r \<Rightarrow> r)"

definition availabilities :: "XAie_RoutingInstance \<Rightarrow> nat \<Rightarrow> bool list" where
  "availabilities ri a = map availability (PortMappings ri a)"

definition route_steps ::
  "XAie_RoutingInstance \<Rightarrow> XAie_LocType \<Rightarrow> XAie_LocType \<Rightarrow> XAie_RoutingStep list" where
  "route_steps ri s d =
     (case tile_at ri s of
        None \<Rightarrow> []
      | Some c \<Rightarrow> (case XAie_findRouteInRouteDB (routesDB c) s d of
                     None \<Rightarrow> [] | Some p \<Rightarrow> nextStep p))"

definition step_ports :: "XAie_RoutingStep \<Rightarrow> int \<times> int" where
  "step_ports st = (sourceStream st, destStream st)"

fun junctions_threaded :: "XAie_RoutingStep list \<Rightarrow> bool" where
  "junctions_threaded (a # b # c # rest) =
     (sourceStream b = destStream a \<and> junctions_threaded (b # c # rest))"
| "junctions_threaded steps = True"

definition master_bitmap :: "XAie_CoreConstraint \<Rightarrow> StrmSwPortType \<Rightarrow> u8" where
  "master_bitmap c d =
     (case d of NORTH \<Rightarrow> MasterNorth c | SOUTH \<Rightarrow> MasterSouth c
              | EAST \<Rightarrow> MasterEast c | WEST \<Rightarrow> MasterWest c | _ \<Rightarrow> 0)"

definition slave_bitmap :: "XAie_CoreConstraint \<Rightarrow> StrmSwPortType \<Rightarrow> u8" where
  "slave_bitmap c d =
     (case d of NORTH \<Rightarrow> SlaveNorth c | SOUTH \<Rightarrow> SlaveSouth c
              | EAST \<Rightarrow> SlaveEast c | WEST \<Rightarrow> SlaveWest c | _ \<Rightarrow> 0)"

definition opposite :: "StrmSwPortType \<Rightarrow> StrmSwPortType" where
  "opposite d = (case d of NORTH \<Rightarrow> SOUTH | SOUTH \<Rightarrow> NORTH | EAST \<Rightarrow> WEST | WEST \<Rightarrow> EAST | x \<Rightarrow> x)"

definition spec_edge_traversable ::
  "XAie_RoutingInstance \<Rightarrow> XAie_RouteConstraints option \<Rightarrow> XAie_LocType \<Rightarrow> XAie_LocType \<Rightarrow>
   StrmSwPortType \<Rightarrow> (XAie_LocType \<Rightarrow> bool) \<Rightarrow> bool" where
  "spec_edge_traversable ri rc cur nbr d vis =
     ((Col nbr < NumCols ri \<and> Row nbr < NumRows ri) \<and>
      \<not> XAie_isTileBlackListed nbr rc \<and>
      \<not> vis nbr \<and>
      (case (tile_at ri cur, tile_at ri nbr) of
         (Some cc, Some nc) \<Rightarrow>
           list_ex (\<lambda>i. test_bit8 (master_bitmap cc d) (int i) \<and>
                        test_bit8 (slave_bitmap nc (opposite d)) (int i)) [0..<8]
       | _ \<Rightarrow> False))"

definition nothing_visited :: "XAie_LocType \<Rightarrow> bool" where
  "nothing_visited t = False"

definition dev_1x5 :: XAie_DevInst where
  "dev_1x5 = \<lparr>DevNumRows = 5, DevNumCols = 1, ShimRow = 0, MemTileRowStart = 1,
              MemTileNumRows = 1, AieTileRowStart = 2, AieTileNumRows = 3\<rparr>"

definition ri_1x5 :: XAie_RoutingInstance where
  "ri_1x5 = XAie_InitRoutingHandler dev_1x5 (\<lambda>t. zero_tile) (\<lambda>a. [])"

definition ri_two_into_03 :: XAie_RoutingInstance where
  "ri_two_into_03 = then_route (then_route ri_1x5 (XAie_TileLoc 0 2) (XAie_TileLoc 0 3))
       (XAie_TileLoc 0 1) (XAie_TileLoc 0 3)"

definition ri_drift :: XAie_RoutingInstance where
  "ri_drift = then_route ri_two_into_03 (XAie_TileLoc 0 4) (XAie_TileLoc 0 3)"

definition ri_4south :: XAie_RoutingInstance where
  "ri_4south = then_route (then_route (then_route (then_route ri_1x5
       (XAie_TileLoc 0 3) (XAie_TileLoc 0 2)) (XAie_TileLoc 0 3) (XAie_TileLoc 0 1))
       (XAie_TileLoc 0 4) (XAie_TileLoc 0 2)) (XAie_TileLoc 0 4) (XAie_TileLoc 0 1)"

definition ri_mem_bds_in_use :: XAie_RoutingInstance where
  "ri_mem_bds_in_use =
     upd_tile (XAie_TileLoc 0 1) (\<lambda>c. c\<lparr>BDState := 0xFFFFFFFF0000\<rparr>)
       (then_route ri_1x5 (XAie_TileLoc 0 1) (XAie_TileLoc 0 2))"

section \<open>The hops a route programs\<close>

text \<open>
  The rounds of the \<^verbatim>\<open>for\<close> loop of \<^verbatim>\<open>_XAie_performRoutingOnPath\<close> that succeed before the
  loop returns, in order: the tile of the round, the side its master port is on, the master
  port the round bound (\<^verbatim>\<open>destStream\<close>) and the state the round leaves.
  \<open>XAie_Route_hops\<close> gives them for one call of \<^verbatim>\<open>XAie_Route\<close>: none when the call returns
  before it programs the path. \<open>master_port_free\<close> reads one bit of a master bitmap.
\<close>

fun programmed_hops ::
  "'hw XAie_Backend \<Rightarrow> bool \<Rightarrow> XAie_LocType list \<Rightarrow> XAie_RoutingPath \<Rightarrow>
   StrmSwPortType \<Rightarrow> int \<Rightarrow> 'hw \<Rightarrow> XAie_RoutingInstance \<Rightarrow>
   (XAie_LocType \<times> StrmSwPortType \<times> int \<times> XAie_RoutingInstance) list" where
  "programmed_hops be first (SourceTile # DestinationTile # rest) cur lastDir lastStream hw ri =
     (case route_hop be first SourceTile DestinationTile cur lastDir lastStream hw ri of
        Inl e \<Rightarrow> []
      | Inr (cur1, lastDir1, lastStream1, hw1, ri1) \<Rightarrow>
          (SourceTile, flow_dirSource SourceTile DestinationTile, lastStream1, ri1) #
          programmed_hops be False (DestinationTile # rest) cur1 lastDir1 lastStream1 hw1 ri1)"
| "programmed_hops be first path cur lastDir lastStream hw ri = []"

definition XAie_Route_hops ::
  "'hw XAie_Backend \<Rightarrow> XAie_RoutingInstance \<Rightarrow> XAie_RouteConstraints option \<Rightarrow> XAie_LocType \<Rightarrow>
   XAie_LocType \<Rightarrow> 'hw \<Rightarrow> (XAie_LocType \<times> StrmSwPortType \<times> int \<times> XAie_RoutingInstance) list" where
  "XAie_Route_hops be ri rc src dst hw =
     (case tile_at ri src of
        None \<Rightarrow> []
      | Some Sourceconstraint \<Rightarrow>
          if XAie_findRouteInRouteDB (routesDB Sourceconstraint) src dst \<noteq> None then []
          else
            (case XAie_findShortestPath ri rc src dst of
               Some (Some path) \<Rightarrow>
                 programmed_hops be True path
                   \<lparr>source = src, destination = dst, MM2S_portNo = - 1, S2MM_portNo = - 1,
                    nextStep = []\<rparr>
                   SOUTH (- 1) hw ri
             | _ \<Rightarrow> []))"

definition master_port_free ::
  "XAie_RoutingInstance \<Rightarrow> XAie_LocType \<Rightarrow> StrmSwPortType \<Rightarrow> int \<Rightarrow> bool" where
  "master_port_free ri t d p =
     (case tile_at ri t of None \<Rightarrow> False | Some c \<Rightarrow> test_bit8 (master_bitmap c d) p)"

section \<open>Predicates of the path finder's result\<close>

text \<open>An edge the finder's test accepts when no tile is visited, a sequence of tiles joined
  by such edges, the white-list condition on one tile, and what the search keeps true of
  its parent pointers and its queue.\<close>

definition finder_edge ::
  "XAie_RoutingInstance \<Rightarrow> XAie_RouteConstraints option \<Rightarrow> XAie_LocType \<Rightarrow> XAie_LocType \<Rightarrow> bool" where
  "finder_edge ri rc cur adj =
     list_ex (\<lambda>(dRow, dCol, p). adj = XAie_TileLoc (Col cur + dCol) (Row cur + dRow) \<and>
                XAie_isAdjTileValidForCurrTile ri rc cur adj p nothing_visited)
       bfs_directions"

fun edge_path ::
  "XAie_RoutingInstance \<Rightarrow> XAie_RouteConstraints option \<Rightarrow> XAie_LocType list \<Rightarrow> bool" where
  "edge_path ri rc (a # b # rest) = (finder_edge ri rc a b \<and> edge_path ri rc (b # rest))"
| "edge_path ri rc path = True"

definition whitelist_ok :: "XAie_RouteConstraints option \<Rightarrow> XAie_LocType \<Rightarrow> bool" where
  "whitelist_ok rc t =
     (case rc of None \<Rightarrow> True
      | Some r \<Rightarrow> WhiteListedCores r = [] \<or> XAie_isTileWhitelisted t (WhiteListedCores r))"

definition bfs_inv ::
  "XAie_RoutingInstance \<Rightarrow> XAie_RouteConstraints option \<Rightarrow> XAie_LocType \<Rightarrow> bfs_state \<Rightarrow> bool" where
  "bfs_inv ri rc src st =
     ((\<forall>t. visited st t \<longrightarrow>
          finder_edge ri rc (Pred st t) t \<and> (Pred st t = src \<or> visited st (Pred st t))) \<and>
      (\<forall>q \<in> set (queue st). q = src \<or> visited st q))"

text \<open>What the proofs about the search are stated with: a tile of the grid, a tile the
  search has reached, a sequence of tiles from the source to a tile over accepted edges, a
  constraint set with no white list, and the levels of the breadth-first search. The levels
  \<open>lev\<close> count the edges from the source; \<open>busy\<close> holds the tile whose neighbours are being
  visited; \<open>L\<close> is the level of that tile.\<close>

definition in_grid :: "XAie_RoutingInstance \<Rightarrow> XAie_LocType \<Rightarrow> bool" where
  "in_grid ri t = (Col t < NumCols ri \<and> Row t < NumRows ri)"

definition discovered :: "XAie_LocType \<Rightarrow> bfs_state \<Rightarrow> XAie_LocType \<Rightarrow> bool" where
  "discovered src st t = (t = src \<or> visited st t)"

definition src_path ::
  "XAie_RoutingInstance \<Rightarrow> XAie_RouteConstraints option \<Rightarrow> XAie_LocType \<Rightarrow> XAie_LocType \<Rightarrow>
   XAie_LocType list \<Rightarrow> bool" where
  "src_path ri rc src t q = (q \<noteq> [] \<and> hd q = src \<and> last q = t \<and> edge_path ri rc q)"

definition bfs_level_inv ::
  "XAie_RoutingInstance \<Rightarrow> XAie_RouteConstraints option \<Rightarrow> XAie_LocType \<Rightarrow>
   (XAie_LocType \<Rightarrow> bool) \<Rightarrow> nat \<Rightarrow> (XAie_LocType \<Rightarrow> nat) \<Rightarrow> bfs_state \<Rightarrow> bool" where
  "bfs_level_inv ri rc src busy L lev st =
     (lev src = 0 \<and>
      (\<forall>t. visited st t \<and> t \<noteq> src \<longrightarrow>
           discovered src st (Pred st t) \<and> finder_edge ri rc (Pred st t) t \<and>
           lev t = lev (Pred st t) + 1) \<and>
      (\<forall>t q. discovered src st t \<and> src_path ri rc src t q \<longrightarrow> lev t + 1 \<le> length q) \<and>
      distinct (queue st) \<and> (\<forall>t \<in> set (queue st). visited st t) \<and>
      sorted (map lev (filter (\<lambda>t. t \<noteq> src) (queue st))) \<and>
      (\<forall>t \<in> set (queue st). t \<noteq> src \<longrightarrow> L \<le> lev t \<and> lev t \<le> L + 1) \<and>
      (\<forall>t u. discovered src st t \<and> (t \<notin> set (queue st) \<or> t = src) \<and> \<not> busy t \<and>
             finder_edge ri rc t u \<longrightarrow> discovered src st u) \<and>
      (\<forall>t. visited st t \<longrightarrow> in_grid ri t) \<and>
      (\<forall>t. busy t \<longrightarrow> t \<notin> set (queue st) \<and> discovered src st t \<and> lev t = L))"

definition no_whitelist :: "XAie_RouteConstraints option \<Rightarrow> bool" where
  "no_whitelist rc = (case rc of None \<Rightarrow> True | Some r \<Rightarrow> WhiteListedCores r = [])"

definition whitelist_33_43 :: XAie_RouteConstraints where
  "whitelist_33_43 =
     \<lparr>BlackListedCores = [], WhiteListedCores = [XAie_TileLoc 3 3, XAie_TileLoc 4 3]\<rparr>"

definition whitelist_22_32_33 :: XAie_RouteConstraints where
  "whitelist_22_32_33 =
     \<lparr>BlackListedCores = [],
      WhiteListedCores = [XAie_TileLoc 2 2, XAie_TileLoc 3 2, XAie_TileLoc 3 3]\<rparr>"

section \<open>Initial state\<close>



section \<open>Frame lemmas\<close>


lemma sub8_refl [simp]: "sub8 a a"
  by (simp add: sub8_def)

lemma sub8_trans: "sub8 a b \<Longrightarrow> sub8 b c \<Longrightarrow> sub8 a c"
  unfolding sub8_def by (metis and.assoc)

lemma sub8_unset [simp]: "sub8 (unset_bit8 w n) w"
  by (simp add: sub8_def unset_bit8_def ac_simps)

lemma tile_shrinks_refl [simp]: "tile_shrinks c c"
  by (simp add: tile_shrinks_def)

lemma tile_shrinks_trans: "tile_shrinks a b \<Longrightarrow> tile_shrinks b c \<Longrightarrow> tile_shrinks a c"
  unfolding tile_shrinks_def by (auto intro: sub8_trans)

lemma mapping_shrinks_refl [simp]: "mapping_shrinks m m"
  by (simp add: mapping_shrinks_def)

lemma mapping_shrinks_trans: "mapping_shrinks a b \<Longrightarrow> mapping_shrinks b c \<Longrightarrow> mapping_shrinks a c"
  unfolding mapping_shrinks_def by auto

lemma instance_shrinks_refl [simp]: "instance_shrinks ri ri"
  by (simp add: instance_shrinks_def option.rel_refl list.rel_refl)

lemma instance_shrinks_trans:
  assumes "instance_shrinks a b" and "instance_shrinks b c"
  shows "instance_shrinks a c"
proof -
  have t: "rel_option tile_shrinks (tile_at a t) (tile_at c t)" for t
  proof -
    have "rel_option tile_shrinks (tile_at a t) (tile_at b t)"
      and "rel_option tile_shrinks (tile_at b t) (tile_at c t)"
      using assms by (simp_all add: instance_shrinks_def)
    then show ?thesis
      by (cases "tile_at a t"; cases "tile_at b t"; cases "tile_at c t")
         (auto intro: tile_shrinks_trans)
  qed
  have m: "list_all2 mapping_shrinks (PortMappings a x) (PortMappings c x)" for x
  proof -
    have "list_all2 mapping_shrinks (PortMappings a x) (PortMappings b x)"
      and "list_all2 mapping_shrinks (PortMappings b x) (PortMappings c x)"
      using assms by (simp_all add: instance_shrinks_def)
    then show ?thesis
      by (rule list_all2_trans [rotated]) (rule mapping_shrinks_trans)
  qed
  show ?thesis
    using assms t m by (simp add: instance_shrinks_def)
qed

lemma same_routes_refl [simp]: "same_routes ri ri"
  by (simp add: same_routes_def)

lemma same_routes_trans: "same_routes a b \<Longrightarrow> same_routes b c \<Longrightarrow> same_routes a c"
  by (simp add: same_routes_def)

lemma tile_at_upd_tile:
  "tile_at (upd_tile t f ri) t' = (if t' = t then map_option f (tile_at ri t) else tile_at ri t')"
  by (simp add: tile_at_def upd_tile_def)

lemma upd_tile_fields [simp]:
  "NumRows (upd_tile t f ri) = NumRows ri"
  "NumCols (upd_tile t f ri) = NumCols ri"
  "PortMappings (upd_tile t f ri) = PortMappings ri"
  by (simp_all add: upd_tile_def)

lemma upd_tile_shrinks:
  assumes "\<And>c. tile_shrinks c (f c)"
  shows "instance_shrinks ri (upd_tile t f ri)"
  using assms
  by (auto simp: instance_shrinks_def tile_at_upd_tile option.rel_refl list.rel_refl
        option.rel_map intro!: option.rel_refl_strong)

lemma upd_tile_same_routes:
  assumes "\<And>c. routesDB (f c) = routesDB c"
  shows "same_routes ri (upd_tile t f ri)"
  using assms by (auto simp: same_routes_def tile_at_upd_tile option.map_comp comp_def)

lemma unset_slave_shrinks: "tile_shrinks c (unset_slave d s c)"
  by (cases d) (simp_all add: unset_slave_def tile_shrinks_def)

lemma unset_master_shrinks: "tile_shrinks c (unset_master d s c)"
  by (cases d) (simp_all add: unset_master_def tile_shrinks_def)

lemma unset_routes [simp]:
  "routesDB (unset_slave d s c) = routesDB c" "routesDB (unset_master d s c) = routesDB c"
  by (cases d; simp add: unset_slave_def unset_master_def)+

lemma strmconn_shrinks:
  "instance_shrinks ri (XAie_updatePortAvailabilityForStrmConn ri t sd ss dd ds)"
  unfolding XAie_updatePortAvailabilityForStrmConn_def
  by (rule upd_tile_shrinks) (blast intro: tile_shrinks_trans unset_slave_shrinks unset_master_shrinks)

lemma strmconn_same_routes:
  "same_routes ri (XAie_updatePortAvailabilityForStrmConn ri t sd ss dd ds)"
  unfolding XAie_updatePortAvailabilityForStrmConn_def
  by (rule upd_tile_same_routes) simp

lemma mark_ports_shrinks: "list_all2 mapping_shrinks ms (mark_ports p False n ms)"
proof -
  have "list_all2 mapping_shrinks (take n ms @ drop n ms)
          (map (\<lambda>m. if uint (port m) = p then m\<lparr>availability := False\<rparr> else m) (take n ms) @ drop n ms)"
    by (intro list_all2_appendI) (simp_all add: list_all2_map2 list.rel_refl mapping_shrinks_def
          list_all2_same)
  then show ?thesis by (simp add: mark_ports_def)
qed

lemma mark_store_shrinks: "instance_shrinks ri (mark_store a n p False ri)"
  by (cases a) (simp_all add: mark_store_def instance_shrinks_def tile_at_def option.rel_refl
        list.rel_refl mark_ports_shrinks)

lemma mark_store_same_routes: "same_routes ri (mark_store a n p v ri)"
  by (cases a) (simp_all add: mark_store_def same_routes_def tile_at_def)

lemma shim_to_aie_shrinks:
  "instance_shrinks ri (snd (XAie_updatePortAvailabilityForShimDmaToAie ri t p False))"
  by (simp add: XAie_updatePortAvailabilityForShimDmaToAie_def mark_store_shrinks
        split: option.splits)

lemma aie_to_shim_shrinks:
  "instance_shrinks ri (snd (XAie_updatePortAvailabilityForAieToShimDma ri t p False))"
  by (simp add: XAie_updatePortAvailabilityForAieToShimDma_def mark_store_shrinks
        split: option.splits)

lemma shim_to_aie_same_routes:
  "same_routes ri (snd (XAie_updatePortAvailabilityForShimDmaToAie ri t p v))"
  by (simp add: XAie_updatePortAvailabilityForShimDmaToAie_def mark_store_same_routes
        split: option.splits)

lemma aie_to_shim_same_routes:
  "same_routes ri (snd (XAie_updatePortAvailabilityForAieToShimDma ri t p v))"
  by (simp add: XAie_updatePortAvailabilityForAieToShimDma_def mark_store_same_routes
        split: option.splits)

lemma auto_configured_shrinks:
  "instance_shrinks ri (upd_tile t (\<lambda>c. c\<lparr>isAutoConfigured := True\<rparr>) ri)"
  by (rule upd_tile_shrinks) (simp add: tile_shrinks_def)

lemma auto_configured_same_routes:
  "same_routes ri (upd_tile t (\<lambda>c. c\<lparr>isAutoConfigured := True\<rparr>) ri)"
  by (rule upd_tile_same_routes) simp

lemma add_route_shrinks:
  "instance_shrinks ri (upd_tile t (\<lambda>c. c\<lparr>routesDB := g c\<rparr>) ri)"
  by (rule upd_tile_shrinks) (simp add: tile_shrinks_def)

lemma route_hop_shrinks:
  "route_hop be first s d cur ld ls hw ri = Inr (cur1, ld1, ls1, hw1, ri1) \<Longrightarrow>
     instance_shrinks ri ri1 \<and> same_routes ri ri1"
  "route_hop be first s d cur ld ls hw ri = Inl (e, hw2, ri2) \<Longrightarrow>
     instance_shrinks ri ri2 \<and> same_routes ri ri2"
  unfolding route_hop_def Let_def
  by (auto split: if_splits prod.splits
      intro: instance_shrinks_trans [OF auto_configured_shrinks]
             instance_shrinks_trans [OF auto_configured_shrinks strmconn_shrinks]
             instance_shrinks_trans [OF instance_shrinks_trans [OF auto_configured_shrinks strmconn_shrinks] shim_to_aie_shrinks]
             same_routes_trans [OF auto_configured_same_routes]
             same_routes_trans [OF auto_configured_same_routes strmconn_same_routes]
             same_routes_trans [OF same_routes_trans [OF auto_configured_same_routes strmconn_same_routes] shim_to_aie_same_routes]
             auto_configured_shrinks auto_configured_same_routes)

lemma route_last_tile_shrinks:
  "route_last_tile be src t cur ld ls hw ri = Inr (hw1, ri1) \<Longrightarrow> instance_shrinks ri ri1"
  "route_last_tile be src t cur ld ls hw ri = Inl (e, hw2, ri2) \<Longrightarrow>
     instance_shrinks ri ri2 \<and> same_routes ri ri2"
  unfolding route_last_tile_def Let_def
  by (auto split: if_splits prod.splits
      intro: instance_shrinks_trans [OF auto_configured_shrinks strmconn_shrinks]
             instance_shrinks_trans [OF instance_shrinks_trans [OF auto_configured_shrinks strmconn_shrinks] add_route_shrinks]
             instance_shrinks_trans [OF instance_shrinks_trans [OF instance_shrinks_trans [OF auto_configured_shrinks strmconn_shrinks] aie_to_shim_shrinks] add_route_shrinks]
             same_routes_trans [OF auto_configured_same_routes strmconn_same_routes]
             auto_configured_shrinks auto_configured_same_routes)

lemma performRoutingLoop_shrinks:
  "performRoutingLoop be src first path cur ld ls hw ri = Inr (hw1, ri1) \<Longrightarrow>
     instance_shrinks ri ri1"
proof (induction be src first path cur ld ls hw ri rule: performRoutingLoop.induct)
  case (1 be src first cur lastDir lastStream hw ri)
  then show ?case by simp
next
  case (2 be src first LastTile cur lastDir lastStream hw ri)
  then show ?case by (simp add: route_last_tile_shrinks)
next
  case (3 be src first SourceTile DestinationTile rest cur lastDir lastStream hw ri)
  from "3.prems" obtain cur' ld' ls' hw' ri' where
    hop: "route_hop be first SourceTile DestinationTile cur lastDir lastStream hw ri =
            Inr (cur', ld', ls', hw', ri')"
    and rest: "performRoutingLoop be src False (DestinationTile # rest) cur' ld' ls' hw' ri' =
            Inr (hw1, ri1)"
    by (auto split: sum.splits)
  from "3.IH" [OF hop refl refl refl refl rest] route_hop_shrinks(1) [OF hop]
  show ?case by (blast intro: instance_shrinks_trans)
qed

lemma performRoutingLoop_fails:
  "performRoutingLoop be src first path cur ld ls hw ri = Inl (e, hw1, ri1) \<Longrightarrow>
     instance_shrinks ri ri1 \<and> same_routes ri ri1"
proof (induction be src first path cur ld ls hw ri rule: performRoutingLoop.induct)
  case (1 be src first cur lastDir lastStream hw ri)
  then show ?case by simp
next
  case (2 be src first LastTile cur lastDir lastStream hw ri)
  then show ?case by (simp add: route_last_tile_shrinks)
next
  case (3 be src first SourceTile DestinationTile rest cur lastDir lastStream hw ri)
  show ?case
  proof (cases "route_hop be first SourceTile DestinationTile cur lastDir lastStream hw ri")
    case (Inl a)
    with "3.prems" have "a = (e, hw1, ri1)" by simp
    with Inl have "route_hop be first SourceTile DestinationTile cur lastDir lastStream hw ri =
        Inl (e, hw1, ri1)" by simp
    then show ?thesis by (rule route_hop_shrinks(2))
  next
    case (Inr b)
    obtain cur' ld' ls' hw' ri' where b: "b = (cur', ld', ls', hw', ri')"
      by (cases b) auto
    from "3.prems" Inr b have
      rest: "performRoutingLoop be src False (DestinationTile # rest) cur' ld' ls' hw' ri' =
            Inl (e, hw1, ri1)"
      by simp
    from "3.IH" [OF Inr [unfolded b] refl refl refl refl rest]
      route_hop_shrinks(1) [OF Inr [unfolded b]]
    show ?thesis by (blast intro: instance_shrinks_trans same_routes_trans)
  qed
qed

lemma shrinks_tile:
  assumes "instance_shrinks ri ri1" and "tile_at ri t = Some c"
  shows "\<exists>c1. tile_at ri1 t = Some c1 \<and> tile_shrinks c c1"
proof -
  from assms(1) have "rel_option tile_shrinks (tile_at ri t) (tile_at ri1 t)"
    by (simp add: instance_shrinks_def)
  with assms(2) show ?thesis by (cases "tile_at ri1 t") auto
qed

lemma shrinks_kind:
  assumes "instance_shrinks ri ri1"
  shows "XAie_isShimTile ri1 t = XAie_isShimTile ri t" and "XAie_isMemTile ri1 t = XAie_isMemTile ri t"
proof -
  from assms have r: "rel_option tile_shrinks (tile_at ri t) (tile_at ri1 t)"
    by (simp add: instance_shrinks_def)
  show "XAie_isShimTile ri1 t = XAie_isShimTile ri t"
    using r by (cases "tile_at ri t"; cases "tile_at ri1 t")
      (auto simp: XAie_isShimTile_def tile_shrinks_def)
  show "XAie_isMemTile ri1 t = XAie_isMemTile ri t"
    using r by (cases "tile_at ri t"; cases "tile_at ri1 t")
      (auto simp: XAie_isMemTile_def tile_shrinks_def)
qed

lemma tile_at_mark_endpoint:
  "tile_at (mark_endpoint t ri) t' =
     (if t' = t \<and> \<not> XAie_isShimTile ri t \<and> \<not> XAie_isMemTile ri t
      then map_option (\<lambda>c. c\<lparr>isCoreExecuting := True\<rparr>) (tile_at ri t)
      else tile_at ri t')"
  by (simp add: mark_endpoint_def XAie_SetCoreExecute_def tile_at_upd_tile)

lemma mark_endpoint_kind [simp]:
  "XAie_isShimTile (mark_endpoint t ri) t' = XAie_isShimTile ri t'"
  "XAie_isMemTile (mark_endpoint t ri) t' = XAie_isMemTile ri t'"
  by (auto simp: XAie_isShimTile_def XAie_isMemTile_def tile_at_mark_endpoint
      split: option.splits)

lemma mark_endpoint_grid [simp]:
  "NumRows (mark_endpoint t ri) = NumRows ri" "NumCols (mark_endpoint t ri) = NumCols ri"
  by (simp_all add: mark_endpoint_def XAie_SetCoreExecute_def)

lemma route_success_state:
  assumes "XAie_Route be ri rc src dst hw = Some (Inr (hw1, ri1))"
  shows "\<exists>ri0. instance_shrinks ri ri0 \<and> ri1 = mark_endpoint dst (mark_endpoint src ri0)"
  using assms
  by (auto simp: XAie_Route_def XAie_performRoutingOnPath_def
      split: option.splits if_splits sum.splits dest: performRoutingLoop_shrinks)

lemma loc_eta: "XAie_TileLoc (Col e) (Row e) = e"
  by (cases e) (simp add: XAie_TileLoc_def)

lemma in_grid_listed:
  assumes "Col e < NumCols ri" and "Row e < NumRows ri"
  shows "e \<in> set (concat (map (\<lambda>c. map (\<lambda>r. XAie_TileLoc (of_nat c) (of_nat r)) [0..<unat (NumRows ri)])
                  [0..<unat (NumCols ri)]))"
proof -
  have c: "unat (Col e) < unat (NumCols ri)" and r: "unat (Row e) < unat (NumRows ri)"
    using assms by (simp_all add: word_less_nat_alt)
  show ?thesis
    apply (simp only: set_concat set_map image_image)
    apply (rule UN_I [where a = "unat (Col e)"])
     apply (simp add: c)
    apply (rule image_eqI [where x = "unat (Row e)"])
     apply (simp add: loc_eta)
    apply (simp add: r)
    done
qed

lemma sub64_refl [simp]: "sub64 a a"
  by (simp add: sub64_def)

lemma sub64_trans: "sub64 a b \<Longrightarrow> sub64 b c \<Longrightarrow> sub64 a c"
  unfolding sub64_def by (metis and.assoc)

lemma sub64_unset [simp]: "sub64 (unset_bit64 w n) w"
  by (simp add: sub64_def unset_bit64_def ac_simps)

lemma test_unset_bit64:
  assumes "0 \<le> k" and "k < 31"
  shows "\<not> test_bit64 (unset_bit64 w k) k"
proof -
  have "scast (NOT (push_bit (nat k) (1::32 word))) AND (scast (push_bit (nat k) (1::32 word)) :: 64 word) = 0"
    by (rule bit_eqI) (auto simp: bit_simps)
  then have "(w AND scast (NOT (push_bit (nat k) (1::32 word)))) AND (scast (push_bit (nat k) (1::32 word)) :: 64 word) = 0"
    by (simp add: and.assoc)
  then show ?thesis
    using assms by (simp add: test_bit64_def unset_bit64_def int_shl1_def)
qed

lemma test_bit64_sub:
  assumes "sub64 a b" and "\<not> test_bit64 b k"
  shows "\<not> test_bit64 a k"
proof -
  have "a AND scast (int_shl1 k) = (a AND b) AND scast (int_shl1 k)"
    using assms(1) by (simp add: sub64_def)
  also have "\<dots> = a AND (b AND scast (int_shl1 k))"
    by (simp add: and.assoc)
  also have "\<dots> = 0"
    using assms(2) by (simp add: test_bit64_def)
  finally show ?thesis by (simp add: test_bit64_def)
qed

lemma first_free_bd_from_range:
  "first_free_bd_from w i n = k \<Longrightarrow> k \<noteq> -1 \<Longrightarrow> test_bit64 w k \<and> int i \<le> k \<and> k < int (i + n)"
  by (induction w i n rule: first_free_bd_from.induct) (auto split: if_splits)

lemma bd_shrinks_refl [simp]: "bd_shrinks ri ri"
  by (simp add: bd_shrinks_def option.rel_refl)

lemma bd_shrinks_trans:
  assumes "bd_shrinks a b" and "bd_shrinks b c"
  shows "bd_shrinks a c"
  unfolding bd_shrinks_def
proof
  fix t
  let ?R = "\<lambda>c c'. sub64 (BDState c') (BDState c) \<and> routesDB c' = routesDB c \<and> tile_type c' = tile_type c"
  have "rel_option ?R (tile_at a t) (tile_at b t)" and "rel_option ?R (tile_at b t) (tile_at c t)"
    using assms by (simp_all add: bd_shrinks_def)
  then show "rel_option ?R (tile_at a t) (tile_at c t)"
    by (cases "tile_at a t"; cases "tile_at b t"; cases "tile_at c t")
       (auto intro: sub64_trans)
qed

lemma find_bd_shrinks: "bd_shrinks ri (snd (XAie_findAvailableBufferID ri t))"
  by (auto simp: XAie_findAvailableBufferID_def Let_def bd_shrinks_def tile_at_upd_tile
        option.rel_refl option.rel_map split: option.splits intro!: option.rel_refl_strong)

lemma find_bd_takes:
  assumes "tile_at ri t = Some c" and "first_free_bd_from (BDState c) 0 48 = k"
    and "0 \<le> k" and "k < 31"
  shows "bd_free ri t k \<and> \<not> bd_free (snd (XAie_findAvailableBufferID ri t)) t k"
  using assms first_free_bd_from_range [of "BDState c" 0 48 k]
  by (auto simp: XAie_findAvailableBufferID_def Let_def bd_free_def tile_at_upd_tile
        test_unset_bit64)

lemma bd_free_shrinks:
  assumes "bd_shrinks ri ri1" and "\<not> bd_free ri t k"
  shows "\<not> bd_free ri1 t k"
proof -
  from assms(1) have "rel_option (\<lambda>c c'. sub64 (BDState c') (BDState c) \<and> routesDB c' = routesDB c \<and>
        tile_type c' = tile_type c) (tile_at ri t) (tile_at ri1 t)"
    by (simp add: bd_shrinks_def)
  with assms(2) show ?thesis
    by (cases "tile_at ri t"; cases "tile_at ri1 t")
       (auto simp: bd_free_def dest: test_bit64_sub)
qed

lemma program_one_bd_state:
  "program_one_bd be ri n t obj sz s = (s', k, ri1) \<Longrightarrow> ri1 = snd (XAie_findAvailableBufferID ri t)"
  by (auto simp: program_one_bd_def Let_def split: prod.splits)

lemma programBufferDescriptors_state:
  assumes "XAie_programBufferDescriptors be ri src a n b dst hw = (rc, sbd, dbd, hw1, ri1)"
  shows "ri1 = snd (XAie_findAvailableBufferID ri src) \<or>
         ri1 = snd (XAie_findAvailableBufferID (snd (XAie_findAvailableBufferID ri src)) dst)"
  using assms
  by (auto simp: XAie_programBufferDescriptors_def split: prod.splits if_splits
      dest!: program_one_bd_state)

lemma move_data_no_route:
  assumes tile: "tile_at ri src = Some c"
    and none: "XAie_findRouteInRouteDB (routesDB c) src dst = None"
  shows "\<exists>e hw1 ri1. XAie_MoveData be ri src a n b dst hw = Some (Inl (e, hw1, ri1)) \<and>
           (e = NoProgrammedPath \<or> e = BDProgrammingFailed) \<and>
           (fst (XAie_programBufferDescriptors be ri src a n b dst hw) = XAIE_OK \<longrightarrow>
              e = NoProgrammedPath) \<and>
           bd_shrinks (snd (XAie_findAvailableBufferID ri src)) ri1"
proof -
  obtain rc sbd dbd hw1 ri1 where
    p: "XAie_programBufferDescriptors be ri src a n b dst hw = (rc, sbd, dbd, hw1, ri1)"
    by (cases "XAie_programBufferDescriptors be ri src a n b dst hw") auto
  let ?r0 = "snd (XAie_findAvailableBufferID ri src)"
  have sh: "bd_shrinks ?r0 ri1"
    using programBufferDescriptors_state [OF p] find_bd_shrinks [of ?r0 dst] by auto
  have "bd_shrinks ri ri1"
    using sh find_bd_shrinks [of ri src] by (blast intro: bd_shrinks_trans)
  then have "rel_option (\<lambda>c c'. sub64 (BDState c') (BDState c) \<and> routesDB c' = routesDB c \<and>
        tile_type c' = tile_type c) (tile_at ri src) (tile_at ri1 src)"
    by (simp add: bd_shrinks_def)
  with tile obtain c1 where c1: "tile_at ri1 src = Some c1" "routesDB c1 = routesDB c"
    by (cases "tile_at ri1 src") auto
  show ?thesis
    using p c1 none sh by (auto simp: XAie_MoveData_def)
qed

lemma mark_endpoint_same_routes: "same_routes ri (mark_endpoint t ri)"
  by (auto simp: same_routes_def tile_at_mark_endpoint option.map_comp comp_def)

lemma same_routes_find:
  assumes "same_routes ri ri1" and "tile_at ri s = Some c"
  shows "\<exists>c1. tile_at ri1 s = Some c1 \<and> routesDB c1 = routesDB c"
proof -
  from assms have "map_option routesDB (tile_at ri1 s) = Some (routesDB c)"
    by (simp add: same_routes_def)
  then show ?thesis by (cases "tile_at ri1 s") auto
qed

lemma self_route_result:
  assumes "tile_at ri s = Some c" and "XAie_findRouteInRouteDB (routesDB c) s s = None"
  shows "XAie_Route be ri rc s s hw = Some (Inr (hw, mark_endpoint s (mark_endpoint s ri)))"
  using assms
  by (simp add: XAie_Route_def XAie_findShortestPath_def same_tile_def
        XAie_performRoutingOnPath_def)

text \<open>What a round of the programming loop reserves, and that it stays reserved.\<close>

lemma test_bit8_bit: "0 \<le> n \<Longrightarrow> n < 8 \<Longrightarrow> test_bit8 w n \<longleftrightarrow> bit w (nat n)"
proof -
  assume n: "0 \<le> n" "n < 8"
  let ?m = "ucast (push_bit (nat n) (1 :: u32)) :: u8"
  have b: "bit (w AND ?m) k \<longleftrightarrow> bit w k \<and> k = nat n" for k
    using n by (auto simp: bit_simps dest: bit_imp_le_length)
  have "w AND ?m \<noteq> 0 \<longleftrightarrow> (\<exists>k. bit (w AND ?m) k)"
    by (metis bit_eq_iff bit_0_eq bot_apply bot_bool_def)
  also have "\<dots> \<longleftrightarrow> bit w (nat n)" unfolding b by simp
  finally show ?thesis using n unfolding test_bit8_def int_shl1_def by simp
qed

lemma unset_bit8_bit:
  "0 \<le> n \<Longrightarrow> n < 8 \<Longrightarrow> bit (unset_bit8 w n) k \<longleftrightarrow> bit w k \<and> k \<noteq> nat n"
proof -
  assume n: "0 \<le> n" "n < 8"
  have "bit (w AND ucast (NOT (push_bit (nat n) (1 :: u32)))) k \<longleftrightarrow> bit w k \<and> k \<noteq> nat n"
    using n by (auto simp: bit_simps dest: bit_imp_le_length)
  then show ?thesis using n by (simp add: unset_bit8_def int_shl1_def)
qed

lemma first_common_from_range:
  "first_common_from a b i k = r \<Longrightarrow> r \<noteq> - 1 \<Longrightarrow>
     int i \<le> r \<and> r < int (i + k) \<and> test_bit8 a r \<and> test_bit8 b r"
  by (induction a b i k rule: first_common_from.induct) (auto split: if_splits)


lemma flow_dirSource_cases:
  "flow_dirSource s d = NORTH \<or> flow_dirSource s d = SOUTH \<or>
   flow_dirSource s d = EAST \<or> flow_dirSource s d = WEST"
  by (simp add: flow_dirSource_def)

lemma master_bitmap_unset_master:
  assumes "0 \<le> p" "p < 8" and "d = NORTH \<or> d = SOUTH \<or> d = EAST \<or> d = WEST"
  shows "\<not> test_bit8 (master_bitmap (unset_master d p c) d) p"
  using assms(3) test_bit8_bit [OF assms(1,2)] unset_bit8_bit [OF assms(1,2)]
  by (auto simp: master_bitmap_def unset_master_def)

lemma master_bitmap_unset_slave:
  "master_bitmap (unset_slave d' s c) d = master_bitmap c d"
  by (cases d'; cases d) (simp_all add: master_bitmap_def unset_slave_def)

lemma master_bitmap_auto:
  "master_bitmap (c\<lparr>isAutoConfigured := b\<rparr>) d = master_bitmap c d"
  by (cases d) (simp_all add: master_bitmap_def)

lemma sub8_test_bit: "sub8 b a \<Longrightarrow> test_bit8 b p \<Longrightarrow> test_bit8 a p"
proof -
  assume s: "sub8 b a" and t: "test_bit8 b p"
  let ?m = "ucast (int_shl1 p) :: u8"
  from s have e: "b AND a = b" by (simp add: sub8_def)
  have "b AND ?m = (b AND a) AND ?m" unfolding e ..
  also have "\<dots> = b AND (a AND ?m)" by (rule and.assoc)
  finally have "b AND ?m = b AND (a AND ?m)" .
  with t show ?thesis unfolding test_bit8_def by auto
qed

lemma master_free_shrinks:
  assumes "instance_shrinks r r'" and "master_port_free r' t d p"
  shows "master_port_free r t d p"
proof -
  from assms(1) have rel: "rel_option tile_shrinks (tile_at r t) (tile_at r' t)"
    by (simp add: instance_shrinks_def)
  from assms(2) obtain c' where c': "tile_at r' t = Some c'" "test_bit8 (master_bitmap c' d) p"
    by (auto simp: master_port_free_def split: option.splits)
  with rel obtain c where c: "tile_at r t = Some c" "tile_shrinks c c'"
    by (cases "tile_at r t") auto
  have "sub8 (master_bitmap c' d) (master_bitmap c d)"
    using c(2) by (cases d) (simp_all add: master_bitmap_def tile_shrinks_def sub8_def)
  from sub8_test_bit [OF this c'(2)] c(1) show ?thesis
    by (simp add: master_port_free_def)
qed

lemma find_destination_stream:
  assumes "findFirstMatchingStreamForDestination ri s d dir = p" and "p \<noteq> - 1"
    and "dir = NORTH \<or> dir = SOUTH \<or> dir = EAST \<or> dir = WEST"
  shows "0 \<le> p \<and> p < 8 \<and> master_port_free ri s dir p"
  using assms first_common_from_range [of _ _ 0 8 p]
  by (auto simp: findFirstMatchingStreamForDestination_def master_port_free_def master_bitmap_def
      split: option.splits)

lemma route_hop_reserves:
  assumes hop: "route_hop be first s d cur ld ls hw ri = Inr (cur1, ld1, ls1, hw1, ri1)"
  shows "master_port_free ri s (flow_dirSource s d) ls1 \<and>
         \<not> master_port_free ri1 s (flow_dirSource s d) ls1"
proof -
  let ?dir = "flow_dirSource s d"
  let ?p = "findFirstMatchingStreamForDestination ri s d ?dir"
  let ?asrc = "if XAie_isShimTile ri s then ld else (if first then DMA else ld)"
  let ?ss = "if XAie_isShimTile ri s
             then (if first then XAie_findFirstMatchingStream ri s ?asrc False else ls)
             else XAie_findFirstMatchingStream ri s ?asrc False"
  let ?ri2 = "XAie_updatePortAvailabilityForStrmConn
                (upd_tile s (\<lambda>c. c\<lparr>isAutoConfigured := True\<rparr>) ri) s ?asrc ?ss ?dir ?p"
  from hop have p: "?p \<noteq> - 1" and ls1: "ls1 = ?p"
    and ri1: "ri1 = ?ri2 \<or> ri1 = snd (XAie_updatePortAvailabilityForShimDmaToAie ?ri2 s ?ss False)"
    unfolding route_hop_def Let_def by (auto split: if_splits prod.splits)
  note f = find_destination_stream [OF refl p flow_dirSource_cases]
  then obtain c where c: "tile_at ri s = Some c"
    by (auto simp: master_port_free_def split: option.splits)
  have "tile_at ?ri2 s = Some (unset_master ?dir ?p (unset_slave ?asrc ?ss (c\<lparr>isAutoConfigured := True\<rparr>)))"
    using c by (simp add: XAie_updatePortAvailabilityForStrmConn_def tile_at_upd_tile)
  then have n2: "\<not> master_port_free ?ri2 s ?dir ?p"
    using master_bitmap_unset_master [OF _ _ flow_dirSource_cases, of ?p s d] f
    by (simp add: master_port_free_def master_bitmap_unset_slave master_bitmap_auto)
  have "\<not> master_port_free ri1 s ?dir ?p"
  proof (cases "ri1 = ?ri2")
    case True
    with n2 show ?thesis by simp
  next
    case False
    with ri1 have "ri1 = snd (XAie_updatePortAvailabilityForShimDmaToAie ?ri2 s ?ss False)" by simp
    then have "instance_shrinks ?ri2 ri1" by (simp add: shim_to_aie_shrinks)
    with n2 show ?thesis by (blast dest: master_free_shrinks)
  qed
  with f ls1 show ?thesis by simp
qed

lemma programmed_hops_reserved:
  "performRoutingLoop be src first path cur ld ls hw ri = Inl (e, hw1, ri1) \<Longrightarrow>
     \<forall>(t, d, p, r) \<in> set (programmed_hops be first path cur ld ls hw ri).
        master_port_free ri t d p \<and> \<not> master_port_free r t d p \<and>
        instance_shrinks r ri1 \<and> \<not> master_port_free ri1 t d p"
proof (induction be src first path cur ld ls hw ri rule: performRoutingLoop.induct)
  case (1 be src first cur lastDir lastStream hw ri)
  then show ?case by simp
next
  case (2 be src first LastTile cur lastDir lastStream hw ri)
  then show ?case by simp
next
  case (3 be src first SourceTile DestinationTile rest cur lastDir lastStream hw ri)
  show ?case
  proof (cases "route_hop be first SourceTile DestinationTile cur lastDir lastStream hw ri")
    case (Inl a)
    then show ?thesis by simp
  next
    case (Inr b)
    obtain cur' ld' ls' hw' ri' where b: "b = (cur', ld', ls', hw', ri')"
      by (cases b) auto
    note hop = Inr [unfolded b]
    from "3.prems" hop have
      rest: "performRoutingLoop be src False (DestinationTile # rest) cur' ld' ls' hw' ri' =
            Inl (e, hw1, ri1)"
      by simp
    note ih = "3.IH" [OF hop refl refl refl refl rest]
    note res = route_hop_reserves [OF hop]
    from performRoutingLoop_fails [OF rest] have sh: "instance_shrinks ri' ri1" by simp
    from route_hop_shrinks(1) [OF hop] have sh0: "instance_shrinks ri ri'" by simp
    have head: "master_port_free ri SourceTile (flow_dirSource SourceTile DestinationTile) ls' \<and>
        \<not> master_port_free ri' SourceTile (flow_dirSource SourceTile DestinationTile) ls' \<and>
        instance_shrinks ri' ri1 \<and>
        \<not> master_port_free ri1 SourceTile (flow_dirSource SourceTile DestinationTile) ls'"
      using res sh by (blast dest: master_free_shrinks)
    have tail: "\<forall>(t, d, p, r) \<in> set (programmed_hops be False (DestinationTile # rest) cur' ld' ls' hw' ri').
        master_port_free ri t d p \<and> \<not> master_port_free r t d p \<and>
        instance_shrinks r ri1 \<and> \<not> master_port_free ri1 t d p"
      using ih sh0 by (fastforce dest: master_free_shrinks)
    from head tail hop show ?thesis by simp
  qed
qed

section \<open>Route followed by de-route\<close>

text \<open>
  C1. A route followed by its de-route should restore every per-tile bitmap and the shim
  port-availability flags. On the 5 x 4 device the route from the compute tile (0,2) to the
  shim tile (0,0) and its de-route both succeed, yet the shim tile's \<^verbatim>\<open>MasterSouth\<close> bitmap
  is 4 afterwards where it was 0, and the flag of host port 2 stays unavailable.
\<close>

theorem deroute_leaves_shim_destination_changed:
  "succeeded (XAie_Route ok_backend ri_5x4 None (XAie_TileLoc 0 2) (XAie_TileLoc 0 0) ()) \<and>
   succeeded (Some (XAie_DeRoute ok_backend (then_route ri_5x4 (XAie_TileLoc 0 2) (XAie_TileLoc 0 0))
                (XAie_TileLoc 0 2) (XAie_TileLoc 0 0) False ())) \<and>
   field_at MasterSouth (Some ri_5x4) (XAie_TileLoc 0 0) = Some 0 \<and>
   field_at MasterSouth
     (Some (then_deroute (then_route ri_5x4 (XAie_TileLoc 0 2) (XAie_TileLoc 0 0))
        (XAie_TileLoc 0 2) (XAie_TileLoc 0 0))) (XAie_TileLoc 0 0) = Some 4 \<and>
   availabilities ri_5x4 defaultAIE2Host_addr = [True, True] \<and>
   availabilities (then_deroute (then_route ri_5x4 (XAie_TileLoc 0 2) (XAie_TileLoc 0 0))
        (XAie_TileLoc 0 2) (XAie_TileLoc 0 0)) defaultAIE2Host_addr = [False, True]"
  by code_simp

section \<open>A route that fails while it is programmed\<close>

text \<open>
  C2, as the code has it. When \<^verbatim>\<open>XAie_Route\<close> fails, nothing is rolled back and nothing is
  released: the catalog of every tile is as before the call, and every tile keeps its kind,
  its buffer descriptors and its flags, while each port and channel bitmap only lost bits
  and each shim port mapping only went from available to unavailable. For every hop the
  call programmed before it failed, the master port the hop bound was free before the call,
  is reserved in the state the hop leaves and is still reserved in the state the failed
  call leaves, which has lost no less than the state after the hop.
\<close>

theorem route_failure_keeps_reservations:
  assumes "XAie_Route be ri rc src dst hw = Some (Inl (e, hw1, ri1))"
  shows "instance_shrinks ri ri1 \<and> same_routes ri ri1 \<and>
         (\<forall>(t, d, p, r) \<in> set (XAie_Route_hops be ri rc src dst hw).
            master_port_free ri t d p \<and> \<not> master_port_free r t d p \<and>
            instance_shrinks r ri1 \<and> \<not> master_port_free ri1 t d p)"
proof -
  have a: "instance_shrinks ri ri1 \<and> same_routes ri ri1"
    using assms
    by (auto simp: XAie_Route_def XAie_performRoutingOnPath_def
        split: option.splits if_splits sum.splits dest: performRoutingLoop_fails)
  have b: "\<forall>(t, d, p, r) \<in> set (XAie_Route_hops be ri rc src dst hw).
            master_port_free ri t d p \<and> \<not> master_port_free r t d p \<and>
            instance_shrinks r ri1 \<and> \<not> master_port_free ri1 t d p"
  proof (cases "XAie_Route_hops be ri rc src dst hw = []")
    case True
    then show ?thesis by simp
  next
    case False
    then obtain sc path where sc: "tile_at ri src = Some sc"
      "XAie_findRouteInRouteDB (routesDB sc) src dst = None"
      "XAie_findShortestPath ri rc src dst = Some (Some path)"
      and hops: "XAie_Route_hops be ri rc src dst hw =
          programmed_hops be True path
            \<lparr>source = src, destination = dst, MM2S_portNo = - 1, S2MM_portNo = - 1, nextStep = []\<rparr>
            SOUTH (- 1) hw ri"
      by (auto simp: XAie_Route_hops_def split: option.splits if_splits)
    with assms have "performRoutingLoop be src True path
            \<lparr>source = src, destination = dst, MM2S_portNo = - 1, S2MM_portNo = - 1, nextStep = []\<rparr>
            SOUTH (- 1) hw ri = Inl (e, hw1, ri1)"
      by (auto simp: XAie_Route_def XAie_performRoutingOnPath_def split: sum.splits)
    from programmed_hops_reserved [OF this] show ?thesis unfolding hops .
  qed
  from a b show ?thesis by simp
qed

theorem route_failure_keeps_reservations_witness:
  "\<exists>hw1 ri1.
     XAie_Route ok_backend ri_two_into_03 None (XAie_TileLoc 0 4) (XAie_TileLoc 0 3) () =
       Some (Inl (NoPortOnLastTile, hw1, ri1)) \<and>
     instance_shrinks ri_two_into_03 ri1 \<and> same_routes ri_two_into_03 ri1 \<and>
     map (\<lambda>(t, d, p, r). (t, d, p))
       (XAie_Route_hops ok_backend ri_two_into_03 None (XAie_TileLoc 0 4) (XAie_TileLoc 0 3) ()) =
       [(XAie_TileLoc 0 4, SOUTH, 0)] \<and>
     master_port_free ri_two_into_03 (XAie_TileLoc 0 4) SOUTH 0 \<and>
     \<not> master_port_free ri1 (XAie_TileLoc 0 4) SOUTH 0"
proof -
  have "error_of (XAie_Route ok_backend ri_two_into_03 None (XAie_TileLoc 0 4)
          (XAie_TileLoc 0 3) ()) = Some NoPortOnLastTile"
    by code_simp
  then obtain hw1 ri1 where
    r: "XAie_Route ok_backend ri_two_into_03 None (XAie_TileLoc 0 4) (XAie_TileLoc 0 3) () =
          Some (Inl (NoPortOnLastTile, hw1, ri1))"
    by (auto simp: error_of_def split: option.splits sum.splits)
  have h: "map (\<lambda>(t, d, p, r). (t, d, p))
       (XAie_Route_hops ok_backend ri_two_into_03 None (XAie_TileLoc 0 4) (XAie_TileLoc 0 3) ()) =
       [(XAie_TileLoc 0 4, SOUTH, 0)]"
    by code_simp
  then obtain r0 where
    "XAie_Route_hops ok_backend ri_two_into_03 None (XAie_TileLoc 0 4) (XAie_TileLoc 0 3) () =
       [(XAie_TileLoc 0 4, SOUTH, 0, r0)]"
    by (auto simp: map_eq_Cons_conv)
  with route_failure_keeps_reservations [OF r]
  have f: "instance_shrinks ri_two_into_03 ri1" "same_routes ri_two_into_03 ri1"
    "master_port_free ri_two_into_03 (XAie_TileLoc 0 4) SOUTH 0"
    "\<not> master_port_free ri1 (XAie_TileLoc 0 4) SOUTH 0"
    by simp_all
  show ?thesis
    by (rule exI [of _ hw1], rule exI [of _ ri1]) (intro conjI r h f)
qed

text \<open>
  The claim as stated fails: after two routes into the compute tile (0,3) have taken its two
  S2MM channels, the route from (0,4) to (0,3) programs the hop on (0,4) and then finds no
  port on the last tile. The call returns an error, and bit 0 of \<^verbatim>\<open>MasterSouth\<close> of (0,4)
  stays reserved.
\<close>

theorem route_failure_leaves_reservation:
  "error_of (XAie_Route ok_backend ri_two_into_03 None (XAie_TileLoc 0 4) (XAie_TileLoc 0 3) ()) =
     Some NoPortOnLastTile \<and>
   field_at MasterSouth (Some ri_two_into_03) (XAie_TileLoc 0 4) = Some 0xF \<and>
   field_at MasterSouth
     (state_after (XAie_Route ok_backend ri_two_into_03 None (XAie_TileLoc 0 4) (XAie_TileLoc 0 3) ()))
     (XAie_TileLoc 0 4) = Some 0xE"
  by code_simp

section \<open>Threading a port across a junction\<close>

text \<open>
  C3. The slave port of every step between the first and the last should be the master
  port of the step before it. In the state the failed route above leaves behind, the route
  from (0,4) to (0,2) succeeds with three steps, and the step on (0,3) takes slave port 0
  where the step on (0,4) bound master port 1.
\<close>

theorem drifted_route_not_threaded:
  "succeeded (XAie_Route ok_backend ri_drift None (XAie_TileLoc 0 4) (XAie_TileLoc 0 2) ()) \<and>
   map step_ports (route_steps (then_route ri_drift (XAie_TileLoc 0 4) (XAie_TileLoc 0 2))
             (XAie_TileLoc 0 4) (XAie_TileLoc 0 2)) = [(1, 1), (0, 0), (0, 0)] \<and>
   \<not> junctions_threaded (route_steps (then_route ri_drift (XAie_TileLoc 0 4) (XAie_TileLoc 0 2))
             (XAie_TileLoc 0 4) (XAie_TileLoc 0 2))"
  by code_simp

section \<open>The edge test of the path finder\<close>

text \<open>
  C5. An edge should be traversable only if some port index is free both in the master
  bitmap of the current tile towards the neighbour and in the slave bitmap of the neighbour
  on the opposite side. After four routes have gone south from (0,3) to (0,2), no such
  index is left, and \<^verbatim>\<open>_XAie_isAdjTileValidForCurrTile\<close> still accepts the edge: it reads
  the slave bitmap of the current tile and the master bitmap of the neighbour.
\<close>

theorem exhausted_edge_still_traversable:
  "XAie_isAdjTileValidForCurrTile ri_4south None (XAie_TileLoc 0 3) (XAie_TileLoc 0 2) SOUTH
     nothing_visited \<and>
   \<not> spec_edge_traversable ri_4south None (XAie_TileLoc 0 3) (XAie_TileLoc 0 2) SOUTH
     nothing_visited \<and>
   findFirstMatchingStreamForDestination ri_4south (XAie_TileLoc 0 3) (XAie_TileLoc 0 2) SOUTH = - 1"
  by code_simp

section \<open>Moving data\<close>

text \<open>
  C6, as the code has it. \<^verbatim>\<open>XAie_MoveData\<close> for a pair with no programmed route fails:
  with the no-programmed-route error when the descriptors could be programmed, and with the
  descriptor-programming error otherwise. The buffer descriptors it acquired are not
  returned: no tile gains a free descriptor, and the lowest free descriptor of the source
  tile (for ids below 31) is free before the call and reserved after it.
\<close>

theorem move_data_without_route_leaks:
  assumes tile: "tile_at ri src = Some c"
    and none: "XAie_findRouteInRouteDB (routesDB c) src dst = None"
  shows "\<exists>e hw1 ri1. XAie_MoveData be ri src a n b dst hw = Some (Inl (e, hw1, ri1)) \<and>
           (e = NoProgrammedPath \<or> e = BDProgrammingFailed) \<and>
           (fst (XAie_programBufferDescriptors be ri src a n b dst hw) = XAIE_OK \<longrightarrow>
              e = NoProgrammedPath) \<and>
           bd_shrinks ri ri1 \<and>
           (\<forall>k. first_free_bd_from (BDState c) 0 48 = k \<and> 0 \<le> k \<and> k < 31 \<longrightarrow>
                bd_free ri src k \<and> \<not> bd_free ri1 src k)"
proof -
  from move_data_no_route [OF tile none, of be a n b hw] obtain e hw1 ri1 where
    m: "XAie_MoveData be ri src a n b dst hw = Some (Inl (e, hw1, ri1))"
    and e: "e = NoProgrammedPath \<or> e = BDProgrammingFailed"
      "fst (XAie_programBufferDescriptors be ri src a n b dst hw) = XAIE_OK \<longrightarrow> e = NoProgrammedPath"
    and sh: "bd_shrinks (snd (XAie_findAvailableBufferID ri src)) ri1"
    by blast
  have all: "bd_shrinks ri ri1"
    using sh find_bd_shrinks [of ri src] by (blast intro: bd_shrinks_trans)
  have leak: "bd_free ri src k \<and> \<not> bd_free ri1 src k"
    if "first_free_bd_from (BDState c) 0 48 = k" "0 \<le> k" "k < 31" for k
    using find_bd_takes [OF tile that] bd_free_shrinks [OF sh] by blast
  show ?thesis
    using m e all leak by blast
qed

theorem move_data_without_route_leaks_witness:
  "\<exists>e hw1 ri1.
     XAie_MoveData ok_backend ri_5x4 (XAie_TileLoc 2 3) 0x2000 128 0x2000 (XAie_TileLoc 4 3) () =
       Some (Inl (e, hw1, ri1)) \<and>
     e = NoProgrammedPath \<and> bd_shrinks ri_5x4 ri1 \<and>
     bd_free ri_5x4 (XAie_TileLoc 2 3) 0 \<and> \<not> bd_free ri1 (XAie_TileLoc 2 3) 0"
proof -
  have "field_at routesDB (Some ri_5x4) (XAie_TileLoc 2 3) = Some []"
    and "field_at BDState (Some ri_5x4) (XAie_TileLoc 2 3) = Some 0xFFFF"
    by code_simp+
  then obtain c where c: "tile_at ri_5x4 (XAie_TileLoc 2 3) = Some c"
    and db: "routesDB c = []" and bd: "BDState c = 0xFFFF"
    by (auto simp: field_at_def)
  have none: "XAie_findRouteInRouteDB (routesDB c) (XAie_TileLoc 2 3) (XAie_TileLoc 4 3) = None"
    by (simp add: db XAie_findRouteInRouteDB_def)
  have ok: "fst (XAie_programBufferDescriptors ok_backend ri_5x4 (XAie_TileLoc 2 3) 0x2000 128
              0x2000 (XAie_TileLoc 4 3) ()) = XAIE_OK"
    by code_simp
  have k: "first_free_bd_from (BDState c) 0 48 = 0 \<and> (0::int) \<le> 0 \<and> (0::int) < 31"
    unfolding bd by code_simp
  from move_data_without_route_leaks [OF c none, of ok_backend "0x2000" 128 "0x2000" "()"] ok k
  show ?thesis by blast
qed

text \<open>
  The claim as stated fails on the 5 x 4 device in its initial state: the call for (2,3) and
  (4,3) returns the no-programmed-route error, and descriptor 0 of (2,3) stays reserved.
\<close>

theorem move_data_failure_leaves_bd:
  "error_of (XAie_MoveData ok_backend ri_5x4 (XAie_TileLoc 2 3) 0x2000 128 0x2000 (XAie_TileLoc 4 3) ()) =
     Some NoProgrammedPath \<and>
   field_at BDState (Some ri_5x4) (XAie_TileLoc 2 3) = Some 0xFFFF \<and>
   field_at BDState
     (state_after (XAie_MoveData ok_backend ri_5x4 (XAie_TileLoc 2 3) 0x2000 128 0x2000 (XAie_TileLoc 4 3) ()))
     (XAie_TileLoc 2 3) = Some 0xFFFE"
  by code_simp

text \<open>
  C7. A successful \<^verbatim>\<open>XAie_MoveData\<close> should return both descriptors. On a memory tile whose
  descriptors 0 to 15 are in use the allocator hands out descriptor 16, the transfer
  succeeds, and \<^verbatim>\<open>_XAie_resetBDAvailability\<close> leaves bit 16 of \<^verbatim>\<open>BDState\<close> cleared.
\<close>

theorem mem_tile_bd_16_not_returned:
  "succeeded (XAie_MoveData ok_backend ri_mem_bds_in_use (XAie_TileLoc 0 1) 0x2000 128 0x2000
                (XAie_TileLoc 0 2) ()) \<and>
   field_at BDState (Some ri_mem_bds_in_use) (XAie_TileLoc 0 1) = Some 0xFFFFFFFF0000 \<and>
   field_at BDState (Some (then_move ri_mem_bds_in_use (XAie_TileLoc 0 1) (XAie_TileLoc 0 2)))
     (XAie_TileLoc 0 1) = Some 0xFFFFFFFE0000"
  by code_simp

section \<open>Endpoints marked for execution\<close>

text \<open>
  C9. After a successful \<^verbatim>\<open>XAie_Route\<close>, each endpoint that is neither a shim tile nor a
  memory tile has \<^verbatim>\<open>isCoreExecuting\<close> set, whatever it was before, so a later \<^verbatim>\<open>XAie_Run\<close>
  with a count that is not zero calls \<^verbatim>\<open>XAie_CoreEnable\<close> on it. The endpoint is a tile of
  the grid.
\<close>

theorem route_marks_core_endpoints:
  assumes route: "XAie_Route be ri rc src dst hw = Some (Inr (hw1, ri1))"
    and e: "e = src \<or> e = dst"
    and tile: "tile_at ri e \<noteq> None"
    and kind: "\<not> XAie_isShimTile ri e" "\<not> XAie_isMemTile ri e"
    and grid: "Col e < NumCols ri" "Row e < NumRows ri"
    and count: "count \<noteq> 0"
  shows "(\<exists>c1. tile_at ri1 e = Some c1 \<and> isCoreExecuting c1) \<and>
         e \<in> set (XAie_Run_calls ri1 count) \<and>
         XAie_Run be1 ri1 count hw1 =
           (XAIE_OK, fold (\<lambda>t h. snd (XAie_CoreEnable be1 h t)) (XAie_Run_calls ri1 count) hw1)"
proof -
  from route_success_state [OF route] obtain ri0 where
    "instance_shrinks ri ri0 \<and> ri1 = mark_endpoint dst (mark_endpoint src ri0)" ..
  then have sh: "instance_shrinks ri ri0"
    and ri1: "ri1 = mark_endpoint dst (mark_endpoint src ri0)"
    by simp_all
  from tile obtain c where c: "tile_at ri e = Some c" by auto
  from shrinks_tile [OF sh c] obtain c0 where c0: "tile_at ri0 e = Some c0" by blast
  have k0: "\<not> XAie_isShimTile ri0 e" "\<not> XAie_isMemTile ri0 e"
    using kind shrinks_kind [OF sh] by simp_all
  have ex: "\<exists>c1. tile_at ri1 e = Some c1 \<and> isCoreExecuting c1"
    using e c0 k0 by (auto simp: ri1 tile_at_mark_endpoint)
  have g1: "NumRows ri1 = NumRows ri" "NumCols ri1 = NumCols ri"
    using sh by (simp_all add: ri1 instance_shrinks_def)
  have "e \<in> set (executing_tiles ri1)"
    using ex in_grid_listed [of e ri1] grid g1
    unfolding executing_tiles_def by auto
  moreover have "unat count \<noteq> 0" using count by (simp add: unat_eq_0)
  ultimately have "e \<in> set (XAie_Run_calls ri1 count)"
    by (cases "unat count") (auto simp: XAie_Run_calls_def)
  with ex show ?thesis by (simp add: XAie_Run_def)
qed

theorem route_marks_core_endpoints_witness:
  "\<exists>hw1 ri1.
     XAie_Route ok_backend ri_5x4 None (XAie_TileLoc 2 3) (XAie_TileLoc 4 3) () =
       Some (Inr (hw1, ri1)) \<and>
     field_at isCoreExecuting (Some ri_5x4) (XAie_TileLoc 4 3) = Some False \<and>
     (\<exists>c1. tile_at ri1 (XAie_TileLoc 4 3) = Some c1 \<and> isCoreExecuting c1) \<and>
     XAie_TileLoc 4 3 \<in> set (XAie_Run_calls ri1 1)"
proof -
  have "succeeded (XAie_Route ok_backend ri_5x4 None (XAie_TileLoc 2 3) (XAie_TileLoc 4 3) ())"
    by code_simp
  then obtain hw1 ri1 where
    r: "XAie_Route ok_backend ri_5x4 None (XAie_TileLoc 2 3) (XAie_TileLoc 4 3) () =
          Some (Inr (hw1, ri1))"
    by (auto simp: succeeded_def split: option.splits sum.splits)
  have e: "XAie_TileLoc 4 3 = XAie_TileLoc 2 3 \<or> XAie_TileLoc 4 3 = XAie_TileLoc 4 3"
    by simp
  have t: "tile_at ri_5x4 (XAie_TileLoc 4 3) \<noteq> None"
    and k: "\<not> XAie_isShimTile ri_5x4 (XAie_TileLoc 4 3)" "\<not> XAie_isMemTile ri_5x4 (XAie_TileLoc 4 3)"
    and g: "Col (XAie_TileLoc 4 3) < NumCols ri_5x4" "Row (XAie_TileLoc 4 3) < NumRows ri_5x4"
    and f: "field_at isCoreExecuting (Some ri_5x4) (XAie_TileLoc 4 3) = Some False"
    by code_simp+
  have n: "(1::u32) \<noteq> 0" by simp
  from route_marks_core_endpoints [OF r e t k g n, of ok_backend] r f
  show ?thesis by blast
qed

section \<open>A route from a tile to itself\<close>

text \<open>
  C10. When source and destination are the same tile, and the catalog has no route for the
  pair, \<^verbatim>\<open>XAie_Route\<close> succeeds and leaves every catalog as it was; a second \<^verbatim>\<open>XAie_Route\<close>
  for the pair succeeds as well; and \<^verbatim>\<open>XAie_MoveData\<close> for the pair then fails, with the
  no-programmed-route error whenever the descriptors could be programmed (both failures
  return \<^verbatim>\<open>XAIE_ERR\<close>).
\<close>

theorem self_route_is_not_catalogued:
  assumes tile: "tile_at ri s = Some c"
    and none: "XAie_findRouteInRouteDB (routesDB c) s s = None"
  shows "\<exists>ri1 ri2 e hw3 ri3.
           XAie_Route be ri rc s s hw = Some (Inr (hw, ri1)) \<and> same_routes ri ri1 \<and>
           XAie_Route be ri1 rc s s hw1 = Some (Inr (hw1, ri2)) \<and> same_routes ri ri2 \<and>
           XAie_MoveData be ri2 s a n b s hw2 = Some (Inl (e, hw3, ri3)) \<and>
           (e = NoProgrammedPath \<or> e = BDProgrammingFailed) \<and>
           (fst (XAie_programBufferDescriptors be ri2 s a n b s hw2) = XAIE_OK \<longrightarrow>
              e = NoProgrammedPath)"
proof -
  let ?r1 = "mark_endpoint s (mark_endpoint s ri)"
  let ?r2 = "mark_endpoint s (mark_endpoint s ?r1)"
  have s1: "same_routes ri ?r1"
    by (blast intro: same_routes_trans mark_endpoint_same_routes)
  have s2: "same_routes ri ?r2"
    by (blast intro: same_routes_trans mark_endpoint_same_routes s1)
  from same_routes_find [OF s1 tile] obtain c1 where
    c1: "tile_at ?r1 s = Some c1" "routesDB c1 = routesDB c" by blast
  from same_routes_find [OF s2 tile] obtain c2 where
    c2: "tile_at ?r2 s = Some c2" "routesDB c2 = routesDB c" by blast
  have r1: "XAie_Route be ri rc s s hw = Some (Inr (hw, ?r1))"
    by (rule self_route_result [OF tile none])
  have n1: "XAie_findRouteInRouteDB (routesDB c1) s s = None"
    using c1 none by simp
  have r2: "XAie_Route be ?r1 rc s s hw1 = Some (Inr (hw1, ?r2))"
    by (rule self_route_result [OF c1(1) n1])
  have n2: "XAie_findRouteInRouteDB (routesDB c2) s s = None"
    using c2 none by simp
  from move_data_no_route [OF c2(1) n2, of be a n b hw2] obtain e hw3 ri3 where
    "XAie_MoveData be ?r2 s a n b s hw2 = Some (Inl (e, hw3, ri3))"
    "e = NoProgrammedPath \<or> e = BDProgrammingFailed"
    "fst (XAie_programBufferDescriptors be ?r2 s a n b s hw2) = XAIE_OK \<longrightarrow> e = NoProgrammedPath"
    by blast
  with r1 r2 s1 s2 show ?thesis by blast
qed

theorem self_route_is_not_catalogued_witness:
  "\<exists>ri1 ri2 e hw3 ri3.
     XAie_Route ok_backend ri_5x4 None (XAie_TileLoc 2 3) (XAie_TileLoc 2 3) () =
       Some (Inr ((), ri1)) \<and> same_routes ri_5x4 ri1 \<and>
     XAie_Route ok_backend ri1 None (XAie_TileLoc 2 3) (XAie_TileLoc 2 3) () =
       Some (Inr ((), ri2)) \<and> same_routes ri_5x4 ri2 \<and>
     XAie_MoveData ok_backend ri2 (XAie_TileLoc 2 3) 0x2000 128 0x2000 (XAie_TileLoc 2 3) () =
       Some (Inl (e, hw3, ri3)) \<and>
     (e = NoProgrammedPath \<or> e = BDProgrammingFailed)"
proof -
  have "field_at routesDB (Some ri_5x4) (XAie_TileLoc 2 3) = Some []"
    by code_simp
  then obtain c where c: "tile_at ri_5x4 (XAie_TileLoc 2 3) = Some c" and db: "routesDB c = []"
    by (auto simp: field_at_def)
  have none: "XAie_findRouteInRouteDB (routesDB c) (XAie_TileLoc 2 3) (XAie_TileLoc 2 3) = None"
    by (simp add: db XAie_findRouteInRouteDB_def)
  from self_route_is_not_catalogued [OF c none, of ok_backend None "()" "()" "0x2000" 128 "0x2000" "()"]
  show ?thesis by blast
qed

section \<open>The result of the path finder\<close>

lemma same_tile_eq: "same_tile a b \<longleftrightarrow> a = b"
  by (cases a; cases b) (auto simp: same_tile_def)

lemma valid_split:
  "XAie_isAdjTileValidForCurrTile ri rc c a p vis \<longleftrightarrow>
     XAie_isAdjTileValidForCurrTile ri rc c a p nothing_visited \<and> \<not> vis a"
  by (auto simp: XAie_isAdjTileValidForCurrTile_def nothing_visited_def Let_def)

lemma valid_in_grid:
  "XAie_isAdjTileValidForCurrTile ri rc c a p vis \<Longrightarrow>
     Col a < NumCols ri \<and> Row a < NumRows ri \<and> \<not> XAie_isTileBlackListed a rc"
  by (auto simp: XAie_isAdjTileValidForCurrTile_def Let_def split: if_splits)

lemma finder_edge_grid:
  "finder_edge ri rc c a \<Longrightarrow> Col a < NumCols ri \<and> Row a < NumRows ri \<and> \<not> XAie_isTileBlackListed a rc"
  by (auto simp: finder_edge_def list_ex_iff dest: valid_in_grid)

lemma finder_edgeI:
  assumes "(dRow, dCol, p) \<in> set bfs_directions"
    and "XAie_isAdjTileValidForCurrTile ri rc c (XAie_TileLoc (Col c + dCol) (Row c + dRow)) p vis"
  shows "finder_edge ri rc c (XAie_TileLoc (Col c + dCol) (Row c + dRow))"
  using assms valid_split [of ri rc c _ p vis]
  unfolding finder_edge_def list_ex_iff by blast

lemma bfs_neighbours_inv:
  assumes "bfs_neighbours ri rc src dst cap current ds st = Some st'"
    and "set ds \<subseteq> set bfs_directions"
    and "bfs_inv ri rc src st"
    and "current = src \<or> visited st current"
  shows "bfs_inv ri rc src st' \<and>
         (found st' \<longrightarrow> found st \<or>
            whitelist_walk rc (Pred st') src dst = Some True \<and> visited st' dst)"
  using assms
proof (induction ds arbitrary: st)
  case Nil
  then show ?case by simp
next
  case (Cons d ds)
  obtain dRow dCol p where d: "d = (dRow, dCol, p)" by (cases d) auto
  let ?adj = "XAie_TileLoc (Col current + dCol) (Row current + dRow)"
  let ?st1 = "st\<lparr>visited := (visited st)(?adj := True),
                 queue := XAie_enqueue cap (queue st) ?adj,
                 Pred := (Pred st)(?adj := current)\<rparr>"
  have sub: "set ds \<subseteq> set bfs_directions" and din: "(dRow, dCol, p) \<in> set bfs_directions"
    using Cons.prems(2) d by auto
  show ?case
  proof (cases "XAie_isAdjTileValidForCurrTile ri rc current ?adj p (visited st)")
    case False
    with Cons.prems(1) d have "bfs_neighbours ri rc src dst cap current ds st = Some st'"
      by (simp add: Let_def)
    from Cons.IH [OF this sub Cons.prems(3) Cons.prems(4)] show ?thesis .
  next
    case True
    then have nv: "\<not> visited st ?adj" and e: "finder_edge ri rc current ?adj"
      using valid_split [of ri rc current ?adj p "visited st"] finder_edgeI [OF din True]
      by auto
    have inv1: "bfs_inv ri rc src ?st1"
      using Cons.prems(3) Cons.prems(4) nv e
      by (auto simp: bfs_inv_def XAie_enqueue_def)
    have cur1: "current = src \<or> visited ?st1 current"
      using Cons.prems(4) by auto
    show ?thesis
    proof (cases "same_tile ?adj dst")
      case False
      with Cons.prems(1) d True
      have "bfs_neighbours ri rc src dst cap current ds ?st1 = Some st'"
        by (simp add: Let_def)
      from Cons.IH [OF this sub inv1 cur1] show ?thesis by simp
    next
      case same: True
      then have adj: "?adj = dst" by (simp add: same_tile_eq)
      show ?thesis
      proof (cases "whitelist_walk rc (Pred ?st1) src ?adj")
        case None
        with Cons.prems(1) d True same show ?thesis by (simp add: Let_def)
      next
        case (Some w)
        show ?thesis
        proof (cases w)
          case True
          with Cons.prems(1) d \<open>XAie_isAdjTileValidForCurrTile ri rc current ?adj p (visited st)\<close>
            same Some
          have st': "st' = ?st1\<lparr>found := True\<rparr>" by (simp add: Let_def)
          have "bfs_inv ri rc src st'"
            using inv1 unfolding st' by (simp add: bfs_inv_def)
          moreover have "whitelist_walk rc (Pred st') src dst = Some True"
            using Some True adj unfolding st' by simp
          moreover have "visited st' dst"
            using adj unfolding st' by simp
          ultimately show ?thesis by simp
        next
          case False
          with Cons.prems(1) d \<open>XAie_isAdjTileValidForCurrTile ri rc current ?adj p (visited st)\<close>
            same Some
          have "bfs_neighbours ri rc src dst cap current ds ?st1 = Some st'"
            by (simp add: Let_def)
          from Cons.IH [OF this sub inv1 cur1] show ?thesis by simp
        qed
      qed
    qed
  qed
qed

lemma bfs_loop_inv_aux:
  assumes "bfs_loop ri rc src dst cap st = Some st'"
  shows "bfs_inv ri rc src st \<and>
   (found st \<longrightarrow> whitelist_walk rc (Pred st) src dst = Some True \<and> visited st dst) \<longrightarrow>
   bfs_inv ri rc src st' \<and> (found st' \<longrightarrow> whitelist_walk rc (Pred st') src dst = Some True \<and> visited st' dst)"
  using assms
proof (induction ri rc src dst cap st st' rule: bfs_loop.raw_induct [rotated 1, consumes 1])
  case (1 loop ri rc src dst cap st st')
  note body = "1.hyps"
  show ?case
  proof (intro impI, elim conjE)
    assume inv: "bfs_inv ri rc src st"
      and fw: "found st \<longrightarrow> whitelist_walk rc (Pred st) src dst = Some True \<and> visited st dst"
    show "bfs_inv ri rc src st' \<and>
          (found st' \<longrightarrow> whitelist_walk rc (Pred st') src dst = Some True \<and> visited st' dst)"
    proof (cases "queue st")
      case Nil
      with body inv fw show ?thesis by simp
    next
      case (Cons current q)
      show ?thesis
      proof (cases "found st")
        case True
        with body Cons inv fw show ?thesis by simp
      next
        case False
        with body Cons obtain st1 where
          n: "bfs_neighbours ri rc src dst cap current bfs_directions (st\<lparr>queue := q\<rparr>) = Some st1"
          and l: "loop ri rc src dst cap st1 = Some st'"
          by (auto simp: bind_eq_Some_conv)
        have inv0: "bfs_inv ri rc src (st\<lparr>queue := q\<rparr>)"
          using inv Cons by (simp add: bfs_inv_def)
        have cur: "current = src \<or> visited (st\<lparr>queue := q\<rparr>) current"
          using inv Cons by (simp add: bfs_inv_def)
        from bfs_neighbours_inv [OF n subset_refl inv0 cur] False
        have "bfs_inv ri rc src st1"
          and "found st1 \<longrightarrow> whitelist_walk rc (Pred st1) src dst = Some True \<and> visited st1 dst"
          by simp_all
        with "1.IH" [OF l] show ?thesis by blast
      qed
    qed
  qed
qed

lemma bfs_loop_inv:
  assumes "bfs_loop ri rc src dst cap st = Some st'" and "bfs_inv ri rc src st"
    and "\<not> found st"
  shows "bfs_inv ri rc src st'"
    and "found st' \<longrightarrow> whitelist_walk rc (Pred st') src dst = Some True \<and> visited st' dst"
  using bfs_loop_inv_aux [OF assms(1)] assms(2,3) by simp_all

lemma edge_path_snoc:
  "edge_path ri rc (xs @ [a]) \<longleftrightarrow>
     edge_path ri rc xs \<and> (xs \<noteq> [] \<longrightarrow> finder_edge ri rc (last xs) a)"
  by (induction ri rc xs rule: edge_path.induct) auto

lemma whitelist_walk_step:
  assumes "whitelist_walk rc pr src at = Some True" and "at \<noteq> src"
  shows "whitelist_ok rc at \<and> whitelist_walk rc pr src (pr at) = Some True"
  using assms
  by (subst (asm) whitelist_walk.simps)
     (auto simp: same_tile_eq whitelist_ok_def split: if_splits option.splits)

lemma construct_path_chain:
  assumes "construct_path n pr src at acc = Some p"
    and "\<forall>t. vis t \<longrightarrow> finder_edge ri rc (pr t) t \<and> (pr t = src \<or> vis (pr t))"
    and "at = src \<or> vis at"
  shows "\<exists>chain. p = acc @ chain \<and> chain \<noteq> [] \<and> hd chain = at \<and> last chain = src \<and>
           edge_path ri rc (rev chain) \<and>
           (\<forall>t \<in> set (butlast chain). vis t) \<and>
           (whitelist_walk rc pr src at = Some True \<longrightarrow>
              (\<forall>t \<in> set (butlast chain). whitelist_ok rc t))"
  using assms
proof (induction n arbitrary: at acc)
  case 0
  then show ?case by simp
next
  case (Suc n)
  show ?case
  proof (cases "at = src")
    case True
    with Suc.prems(1) have "p = acc @ [src]" by (simp add: same_tile_eq)
    with True show ?thesis by simp
  next
    case False
    with Suc.prems(1) have rec: "construct_path n pr src (pr at) (acc @ [at]) = Some p"
      by (simp add: same_tile_eq)
    from False Suc.prems(3) have v: "vis at" by simp
    with Suc.prems(2) have e: "finder_edge ri rc (pr at) at" and nxt: "pr at = src \<or> vis (pr at)"
      by auto
    from Suc.IH [OF rec Suc.prems(2) nxt] obtain chain where
      c: "p = (acc @ [at]) @ chain" "chain \<noteq> []" "hd chain = pr at" "last chain = src"
         "edge_path ri rc (rev chain)" "\<forall>t \<in> set (butlast chain). vis t"
         "whitelist_walk rc pr src (pr at) = Some True \<longrightarrow>
            (\<forall>t \<in> set (butlast chain). whitelist_ok rc t)"
      by blast
    have last_rev: "last (rev chain) = pr at"
      using c(2,3) by (simp add: last_rev)
    have "edge_path ri rc (rev (at # chain))"
      using c(2,5) e last_rev by (simp add: edge_path_snoc)
    moreover have "\<forall>t \<in> set (butlast (at # chain)). vis t"
      using c(2,6) v by simp
    moreover have "whitelist_walk rc pr src at = Some True \<longrightarrow>
        (\<forall>t \<in> set (butlast (at # chain)). whitelist_ok rc t)"
      using c(2,7) whitelist_walk_step [OF _ False, of rc pr] by auto
    ultimately show ?thesis
      using c(1,2,4) by (intro exI [where x = "at # chain"]) simp
  qed
qed

lemma bfs_inv_init:
  "bfs_inv ri rc src \<lparr>queue = XAie_enqueue cap [] src, visited = (\<lambda>t. False),
                       Pred = (\<lambda>t. XAie_TileLoc 0 0), found = False\<rparr>"
  by (simp add: bfs_inv_def XAie_enqueue_def)

subsection \<open>The levels of the search\<close>

lemma word_bounds: "unat (w :: u8) < 256"
proof -
  have "unat w < 2 ^ LENGTH(8)" by (rule unsigned_less)
  then show ?thesis by simp
qed

lemma bfs_level_invD:
  assumes "bfs_level_inv ri rc src busy L lev st"
  shows "lev src = 0"
    and "\<And>t. visited st t \<Longrightarrow> t \<noteq> src \<Longrightarrow>
           discovered src st (Pred st t) \<and> finder_edge ri rc (Pred st t) t \<and>
           lev t = lev (Pred st t) + 1"
    and "\<And>t q. discovered src st t \<Longrightarrow> src_path ri rc src t q \<Longrightarrow> lev t + 1 \<le> length q"
    and "distinct (queue st)"
    and "\<And>t. t \<in> set (queue st) \<Longrightarrow> visited st t"
    and "sorted (map lev (filter (\<lambda>t. t \<noteq> src) (queue st)))"
    and "\<And>t. t \<in> set (queue st) \<Longrightarrow> t \<noteq> src \<Longrightarrow> L \<le> lev t \<and> lev t \<le> L + 1"
    and "\<And>t u. discovered src st t \<Longrightarrow> t \<notin> set (queue st) \<or> t = src \<Longrightarrow> \<not> busy t \<Longrightarrow>
           finder_edge ri rc t u \<Longrightarrow> discovered src st u"
    and "\<And>t. visited st t \<Longrightarrow> in_grid ri t"
    and "\<And>t. busy t \<Longrightarrow> t \<notin> set (queue st) \<and> discovered src st t \<and> lev t = L"
  using assms unfolding bfs_level_inv_def by blast+

lemma card_grid:
  "finite {t. in_grid ri t} \<and> card {t. in_grid ri t} = unat (NumRows ri) * unat (NumCols ri)"
proof -
  let ?f = "\<lambda>(r, c). XAie_TileLoc (of_nat c) (of_nat r)"
  let ?S = "{..<unat (NumRows ri)} \<times> {..<unat (NumCols ri)}"
  have img: "{t. in_grid ri t} = ?f ` ?S"
  proof (intro set_eqI iffI)
    fix t assume "t \<in> {t. in_grid ri t}"
    then have "unat (Row t) < unat (NumRows ri)" "unat (Col t) < unat (NumCols ri)"
      by (simp_all add: in_grid_def word_less_nat_alt)
    moreover have "t = ?f (unat (Row t), unat (Col t))"
      by (simp add: loc_eta)
    ultimately show "t \<in> ?f ` ?S" by blast
  next
    fix t assume "t \<in> ?f ` ?S"
    then obtain r c where rc: "r < unat (NumRows ri)" "c < unat (NumCols ri)"
      and t: "t = XAie_TileLoc (of_nat c) (of_nat r)" by auto
    have "unat (of_nat r :: u8) = r" "unat (of_nat c :: u8) = c"
      using rc word_bounds [of "NumRows ri"] word_bounds [of "NumCols ri"]
      by (simp_all add: unat_of_nat)
    then show "t \<in> {t. in_grid ri t}"
      using rc t by (simp add: in_grid_def XAie_TileLoc_def word_less_nat_alt)
  qed
  have inj: "inj_on ?f ?S"
  proof (rule inj_onI)
    fix x y assume x: "x \<in> ?S" and y: "y \<in> ?S" and eq: "?f x = ?f y"
    obtain r c where xe: "x = (r, c)" by (cases x)
    obtain r' c' where ye: "y = (r', c')" by (cases y)
    have b: "r < 256" "c < 256" "r' < 256" "c' < 256"
      using x y xe ye word_bounds [of "NumRows ri"] word_bounds [of "NumCols ri"] by auto
    from eq xe ye have "(of_nat r :: u8) = of_nat r'" "(of_nat c :: u8) = of_nat c'"
      by (simp_all add: XAie_TileLoc_def)
    then have "unat (of_nat r :: u8) = unat (of_nat r' :: u8)"
      "unat (of_nat c :: u8) = unat (of_nat c' :: u8)" by simp_all
    with b have "r = r'" "c = c'" by (simp_all add: unat_of_nat)
    with xe ye show "x = y" by simp
  qed
  have "finite (?f ` ?S)" by (rule finite_imageI) simp
  moreover have "card (?f ` ?S) = unat (NumRows ri) * unat (NumCols ri)"
    by (simp add: card_image [OF inj])
  ultimately show ?thesis unfolding img by simp
qed

lemma adjacent_differs:
  assumes "(dRow, dCol, p) \<in> set bfs_directions"
  shows "XAie_TileLoc (Col c + dCol) (Row c + dRow) \<noteq> c"
proof
  assume a: "XAie_TileLoc (Col c + dCol) (Row c + dRow) = c"
  have "Col (XAie_TileLoc (Col c + dCol) (Row c + dRow)) = Col c + dCol"
    "Row (XAie_TileLoc (Col c + dCol) (Row c + dRow)) = Row c + dRow"
    by (simp_all add: XAie_TileLoc_def)
  with a have "Col c + dCol = Col c" "Row c + dRow = Row c" by simp_all
  then have "dCol = 0" "dRow = 0" by simp_all
  with assms show False by (auto simp: bfs_directions_def)
qed

lemma finder_edge_differs: "finder_edge ri rc c u \<Longrightarrow> u \<noteq> c"
  unfolding finder_edge_def list_ex_iff using adjacent_differs by fast

lemma short_path_discovered:
  assumes inv: "bfs_level_inv ri rc src (\<lambda>t. t = c) L lev st"
  shows "src_path ri rc src u q \<Longrightarrow> length q \<le> L + 1 \<Longrightarrow> discovered src st u"
proof (induction q arbitrary: u rule: rev_induct)
  case Nil
  then show ?case by (simp add: src_path_def)
next
  case (snoc x qs)
  from snoc.prems(1) have x: "x = u" by (simp add: src_path_def)
  show ?case
  proof (cases "qs = []")
    case True
    with snoc.prems(1) x show ?thesis by (simp add: src_path_def discovered_def)
  next
    case False
    let ?v = "last qs"
    from snoc.prems(1) False have p: "src_path ri rc src ?v qs" and e: "finder_edge ri rc ?v u"
      by (auto simp: src_path_def edge_path_snoc)
    from snoc.prems(2) have len: "length qs \<le> L" by simp
    then have dv: "discovered src st ?v" using snoc.IH [OF p] by simp
    from bfs_level_invD(3) [OF inv dv p] have "lev ?v + 1 \<le> length qs" .
    with len have lt: "lev ?v < L" by simp
    have "?v \<notin> set (queue st) \<or> ?v = src"
      using bfs_level_invD(7) [OF inv, of ?v] lt by fastforce
    moreover have "?v \<noteq> c"
      using bfs_level_invD(10) [OF inv, of c] lt by auto
    ultimately show ?thesis
      using bfs_level_invD(8) [OF inv dv _ _ e] by blast
  qed
qed


lemma bfs_level_invI:
  assumes "lev src = 0"
    and "\<And>t. visited st t \<Longrightarrow> t \<noteq> src \<Longrightarrow>
           discovered src st (Pred st t) \<and> finder_edge ri rc (Pred st t) t \<and>
           lev t = lev (Pred st t) + 1"
    and "\<And>t q. discovered src st t \<Longrightarrow> src_path ri rc src t q \<Longrightarrow> lev t + 1 \<le> length q"
    and "distinct (queue st)"
    and "\<And>t. t \<in> set (queue st) \<Longrightarrow> visited st t"
    and "sorted (map lev (filter (\<lambda>t. t \<noteq> src) (queue st)))"
    and "\<And>t. t \<in> set (queue st) \<Longrightarrow> t \<noteq> src \<Longrightarrow> L \<le> lev t \<and> lev t \<le> L + 1"
    and "\<And>t u. discovered src st t \<Longrightarrow> t \<notin> set (queue st) \<or> t = src \<Longrightarrow> \<not> busy t \<Longrightarrow>
           finder_edge ri rc t u \<Longrightarrow> discovered src st u"
    and "\<And>t. visited st t \<Longrightarrow> in_grid ri t"
    and "\<And>t. busy t \<Longrightarrow> t \<notin> set (queue st) \<and> discovered src st t \<and> lev t = L"
  shows "bfs_level_inv ri rc src busy L lev st"
  unfolding bfs_level_inv_def using assms by blast

lemma queue_not_full:
  assumes d: "distinct q" and v: "\<And>t. t \<in> set q \<Longrightarrow> vis t" and g: "\<And>t. vis t \<Longrightarrow> in_grid ri t"
    and a: "in_grid ri adj" "\<not> vis adj"
  shows "length q < unat (NumRows ri) * unat (NumCols ri)"
proof -
  have sub: "set q \<subseteq> {t. in_grid ri t} - {adj}"
    using v g a by auto
  have fin: "finite {t. in_grid ri t}" and card: "card {t. in_grid ri t} = unat (NumRows ri) * unat (NumCols ri)"
    using card_grid [of ri] by simp_all
  have "length q = card (set q)" using d by (simp add: distinct_card)
  also have "\<dots> \<le> card ({t. in_grid ri t} - {adj})"
    by (rule card_mono) (use fin sub in auto)
  also have "\<dots> < card {t. in_grid ri t}"
    by (rule card_Diff1_less) (use fin a in auto)
  finally show ?thesis using card by simp
qed

lemma discover_keeps_levels:
  assumes inv: "bfs_level_inv ri rc src (\<lambda>t. t = c) L lev st"
    and din: "(dRow, dCol, p) \<in> set bfs_directions"
    and adj: "adj = XAie_TileLoc (Col c + dCol) (Row c + dRow)"
    and valid: "XAie_isAdjTileValidForCurrTile ri rc c adj p (visited st)"
    and cap: "cap = unat (NumRows ri) * unat (NumCols ri)"
    and st1: "st1 = st\<lparr>visited := (visited st)(adj := True),
                       queue := XAie_enqueue cap (queue st) adj,
                       Pred := (Pred st)(adj := c)\<rparr>"
  shows "\<exists>lev1. bfs_level_inv ri rc src (\<lambda>t. t = c) L lev1 st1"
proof -
  note I = bfs_level_invD [OF inv]
  have nv: "\<not> visited st adj" and e: "finder_edge ri rc c adj"
    using valid valid_split [of ri rc c adj p "visited st"] finder_edgeI [OF din, of ri rc c "visited st"]
    unfolding adj by auto
  have grid: "in_grid ri adj"
    using valid_in_grid [OF valid] by (simp add: in_grid_def)
  have ac: "adj \<noteq> c" using finder_edge_differs [OF e] .
  have cfacts: "c \<notin> set (queue st)" "discovered src st c" "lev c = L"
    using I(10) [of c] by simp_all
  have "length (queue st) < cap"
    unfolding cap by (rule queue_not_full [where vis = "visited st" and adj = adj]) (use I grid nv in auto)
  then have q1: "queue st1 = queue st @ [adj]"
    unfolding st1 by (simp add: XAie_enqueue_def)
  have v1: "\<And>t. visited st1 t \<longleftrightarrow> visited st t \<or> t = adj"
    unfolding st1 by simp
  have p1: "\<And>t. Pred st1 t = (if t = adj then c else Pred st t)"
    unfolding st1 by simp
  have d1: "\<And>t. discovered src st1 t \<longleftrightarrow> discovered src st t \<or> t = adj"
    unfolding discovered_def v1 by blast
  have anq: "adj \<notin> set (queue st)" using I(5) nv by blast
  show ?thesis
  proof (cases "adj = src")
    case True
    have dsame: "\<And>t. discovered src st1 t \<longleftrightarrow> discovered src st t"
      unfolding d1 using True by (auto simp: discovered_def)
    have "bfs_level_inv ri rc src (\<lambda>t. t = c) L lev st1"
    proof (rule bfs_level_invI)
      show "lev src = 0" by (rule I(1))
    next
      fix t assume a: "visited st1 t" "t \<noteq> src"
      then have "visited st t" using v1 True by simp
      from I(2) [OF this a(2)] a(2) True
      show "discovered src st1 (Pred st1 t) \<and> finder_edge ri rc (Pred st1 t) t \<and>
            lev t = lev (Pred st1 t) + 1"
        unfolding dsame p1 by simp
    next
      fix t q assume "discovered src st1 t" "src_path ri rc src t q"
      then show "lev t + 1 \<le> length q" using I(3) dsame by simp
    next
      show "distinct (queue st1)" unfolding q1 using I(4) anq by simp
    next
      fix t assume "t \<in> set (queue st1)"
      then show "visited st1 t" unfolding q1 v1 using I(5) by auto
    next
      show "sorted (map lev (filter (\<lambda>t. t \<noteq> src) (queue st1)))"
        unfolding q1 using I(6) True by simp
    next
      fix t assume "t \<in> set (queue st1)" "t \<noteq> src"
      then have "t \<in> set (queue st)" unfolding q1 using True by simp
      from I(7) [OF this \<open>t \<noteq> src\<close>] show "L \<le> lev t \<and> lev t \<le> L + 1" .
    next
      fix t u assume a: "discovered src st1 t" "t \<notin> set (queue st1) \<or> t = src" "\<not> t = c"
        "finder_edge ri rc t u"
      have "t \<notin> set (queue st) \<or> t = src" using a(2) unfolding q1 by auto
      from I(8) [OF _ this a(3) a(4)] a(1) show "discovered src st1 u"
        unfolding dsame by simp
    next
      fix t assume "visited st1 t"
      then show "in_grid ri t" unfolding v1 using I(9) grid by auto
    next
      fix t assume "t = c"
      then show "t \<notin> set (queue st1) \<and> discovered src st1 t \<and> lev t = L"
        unfolding q1 dsame using cfacts ac by simp
    qed
    then show ?thesis by blast
  next
    case False
    then have nd: "\<not> discovered src st adj" using nv by (simp add: discovered_def)
    let ?lev = "lev(adj := L + 1)"
    have "bfs_level_inv ri rc src (\<lambda>t. t = c) L ?lev st1"
    proof (rule bfs_level_invI)
      show "?lev src = 0" using I(1) False by simp
    next
      fix t assume a: "visited st1 t" "t \<noteq> src"
      show "discovered src st1 (Pred st1 t) \<and> finder_edge ri rc (Pred st1 t) t \<and>
            ?lev t = ?lev (Pred st1 t) + 1"
      proof (cases "t = adj")
        case True
        then show ?thesis unfolding d1 p1 using cfacts e ac by simp
      next
        case neq: False
        with a have vt: "visited st t" using v1 by simp
        note k = I(2) [OF vt a(2)]
        from k nd have "Pred st t \<noteq> adj" by auto
        with k neq show ?thesis unfolding d1 p1 by simp
      qed
    next
      fix t q assume a: "discovered src st1 t" "src_path ri rc src t q"
      show "?lev t + 1 \<le> length q"
      proof (cases "t = adj")
        case True
        have "\<not> length q \<le> L + 1"
          using short_path_discovered [OF inv, of adj q] a(2) nd True by blast
        then show ?thesis using True by simp
      next
        case neq: False
        with a(1) have "discovered src st t" unfolding d1 by simp
        from I(3) [OF this a(2)] neq show ?thesis by simp
      qed
    next
      show "distinct (queue st1)" unfolding q1 using I(4) anq by simp
    next
      fix t assume "t \<in> set (queue st1)"
      then show "visited st1 t" unfolding q1 v1 using I(5) by auto
    next
      have m: "map ?lev (filter (\<lambda>t. t \<noteq> src) (queue st)) = map lev (filter (\<lambda>t. t \<noteq> src) (queue st))"
        using anq by (intro map_cong) auto
      have s: "sorted (map ?lev (filter (\<lambda>t. t \<noteq> src) (queue st)))"
        unfolding m by (rule I(6))
      have b: "\<forall>x \<in> set (map ?lev (filter (\<lambda>t. t \<noteq> src) (queue st))). x \<le> L + 1"
        unfolding m using I(7) by auto
      have f: "filter (\<lambda>t. t \<noteq> src) (queue st1) = filter (\<lambda>t. t \<noteq> src) (queue st) @ [adj]"
        unfolding q1 using False by simp
      show "sorted (map ?lev (filter (\<lambda>t. t \<noteq> src) (queue st1)))"
        unfolding f map_append sorted_append using s b by simp
    next
      fix t assume a: "t \<in> set (queue st1)" "t \<noteq> src"
      show "L \<le> ?lev t \<and> ?lev t \<le> L + 1"
      proof (cases "t = adj")
        case True
        then show ?thesis by simp
      next
        case neq: False
        with a have "t \<in> set (queue st)" unfolding q1 by simp
        from I(7) [OF this a(2)] neq show ?thesis by simp
      qed
    next
      fix t u assume a: "discovered src st1 t" "t \<notin> set (queue st1) \<or> t = src" "\<not> t = c"
        "finder_edge ri rc t u"
      have neq: "t \<noteq> adj" using a(2) False unfolding q1 by auto
      then have dt: "discovered src st t" using a(1) unfolding d1 by simp
      have "t \<notin> set (queue st) \<or> t = src" using a(2) unfolding q1 by auto
      from I(8) [OF dt this a(3) a(4)] show "discovered src st1 u"
        unfolding d1 by simp
    next
      fix t assume "visited st1 t"
      then show "in_grid ri t" unfolding v1 using I(9) grid by auto
    next
      fix t assume "t = c"
      then show "t \<notin> set (queue st1) \<and> discovered src st1 t \<and> ?lev t = L"
        unfolding q1 d1 using cfacts ac by simp
    qed
    then show ?thesis by blast
  qed
qed


lemma bfs_level_inv_found [simp]:
  "bfs_level_inv ri rc src busy L lev (st\<lparr>found := b\<rparr>) = bfs_level_inv ri rc src busy L lev st"
  by (simp add: bfs_level_inv_def discovered_def)

lemma bfs_neighbours_levels:
  assumes "bfs_neighbours ri rc src dst cap c ds st = Some st'"
    and "set ds \<subseteq> set bfs_directions"
    and "bfs_level_inv ri rc src (\<lambda>t. t = c) L lev st"
    and "cap = unat (NumRows ri) * unat (NumCols ri)"
  shows "(\<exists>lev'. bfs_level_inv ri rc src (\<lambda>t. t = c) L lev' st') \<and>
         (\<forall>t. visited st t \<longrightarrow> visited st' t) \<and>
         (\<not> found st' \<longrightarrow>
            (\<forall>dRow dCol p. (dRow, dCol, p) \<in> set ds \<longrightarrow>
               XAie_isAdjTileValidForCurrTile ri rc c
                 (XAie_TileLoc (Col c + dCol) (Row c + dRow)) p nothing_visited \<longrightarrow>
               visited st' (XAie_TileLoc (Col c + dCol) (Row c + dRow))))"
  using assms
proof (induction ds arbitrary: st lev)
  case Nil
  then show ?case by auto
next
  case (Cons d ds)
  obtain dRow dCol p where d: "d = (dRow, dCol, p)" by (cases d) auto
  let ?adj = "XAie_TileLoc (Col c + dCol) (Row c + dRow)"
  let ?st1 = "st\<lparr>visited := (visited st)(?adj := True),
                 queue := XAie_enqueue cap (queue st) ?adj,
                 Pred := (Pred st)(?adj := c)\<rparr>"
  have sub: "set ds \<subseteq> set bfs_directions" and din: "(dRow, dCol, p) \<in> set bfs_directions"
    using Cons.prems(2) d by auto
  show ?case
  proof (cases "XAie_isAdjTileValidForCurrTile ri rc c ?adj p (visited st)")
    case False
    with Cons.prems(1) d have "bfs_neighbours ri rc src dst cap c ds st = Some st'"
      by (simp add: Let_def)
    note ih = Cons.IH [OF this sub Cons.prems(3) Cons.prems(4)]
    have "XAie_isAdjTileValidForCurrTile ri rc c ?adj p nothing_visited \<longrightarrow> visited st' ?adj"
      using False valid_split [of ri rc c ?adj p "visited st"] ih by blast
    with ih show ?thesis unfolding d by auto
  next
    case True
    from discover_keeps_levels [OF Cons.prems(3) din refl True Cons.prems(4) refl]
    obtain lev1 where inv1: "bfs_level_inv ri rc src (\<lambda>t. t = c) L lev1 ?st1" ..
    have mono1: "\<forall>t. visited st t \<longrightarrow> visited ?st1 t" by simp
    have adj1: "visited ?st1 ?adj" by simp
    have via_rest: ?thesis
      if rest: "bfs_neighbours ri rc src dst cap c ds ?st1 = Some st'"
    proof -
      note ih = Cons.IH [OF rest sub inv1 Cons.prems(4)]
      have "visited st' ?adj" using ih adj1 by blast
      moreover have "\<forall>t. visited st t \<longrightarrow> visited st' t" using ih mono1 by blast
      ultimately show ?thesis using ih unfolding d by auto
    qed
    show ?thesis
    proof (cases "same_tile ?adj dst")
      case False
      with Cons.prems(1) d True
      have "bfs_neighbours ri rc src dst cap c ds ?st1 = Some st'"
        by (simp add: Let_def)
      then show ?thesis by (rule via_rest)
    next
      case same: True
      show ?thesis
      proof (cases "whitelist_walk rc (Pred ?st1) src ?adj")
        case None
        with Cons.prems(1) d True same show ?thesis by (simp add: Let_def)
      next
        case (Some w)
        show ?thesis
        proof (cases w)
          case True
          with Cons.prems(1) d \<open>XAie_isAdjTileValidForCurrTile ri rc c ?adj p (visited st)\<close>
            same Some
          have st': "st' = ?st1\<lparr>found := True\<rparr>" by (simp add: Let_def)
          have "\<exists>lev'. bfs_level_inv ri rc src (\<lambda>t. t = c) L lev' st'"
            unfolding st' using inv1 by (intro exI [of _ lev1]) simp
          moreover have "\<forall>t. visited st t \<longrightarrow> visited st' t" unfolding st' by simp
          moreover have "found st'" unfolding st' by simp
          ultimately show ?thesis by blast
        next
          case False
          with Cons.prems(1) d \<open>XAie_isAdjTileValidForCurrTile ri rc c ?adj p (visited st)\<close>
            same Some
          have "bfs_neighbours ri rc src dst cap c ds ?st1 = Some st'"
            by (simp add: Let_def)
          then show ?thesis by (rule via_rest)
        qed
      qed
    qed
  qed
qed

lemma bfs_neighbours_noop:
  assumes "\<And>dRow dCol p. (dRow, dCol, p) \<in> set ds \<Longrightarrow>
      \<not> XAie_isAdjTileValidForCurrTile ri rc c (XAie_TileLoc (Col c + dCol) (Row c + dRow)) p (visited st)"
  shows "bfs_neighbours ri rc src dst cap c ds st = Some st"
  using assms
proof (induction ds)
  case Nil
  then show ?case by simp
next
  case (Cons d ds)
  obtain dRow dCol p where d: "d = (dRow, dCol, p)" by (cases d) auto
  have "\<not> XAie_isAdjTileValidForCurrTile ri rc c (XAie_TileLoc (Col c + dCol) (Row c + dRow)) p (visited st)"
    using Cons.prems [of dRow dCol p] d by simp
  moreover have "bfs_neighbours ri rc src dst cap c ds st = Some st"
    using Cons.prems by (intro Cons.IH) simp
  ultimately show ?case unfolding d by (simp add: Let_def)
qed

lemma finder_edgeE:
  assumes "finder_edge ri rc c u"
  obtains dRow dCol p where "(dRow, dCol, p) \<in> set bfs_directions"
    and "u = XAie_TileLoc (Col c + dCol) (Row c + dRow)"
    and "XAie_isAdjTileValidForCurrTile ri rc c u p nothing_visited"
  using assms unfolding finder_edge_def list_ex_iff by blast

lemma bfs_level_inv_release:
  assumes inv: "bfs_level_inv ri rc src (\<lambda>t. t = c) L lev st"
    and all: "\<And>u. finder_edge ri rc c u \<Longrightarrow> discovered src st u"
  shows "bfs_level_inv ri rc src (\<lambda>t. False) L lev st"
proof -
  note I = bfs_level_invD [OF inv]
  show ?thesis
  proof (rule bfs_level_invI)
    fix t u assume a: "discovered src st t" "t \<notin> set (queue st) \<or> t = src" "\<not> False"
      "finder_edge ri rc t u"
    show "discovered src st u"
    proof (cases "t = c")
      case True
      with a(4) all show ?thesis by simp
    next
      case False
      from I(8) [OF a(1) a(2) False a(4)] show ?thesis .
    qed
  qed (use I in blast)+
qed

lemma bfs_level_inv_dequeue:
  assumes inv: "bfs_level_inv ri rc src (\<lambda>t. False) L lev st"
    and q: "queue st = c # q" and c: "c \<noteq> src"
  shows "bfs_level_inv ri rc src (\<lambda>t. t = c) (lev c) lev (st\<lparr>queue := q\<rparr>)"
proof -
  note I = bfs_level_invD [OF inv]
  have f: "filter (\<lambda>t. t \<noteq> src) (queue st) = c # filter (\<lambda>t. t \<noteq> src) q"
    using q c by simp
  have srt: "sorted (lev c # map lev (filter (\<lambda>t. t \<noteq> src) q))"
    using I(6) unfolding f by simp
  have lc: "L \<le> lev c" using I(7) [of c] q c by simp
  have d [simp]: "\<And>t. discovered src (st\<lparr>queue := q\<rparr>) t = discovered src st t"
    by (simp add: discovered_def)
  show ?thesis
  proof (rule bfs_level_invI)
    show "lev src = 0" by (rule I(1))
  next
    fix t assume "visited (st\<lparr>queue := q\<rparr>) t" "t \<noteq> src"
    then show "discovered src (st\<lparr>queue := q\<rparr>) (Pred (st\<lparr>queue := q\<rparr>) t) \<and>
        finder_edge ri rc (Pred (st\<lparr>queue := q\<rparr>) t) t \<and>
        lev t = lev (Pred (st\<lparr>queue := q\<rparr>) t) + 1"
      using I(2) [of t] by simp
  next
    fix t p assume "discovered src (st\<lparr>queue := q\<rparr>) t" "src_path ri rc src t p"
    then show "lev t + 1 \<le> length p" using I(3) [of t p] by simp
  next
    show "distinct (queue (st\<lparr>queue := q\<rparr>))" using I(4) q by simp
  next
    fix t assume "t \<in> set (queue (st\<lparr>queue := q\<rparr>))"
    then show "visited (st\<lparr>queue := q\<rparr>) t" using I(5) [of t] q by simp
  next
    show "sorted (map lev (filter (\<lambda>t. t \<noteq> src) (queue (st\<lparr>queue := q\<rparr>))))"
      using srt by simp
  next
    fix t assume a: "t \<in> set (queue (st\<lparr>queue := q\<rparr>))" "t \<noteq> src"
    then have "lev c \<le> lev t" using srt by auto
    moreover have "lev t \<le> L + 1" using I(7) [of t] a q by simp
    ultimately show "lev c \<le> lev t \<and> lev t \<le> lev c + 1" using lc by simp
  next
    fix t u assume a: "discovered src (st\<lparr>queue := q\<rparr>) t"
      "t \<notin> set (queue (st\<lparr>queue := q\<rparr>)) \<or> t = src" "\<not> t = c" "finder_edge ri rc t u"
    have "t \<notin> set (queue st) \<or> t = src" using a(2,3) q by auto
    from I(8) [OF _ this _ a(4)] a(1) show "discovered src (st\<lparr>queue := q\<rparr>) u" by simp
  next
    fix t assume "visited (st\<lparr>queue := q\<rparr>) t"
    then show "in_grid ri t" using I(9) [of t] by simp
  next
    fix t assume "t = c"
    then show "t \<notin> set (queue (st\<lparr>queue := q\<rparr>)) \<and> discovered src (st\<lparr>queue := q\<rparr>) t \<and> lev t = lev c"
      using I(4) I(5) [of c] q by (simp add: discovered_def)
  qed
qed

lemma bfs_level_inv_dequeue_src:
  assumes inv: "bfs_level_inv ri rc src (\<lambda>t. False) L lev st"
    and q: "queue st = src # q"
  shows "bfs_level_inv ri rc src (\<lambda>t. False) L lev (st\<lparr>queue := q\<rparr>)"
proof -
  note I = bfs_level_invD [OF inv]
  have d [simp]: "\<And>t. discovered src (st\<lparr>queue := q\<rparr>) t = discovered src st t"
    by (simp add: discovered_def)
  show ?thesis
  proof (rule bfs_level_invI)
    show "lev src = 0" by (rule I(1))
  next
    fix t assume "visited (st\<lparr>queue := q\<rparr>) t" "t \<noteq> src"
    then show "discovered src (st\<lparr>queue := q\<rparr>) (Pred (st\<lparr>queue := q\<rparr>) t) \<and>
        finder_edge ri rc (Pred (st\<lparr>queue := q\<rparr>) t) t \<and>
        lev t = lev (Pred (st\<lparr>queue := q\<rparr>) t) + 1"
      using I(2) [of t] by simp
  next
    fix t p assume "discovered src (st\<lparr>queue := q\<rparr>) t" "src_path ri rc src t p"
    then show "lev t + 1 \<le> length p" using I(3) [of t p] by simp
  next
    show "distinct (queue (st\<lparr>queue := q\<rparr>))" using I(4) q by simp
  next
    fix t assume "t \<in> set (queue (st\<lparr>queue := q\<rparr>))"
    then show "visited (st\<lparr>queue := q\<rparr>) t" using I(5) [of t] q by simp
  next
    show "sorted (map lev (filter (\<lambda>t. t \<noteq> src) (queue (st\<lparr>queue := q\<rparr>))))"
      using I(6) q by simp
  next
    fix t assume a: "t \<in> set (queue (st\<lparr>queue := q\<rparr>))" "t \<noteq> src"
    then show "L \<le> lev t \<and> lev t \<le> L + 1" using I(7) [of t] q by simp
  next
    fix t u assume a: "discovered src (st\<lparr>queue := q\<rparr>) t"
      "t \<notin> set (queue (st\<lparr>queue := q\<rparr>)) \<or> t = src" "\<not> False" "finder_edge ri rc t u"
    have "t \<notin> set (queue st) \<or> t = src" using a(2) q by auto
    from I(8) [OF _ this _ a(4)] a(1) show "discovered src (st\<lparr>queue := q\<rparr>) u" by simp
  next
    fix t assume "visited (st\<lparr>queue := q\<rparr>) t"
    then show "in_grid ri t" using I(9) [of t] by simp
  next
    fix t :: XAie_LocType assume "False"
    then show "t \<notin> set (queue (st\<lparr>queue := q\<rparr>)) \<and> discovered src (st\<lparr>queue := q\<rparr>) t \<and> lev t = L"
      by simp
  qed
qed


lemma bfs_neighbours_levels_done:
  assumes n: "bfs_neighbours ri rc src dst cap c bfs_directions st = Some st1"
    and inv: "bfs_level_inv ri rc src (\<lambda>t. t = c) L lev st"
    and cap: "cap = unat (NumRows ri) * unat (NumCols ri)"
  shows "\<exists>lev1 busy. bfs_level_inv ri rc src busy L lev1 st1 \<and>
           (\<not> found st1 \<longrightarrow> busy = (\<lambda>t. False))"
proof -
  from bfs_neighbours_levels [OF n subset_refl inv cap]
  obtain lev1 where inv1: "bfs_level_inv ri rc src (\<lambda>t. t = c) L lev1 st1"
    and all: "\<not> found st1 \<longrightarrow>
            (\<forall>dRow dCol p. (dRow, dCol, p) \<in> set bfs_directions \<longrightarrow>
               XAie_isAdjTileValidForCurrTile ri rc c
                 (XAie_TileLoc (Col c + dCol) (Row c + dRow)) p nothing_visited \<longrightarrow>
               visited st1 (XAie_TileLoc (Col c + dCol) (Row c + dRow)))"
    by blast
  show ?thesis
  proof (cases "found st1")
    case True
    with inv1 show ?thesis by blast
  next
    case False
    have "discovered src st1 u" if "finder_edge ri rc c u" for u
      using that all False by (elim finder_edgeE) (auto simp: discovered_def)
    from bfs_level_inv_release [OF inv1 this]
    have "bfs_level_inv ri rc src (\<lambda>t. False) L lev1 st1" .
    then show ?thesis by blast
  qed
qed

subsection \<open>The search returns\<close>

lemma whitelist_walk_total:
  assumes "\<And>t. vis t \<Longrightarrow> t \<noteq> src \<Longrightarrow> (pr t = src \<or> vis (pr t)) \<and> lev t = lev (pr t) + (1::nat)"
    and "at = src \<or> vis at"
  shows "\<exists>b. whitelist_walk rc pr src at = Some b \<and> (no_whitelist rc \<longrightarrow> b)"
  using assms(2)
proof (induction n \<equiv> "lev at" arbitrary: at)
  case 0
  show ?case
  proof (cases "at = src")
    case True
    then show ?thesis by (subst whitelist_walk.simps) (auto simp: same_tile_eq)
  next
    case False
    with "0.prems" have "vis at" by simp
    from assms(1) [OF this False] "0.hyps" show ?thesis by simp
  qed
next
  case (Suc n)
  show ?case
  proof (cases "at = src")
    case True
    then show ?thesis by (subst whitelist_walk.simps) (auto simp: same_tile_eq)
  next
    case False
    with Suc.prems have "vis at" by simp
    from assms(1) [OF this False] Suc.hyps(2)
    have nxt: "pr at = src \<or> vis (pr at)" and l: "n = lev (pr at)" by simp_all
    from Suc.hyps(1) [OF l nxt] obtain b where
      b: "whitelist_walk rc pr src (pr at) = Some b" "no_whitelist rc \<longrightarrow> b" by blast
    show ?thesis
      by (subst whitelist_walk.simps)
         (use False b in \<open>auto simp: same_tile_eq no_whitelist_def split: option.splits\<close>)
  qed
qed

lemma construct_path_total:
  assumes "\<And>t. vis t \<Longrightarrow> t \<noteq> src \<Longrightarrow> (pr t = src \<or> vis (pr t)) \<and> lev t = lev (pr t) + (1::nat)"
    and "at = src \<or> vis at" and "lev at < n"
  shows "\<exists>chain. construct_path n pr src at acc = Some chain"
  using assms(2,3)
proof (induction n arbitrary: at acc)
  case 0
  then show ?case by simp
next
  case (Suc n)
  show ?case
  proof (cases "at = src")
    case True
    then show ?thesis by (simp add: same_tile_eq)
  next
    case False
    with Suc.prems have "vis at" by simp
    from assms(1) [OF this False] Suc.prems(2)
    have nxt: "pr at = src \<or> vis (pr at)" and l: "lev (pr at) < n" by simp_all
    from Suc.IH [OF nxt l, of "acc @ [at]"] False show ?thesis by (simp add: same_tile_eq)
  qed
qed

lemma level_inhabited:
  assumes "\<And>t. vis t \<Longrightarrow> t \<noteq> src \<Longrightarrow> (pr t = src \<or> vis (pr t)) \<and> lev t = lev (pr t) + 1"
    and "lev src = (0::nat)"
  shows "t = src \<or> vis t \<Longrightarrow> k \<le> lev t \<Longrightarrow> \<exists>u. (u = src \<or> vis u) \<and> lev u = k"
proof (induction n \<equiv> "lev t" arbitrary: t)
  case 0
  then show ?case by auto
next
  case (Suc n)
  show ?case
  proof (cases "t = src")
    case True
    with Suc.hyps(2) assms(2) show ?thesis by simp
  next
    case False
    with Suc.prems have v: "vis t" by simp
    from assms(1) [OF v False] Suc.hyps(2)
    have nxt: "pr t = src \<or> vis (pr t)" and l: "n = lev (pr t)" by simp_all
    show ?thesis
    proof (cases "k = lev t")
      case True
      with Suc.prems(1) show ?thesis by blast
    next
      case neq: False
      with Suc.prems(2) Suc.hyps(2) l have "k \<le> lev (pr t)" by simp
      from Suc.hyps(1) [OF l nxt this] show ?thesis .
    qed
  qed
qed

lemma level_bound:
  assumes inv: "bfs_level_inv ri rc src busy L lev st"
    and src: "in_grid ri src" and t: "discovered src st t"
  shows "lev t < unat (NumRows ri) * unat (NumCols ri)"
proof -
  note I = bfs_level_invD [OF inv]
  let ?D = "{u. discovered src st u}"
  have sub: "?D \<subseteq> {u. in_grid ri u}"
    using I(9) src by (auto simp: discovered_def)
  have fin: "finite {u. in_grid ri u}" and card: "card {u. in_grid ri u} = unat (NumRows ri) * unat (NumCols ri)"
    using card_grid [of ri] by simp_all
  have finD: "finite ?D" using sub fin by (rule finite_subset)
  have k2: "\<And>t. visited st t \<Longrightarrow> t \<noteq> src \<Longrightarrow>
      (Pred st t = src \<or> visited st (Pred st t)) \<and> lev t = lev (Pred st t) + 1"
    using I(2) by (simp add: discovered_def)
  have "{0..lev t} \<subseteq> lev ` ?D"
  proof
    fix k assume "k \<in> {0..lev t}"
    then have "k \<le> lev t" by simp
    from level_inhabited [where vis = "visited st" and pr = "Pred st" and lev = lev, OF k2 I(1) _ this]
      t
    obtain u where "u = src \<or> visited st u" "lev u = k" by (auto simp: discovered_def)
    then show "k \<in> lev ` ?D" by (auto simp: discovered_def)
  qed
  then have "card {0..lev t} \<le> card (lev ` ?D)"
    by (rule card_mono [OF finite_imageI [OF finD]])
  also have "\<dots> \<le> card ?D" by (rule card_image_le [OF finD])
  also have "\<dots> \<le> card {u. in_grid ri u}" by (rule card_mono [OF fin sub])
  finally show ?thesis using card by simp
qed

lemma whitelist_walk_no_whitelist:
  assumes "whitelist_walk rc pr src at = Some b"
  shows "no_whitelist rc \<longrightarrow> b"
  using assms
proof (induction rc pr src at b rule: whitelist_walk.raw_induct [rotated 1, consumes 1])
  case (1 walk rc pr src at b)
  show ?case
  proof
    assume nw: "no_whitelist rc"
    with "1.hyps" have "b \<or> walk rc pr src (pr at) = Some b"
      by (auto simp: no_whitelist_def XAie_isTileWhitelisted_def split: if_splits option.splits)
    then show b using "1.IH" nw by blast
  qed
qed

lemma bfs_neighbours_found_dst:
  assumes "bfs_neighbours ri rc src dst cap c ds st = Some st'"
    and "no_whitelist rc" and "visited st dst \<longrightarrow> found st"
  shows "visited st' dst \<longrightarrow> found st'"
  using assms
proof (induction ds arbitrary: st)
  case Nil
  then show ?case by simp
next
  case (Cons d ds)
  obtain dRow dCol p where d: "d = (dRow, dCol, p)" by (cases d) auto
  let ?adj = "XAie_TileLoc (Col c + dCol) (Row c + dRow)"
  let ?st1 = "st\<lparr>visited := (visited st)(?adj := True),
                 queue := XAie_enqueue cap (queue st) ?adj,
                 Pred := (Pred st)(?adj := c)\<rparr>"
  show ?case
  proof (cases "XAie_isAdjTileValidForCurrTile ri rc c ?adj p (visited st)")
    case False
    with Cons.prems(1) d have "bfs_neighbours ri rc src dst cap c ds st = Some st'"
      by (simp add: Let_def)
    from Cons.IH [OF this Cons.prems(2,3)] show ?thesis .
  next
    case True
    show ?thesis
    proof (cases "same_tile ?adj dst")
      case False
      with Cons.prems(1) d True
      have r: "bfs_neighbours ri rc src dst cap c ds ?st1 = Some st'"
        by (simp add: Let_def)
      have "visited ?st1 dst \<longrightarrow> found ?st1"
        using False Cons.prems(3) by (auto simp: same_tile_eq)
      from Cons.IH [OF r Cons.prems(2) this] show ?thesis .
    next
      case same: True
      show ?thesis
      proof (cases "whitelist_walk rc (Pred ?st1) src ?adj")
        case None
        with Cons.prems(1) d True same show ?thesis by (simp add: Let_def)
      next
        case (Some w)
        with whitelist_walk_no_whitelist [OF Some] Cons.prems(2) have w by simp
        with Cons.prems(1) d True same Some
        have "st' = ?st1\<lparr>found := True\<rparr>" by (simp add: Let_def)
        then show ?thesis by simp
      qed
    qed
  qed
qed

lemma bfs_loop_found_dst:
  assumes "bfs_loop ri rc src dst cap st = Some st'"
  shows "no_whitelist rc \<and> (visited st dst \<longrightarrow> found st) \<longrightarrow> (visited st' dst \<longrightarrow> found st')"
  using assms
proof (induction ri rc src dst cap st st' rule: bfs_loop.raw_induct [rotated 1, consumes 1])
  case (1 loop ri rc src dst cap st st')
  note body = "1.hyps"
  show ?case
  proof (intro impI, elim conjE)
    assume nw: "no_whitelist rc" and pre: "visited st dst \<longrightarrow> found st" and v: "visited st' dst"
    show "found st'"
    proof (cases "queue st")
      case Nil
      with body pre v show ?thesis by simp
    next
      case (Cons current q)
      show ?thesis
      proof (cases "found st")
        case True
        with body Cons show ?thesis by simp
      next
        case False
        with body Cons obtain st1 where
          n: "bfs_neighbours ri rc src dst cap current bfs_directions (st\<lparr>queue := q\<rparr>) = Some st1"
          and l: "loop ri rc src dst cap st1 = Some st'"
          by (auto simp: bind_eq_Some_conv)
        have "visited (st\<lparr>queue := q\<rparr>) dst \<longrightarrow> found (st\<lparr>queue := q\<rparr>)"
          using pre by simp
        from bfs_neighbours_found_dst [OF n nw this] "1.IH" [OF l] nw v
        show ?thesis by blast
      qed
    qed
  qed
qed

lemma bfs_neighbours_total:
  assumes "set ds \<subseteq> set bfs_directions"
    and "bfs_level_inv ri rc src (\<lambda>t. t = c) L lev st"
    and "cap = unat (NumRows ri) * unat (NumCols ri)"
  shows "\<exists>st'. bfs_neighbours ri rc src dst cap c ds st = Some st'"
  using assms
proof (induction ds arbitrary: st lev)
  case Nil
  then show ?case by simp
next
  case (Cons d ds)
  obtain dRow dCol p where d: "d = (dRow, dCol, p)" by (cases d) auto
  let ?adj = "XAie_TileLoc (Col c + dCol) (Row c + dRow)"
  let ?st1 = "st\<lparr>visited := (visited st)(?adj := True),
                 queue := XAie_enqueue cap (queue st) ?adj,
                 Pred := (Pred st)(?adj := c)\<rparr>"
  have sub: "set ds \<subseteq> set bfs_directions" and din: "(dRow, dCol, p) \<in> set bfs_directions"
    using Cons.prems(1) d by auto
  show ?case
  proof (cases "XAie_isAdjTileValidForCurrTile ri rc c ?adj p (visited st)")
    case False
    with Cons.IH [OF sub Cons.prems(2,3)] d show ?thesis by (simp add: Let_def)
  next
    case True
    from discover_keeps_levels [OF Cons.prems(2) din refl True Cons.prems(3) refl]
    obtain lev1 where inv1: "bfs_level_inv ri rc src (\<lambda>t. t = c) L lev1 ?st1" ..
    note I = bfs_level_invD [OF inv1]
    from Cons.IH [OF sub inv1 Cons.prems(3)] obtain st' where
      rest: "bfs_neighbours ri rc src dst cap c ds ?st1 = Some st'" ..
    have k2: "\<And>t. visited ?st1 t \<Longrightarrow> t \<noteq> src \<Longrightarrow>
      (Pred ?st1 t = src \<or> visited ?st1 (Pred ?st1 t)) \<and> lev1 t = lev1 (Pred ?st1 t) + 1"
      using I(2) unfolding discovered_def by blast
    have "?adj = src \<or> visited ?st1 ?adj" by simp
    from whitelist_walk_total [where vis = "visited ?st1" and lev = lev1, OF k2 this]
    obtain b where b: "whitelist_walk rc (Pred ?st1) src ?adj = Some b" by blast
    show ?thesis
      unfolding d using True rest b by (simp add: Let_def)
  qed
qed

lemma bfs_neighbours_progress:
  assumes "bfs_neighbours ri rc src dst cap c ds st = Some st'"
  shows "(\<forall>t. visited st t \<longrightarrow> visited st' t) \<and>
         ((visited st' = visited st \<and> queue st' = queue st) \<or>
          (\<exists>t. in_grid ri t \<and> \<not> visited st t \<and> visited st' t))"
  using assms
proof (induction ds arbitrary: st)
  case Nil
  then show ?case by simp
next
  case (Cons d ds)
  obtain dRow dCol p where d: "d = (dRow, dCol, p)" by (cases d) auto
  let ?adj = "XAie_TileLoc (Col c + dCol) (Row c + dRow)"
  let ?st1 = "st\<lparr>visited := (visited st)(?adj := True),
                 queue := XAie_enqueue cap (queue st) ?adj,
                 Pred := (Pred st)(?adj := c)\<rparr>"
  show ?case
  proof (cases "XAie_isAdjTileValidForCurrTile ri rc c ?adj p (visited st)")
    case False
    with Cons.prems(1) d have "bfs_neighbours ri rc src dst cap c ds st = Some st'"
      by (simp add: Let_def)
    from Cons.IH [OF this] show ?thesis .
  next
    case True
    have new: "in_grid ri ?adj" "\<not> visited st ?adj"
      using valid_in_grid [OF True] valid_split [of ri rc c ?adj p "visited st"] True
      by (simp_all add: in_grid_def)
    have via_rest: ?thesis
      if rest: "bfs_neighbours ri rc src dst cap c ds ?st1 = Some st'"
    proof -
      from Cons.IH [OF rest] have m: "\<forall>t. visited ?st1 t \<longrightarrow> visited st' t" by blast
      then have "visited st' ?adj" by simp
      moreover have "\<forall>t. visited st t \<longrightarrow> visited st' t" using m by simp
      ultimately show ?thesis using new by blast
    qed
    show ?thesis
    proof (cases "same_tile ?adj dst")
      case False
      with Cons.prems(1) d True
      have "bfs_neighbours ri rc src dst cap c ds ?st1 = Some st'"
        by (simp add: Let_def)
      then show ?thesis by (rule via_rest)
    next
      case same: True
      show ?thesis
      proof (cases "whitelist_walk rc (Pred ?st1) src ?adj")
        case None
        with Cons.prems(1) d True same show ?thesis by (simp add: Let_def)
      next
        case (Some w)
        show ?thesis
        proof (cases w)
          case True
          with Cons.prems(1) d \<open>XAie_isAdjTileValidForCurrTile ri rc c ?adj p (visited st)\<close>
            same Some
          have st': "st' = ?st1\<lparr>found := True\<rparr>" by (simp add: Let_def)
          have "visited st' ?adj" unfolding st' by simp
          moreover have "\<forall>t. visited st t \<longrightarrow> visited st' t" unfolding st' by simp
          ultimately show ?thesis using new by blast
        next
          case False
          with Cons.prems(1) d \<open>XAie_isAdjTileValidForCurrTile ri rc c ?adj p (visited st)\<close>
            same Some
          have "bfs_neighbours ri rc src dst cap c ds ?st1 = Some st'"
            by (simp add: Let_def)
          then show ?thesis by (rule via_rest)
        qed
      qed
    qed
  qed
qed

lemma bfs_revisit_source:
  assumes inv0: "bfs_level_inv ri rc src (\<lambda>t. False) L lev st"
  shows "bfs_neighbours ri rc src dst cap src bfs_directions (st\<lparr>queue := q\<rparr>) =
           Some (st\<lparr>queue := q\<rparr>)"
proof (rule bfs_neighbours_noop)
  note I = bfs_level_invD [OF inv0]
  fix dRow dCol p assume din: "(dRow, dCol, p) \<in> set bfs_directions"
  let ?adj = "XAie_TileLoc (Col src + dCol) (Row src + dRow)"
  show "\<not> XAie_isAdjTileValidForCurrTile ri rc src ?adj p (visited (st\<lparr>queue := q\<rparr>))"
  proof
    assume v: "XAie_isAdjTileValidForCurrTile ri rc src ?adj p (visited (st\<lparr>queue := q\<rparr>))"
    then have nv: "\<not> visited st ?adj"
      using valid_split [of ri rc src ?adj p "visited (st\<lparr>queue := q\<rparr>)"] by simp
    have e: "finder_edge ri rc src ?adj"
      using finder_edgeI [OF din v] by simp
    have "discovered src st ?adj"
      by (rule I(8) [OF _ _ _ e]) (simp_all add: discovered_def)
    moreover have "?adj \<noteq> src" using adjacent_differs [OF din, of src] by simp
    ultimately show False using nv by (simp add: discovered_def)
  qed
qed

lemma bfs_step:
  assumes inv0: "bfs_level_inv ri rc src (\<lambda>t. False) L lev st"
    and q: "queue st = c # q"
    and cap: "cap = unat (NumRows ri) * unat (NumCols ri)"
  shows "\<exists>st1 lev1 L1 busy1.
           bfs_neighbours ri rc src dst cap c bfs_directions (st\<lparr>queue := q\<rparr>) = Some st1 \<and>
           bfs_level_inv ri rc src busy1 L1 lev1 st1 \<and>
           (\<not> found st1 \<longrightarrow> busy1 = (\<lambda>t. False))"
proof (cases "c = src")
  case False
  note inv1 = bfs_level_inv_dequeue [OF inv0 q False]
  from bfs_neighbours_total [OF subset_refl inv1 cap] obtain st1 where
    n: "bfs_neighbours ri rc src dst cap c bfs_directions (st\<lparr>queue := q\<rparr>) = Some st1" ..
  from bfs_neighbours_levels_done [OF n inv1 cap] n show ?thesis by blast
next
  case True
  have "bfs_neighbours ri rc src dst cap c bfs_directions (st\<lparr>queue := q\<rparr>) =
          Some (st\<lparr>queue := q\<rparr>)"
    unfolding True by (rule bfs_revisit_source [OF inv0])
  moreover have "bfs_level_inv ri rc src (\<lambda>t. False) L lev (st\<lparr>queue := q\<rparr>)"
    using bfs_level_inv_dequeue_src [OF inv0] q True by simp
  ultimately show ?thesis by blast
qed

lemma bfs_loop_levels_aux:
  assumes "bfs_loop ri rc src dst cap st = Some st'"
  shows "cap = unat (NumRows ri) * unat (NumCols ri) \<and>
     (\<exists>lev L busy. bfs_level_inv ri rc src busy L lev st \<and>
         (\<not> found st \<longrightarrow> busy = (\<lambda>t. False))) \<longrightarrow>
     (\<exists>lev L busy. bfs_level_inv ri rc src busy L lev st' \<and>
         (\<not> found st' \<longrightarrow> busy = (\<lambda>t. False) \<and> queue st' = []))"
  using assms
proof (induction ri rc src dst cap st st' rule: bfs_loop.raw_induct [rotated 1, consumes 1])
  case (1 loop ri rc src dst cap st st')
  note body = "1.hyps"
  show ?case
  proof (intro impI, elim conjE exE)
    fix lev L busy
    assume cap: "cap = unat (NumRows ri) * unat (NumCols ri)"
      and inv: "bfs_level_inv ri rc src busy L lev st"
      and nb: "\<not> found st \<longrightarrow> busy = (\<lambda>t. False)"
    show "\<exists>lev L busy. bfs_level_inv ri rc src busy L lev st' \<and>
         (\<not> found st' \<longrightarrow> busy = (\<lambda>t. False) \<and> queue st' = [])"
    proof (cases "queue st")
      case Nil
      with body have "st' = st" by simp
      with inv nb Nil show ?thesis by blast
    next
      case (Cons current q)
      show ?thesis
      proof (cases "found st")
        case True
        with body Cons have "st' = st" by simp
        with inv True show ?thesis by blast
      next
        case False
        with body Cons obtain st1 where
          n: "bfs_neighbours ri rc src dst cap current bfs_directions (st\<lparr>queue := q\<rparr>) = Some st1"
          and l: "loop ri rc src dst cap st1 = Some st'"
          by (auto simp: bind_eq_Some_conv)
        from nb False inv have inv0: "bfs_level_inv ri rc src (\<lambda>t. False) L lev st" by simp
        from bfs_step [OF inv0 Cons cap, of dst] n
        have "\<exists>lev1 L1 busy1. bfs_level_inv ri rc src busy1 L1 lev1 st1 \<and>
                (\<not> found st1 \<longrightarrow> busy1 = (\<lambda>t. False))"
          by auto
        with "1.IH" [OF l] cap show ?thesis by blast
      qed
    qed
  qed
qed

lemma bfs_level_inv_first:
  "bfs_level_inv ri rc src (\<lambda>t. t = src) 0 (\<lambda>t. 0)
     \<lparr>queue = [], visited = (\<lambda>t. False), Pred = pr, found = False\<rparr>"
  by (rule bfs_level_invI) (auto simp: discovered_def src_path_def Suc_le_eq)

lemma bfs_loop_levels:
  assumes loop: "bfs_loop ri rc src dst cap
                   \<lparr>queue = XAie_enqueue cap [] src, visited = (\<lambda>t. False),
                    Pred = pr, found = False\<rparr> = Some st"
    and cap: "cap = unat (NumRows ri) * unat (NumCols ri)"
    and f: "found st"
  shows "\<exists>lev L busy. bfs_level_inv ri rc src busy L lev st"
proof (cases "cap = 0")
  case True
  with loop have "st = \<lparr>queue = [], visited = (\<lambda>t. False), Pred = pr, found = False\<rparr>"
    by (simp add: bfs_loop.simps XAie_enqueue_def)
  with f show ?thesis by simp
next
  case False
  let ?st0 = "\<lparr>queue = [], visited = (\<lambda>t. False), Pred = pr, found = False\<rparr>"
  from loop False obtain st1 where
    n: "bfs_neighbours ri rc src dst cap src bfs_directions ?st0 = Some st1"
    and l: "bfs_loop ri rc src dst cap st1 = Some st"
    by (subst (asm) bfs_loop.simps) (auto simp: XAie_enqueue_def bind_eq_Some_conv)
  from bfs_neighbours_levels_done [OF n bfs_level_inv_first cap]
  have "\<exists>lev L busy. bfs_level_inv ri rc src busy L lev st1 \<and>
          (\<not> found st1 \<longrightarrow> busy = (\<lambda>t. False))"
    by blast
  with bfs_loop_levels_aux [OF l] cap show ?thesis by blast
qed

lemma construct_path_length:
  assumes "construct_path n pr src at acc = Some chain"
    and "lev src = 0"
    and "\<And>t. vis t \<Longrightarrow> t \<noteq> src \<Longrightarrow> (pr t = src \<or> vis (pr t)) \<and> lev t = lev (pr t) + 1"
    and "at = src \<or> vis at"
  shows "length chain = length acc + lev at + 1"
  using assms
proof (induction n arbitrary: at acc)
  case 0
  then show ?case by simp
next
  case (Suc n)
  show ?case
  proof (cases "at = src")
    case True
    with Suc.prems(1,2) show ?thesis by (auto simp: same_tile_eq)
  next
    case False
    with Suc.prems(1) have rec: "construct_path n pr src (pr at) (acc @ [at]) = Some chain"
      by (simp add: same_tile_eq)
    from False Suc.prems(4) have v: "vis at" by simp
    note k = Suc.prems(3) [OF v False]
    from Suc.IH [OF rec Suc.prems(2) Suc.prems(3)] k
    show ?thesis by simp
  qed
qed

lemma bfs_loop_total:
  assumes cap: "cap = unat (NumRows ri) * unat (NumCols ri)"
  shows "(\<exists>lev L busy. bfs_level_inv ri rc src busy L lev st \<and>
            (\<not> found st \<longrightarrow> busy = (\<lambda>t. False))) \<longrightarrow>
         (\<exists>st'. bfs_loop ri rc src dst cap st = Some st')"
proof (induction st rule: wf_induct_rule [OF wf_measures
        [of "[\<lambda>st. card {t. in_grid ri t \<and> \<not> visited st t}, \<lambda>st. length (queue st)]"]])
  case (1 st)
  show ?case
  proof (intro impI, elim exE conjE)
    fix lev L busy
    assume inv: "bfs_level_inv ri rc src busy L lev st"
      and nb: "\<not> found st \<longrightarrow> busy = (\<lambda>t. False)"
    show "\<exists>st'. bfs_loop ri rc src dst cap st = Some st'"
    proof (cases "queue st")
      case Nil
      then show ?thesis by (subst bfs_loop.simps) simp
    next
      case (Cons c q)
      show ?thesis
      proof (cases "found st")
        case True
        with Cons show ?thesis by (subst bfs_loop.simps) simp
      next
        case False
        with nb inv have inv0: "bfs_level_inv ri rc src (\<lambda>t. False) L lev st" by simp
        from bfs_step [OF inv0 Cons cap] obtain st1 lev1 L1 busy1 where
          n: "bfs_neighbours ri rc src dst cap c bfs_directions (st\<lparr>queue := q\<rparr>) = Some st1"
          and inv1: "bfs_level_inv ri rc src busy1 L1 lev1 st1"
          and nb1: "\<not> found st1 \<longrightarrow> busy1 = (\<lambda>t. False)"
          by blast
        have fin: "finite {t. in_grid ri t \<and> \<not> visited st t}"
          using card_grid [of ri] by simp
        from bfs_neighbours_progress [OF n]
        have mono: "\<forall>t. visited st t \<longrightarrow> visited st1 t"
          and prog: "(visited st1 = visited st \<and> queue st1 = q) \<or>
                     (\<exists>t. in_grid ri t \<and> \<not> visited st t \<and> visited st1 t)"
          by simp_all
        have less: "(st1, st) \<in> measures
            [\<lambda>st. card {t. in_grid ri t \<and> \<not> visited st t}, \<lambda>st. length (queue st)]"
        proof (cases "visited st1 = visited st \<and> queue st1 = q")
          case True
          with Cons show ?thesis by simp
        next
          case neq: False
          with prog obtain t where t: "in_grid ri t" "\<not> visited st t" "visited st1 t" by blast
          have "{t. in_grid ri t \<and> \<not> visited st1 t} \<subset> {t. in_grid ri t \<and> \<not> visited st t}"
            using mono t by blast
          from psubset_card_mono [OF fin this] show ?thesis by simp
        qed
        from "1.IH" [OF less] inv1 nb1 obtain st' where
          "bfs_loop ri rc src dst cap st1 = Some st'" by blast
        with n Cons False show ?thesis by (subst bfs_loop.simps) simp
      qed
    qed
  qed
qed

lemma bfs_run:
  assumes cap: "cap = unat (NumRows ri) * unat (NumCols ri)" and pos: "0 < cap"
  shows "\<exists>st lev L busy.
           bfs_loop ri rc src dst cap
             \<lparr>queue = XAie_enqueue cap [] src, visited = (\<lambda>t. False), Pred = pr, found = False\<rparr> =
             Some st \<and>
           bfs_level_inv ri rc src busy L lev st \<and>
           (\<not> found st \<longrightarrow> busy = (\<lambda>t. False) \<and> queue st = []) \<and>
           (no_whitelist rc \<longrightarrow> visited st dst \<longrightarrow> found st)"
proof -
  let ?st0 = "\<lparr>queue = [], visited = (\<lambda>t. False), Pred = pr, found = False\<rparr>"
  let ?init = "\<lparr>queue = XAie_enqueue cap [] src, visited = (\<lambda>t. False), Pred = pr, found = False\<rparr>"
  from bfs_neighbours_total [OF subset_refl bfs_level_inv_first cap] obtain st1 where
    n: "bfs_neighbours ri rc src dst cap src bfs_directions ?st0 = Some st1" ..
  from bfs_neighbours_levels_done [OF n bfs_level_inv_first cap]
  have pre: "\<exists>lev L busy. bfs_level_inv ri rc src busy L lev st1 \<and>
          (\<not> found st1 \<longrightarrow> busy = (\<lambda>t. False))"
    by blast
  with bfs_loop_total [OF cap] obtain st where
    l: "bfs_loop ri rc src dst cap st1 = Some st" by blast
  have run: "bfs_loop ri rc src dst cap ?init = Some st"
    using pos n l by (subst bfs_loop.simps) (simp add: XAie_enqueue_def)
  from bfs_loop_levels_aux [OF l] cap pre obtain lev L busy where
    inv: "bfs_level_inv ri rc src busy L lev st"
    and nb: "\<not> found st \<longrightarrow> busy = (\<lambda>t. False) \<and> queue st = []"
    by blast
  have "no_whitelist rc \<longrightarrow> visited st dst \<longrightarrow> found st"
  proof (intro impI)
    assume nw: "no_whitelist rc" and v: "visited st dst"
    have "visited ?st0 dst \<longrightarrow> found ?st0" by simp
    from bfs_neighbours_found_dst [OF n nw this] bfs_loop_found_dst [OF l] nw v
    show "found st" by blast
  qed
  with run inv nb show ?thesis by blast
qed

lemma closed_discovered:
  assumes inv: "bfs_level_inv ri rc src (\<lambda>t. False) L lev st" and e: "queue st = []"
  shows "src_path ri rc src u q \<Longrightarrow> discovered src st u"
proof (induction q arbitrary: u rule: rev_induct)
  case Nil
  then show ?case by (simp add: src_path_def)
next
  case (snoc x qs)
  from snoc.prems have x: "x = u" by (simp add: src_path_def)
  show ?case
  proof (cases "qs = []")
    case True
    with snoc.prems x show ?thesis by (simp add: src_path_def discovered_def)
  next
    case False
    let ?v = "last qs"
    from snoc.prems False have p: "src_path ri rc src ?v qs" and ed: "finder_edge ri rc ?v u"
      by (auto simp: src_path_def edge_path_snoc)
    from snoc.IH [OF p] have dv: "discovered src st ?v" .
    show ?thesis
      by (rule bfs_level_invD(8) [OF inv dv _ _ ed]) (simp_all add: e)
  qed
qed

lemma grid_positive: "in_grid ri t \<Longrightarrow> 0 < unat (NumRows ri) * unat (NumCols ri)"
proof -
  assume "in_grid ri t"
  then have "unat (Col t) < unat (NumCols ri)" "unat (Row t) < unat (NumRows ri)"
    by (simp_all add: in_grid_def word_less_nat_alt)
  then show ?thesis by simp
qed

subsection \<open>The path returned\<close>

lemma found_path_sound:
  assumes "XAie_findShortestPath ri rc src dst = Some (Some path)" and "src \<noteq> dst"
  shows "path \<noteq> [] \<and> hd path = src \<and> last path = dst \<and> edge_path ri rc path \<and>
         (\<forall>t \<in> set (tl path). Col t < NumCols ri \<and> Row t < NumRows ri \<and>
              \<not> XAie_isTileBlackListed t rc \<and> whitelist_ok rc t)"
proof -
  let ?cap = "unat (NumRows ri) * unat (NumCols ri)"
  let ?st0 = "\<lparr>queue = XAie_enqueue ?cap [] src, visited = (\<lambda>t. False),
               Pred = (\<lambda>t. XAie_TileLoc 0 0), found = False\<rparr>"
  from assms obtain st p where
    loop: "bfs_loop ri rc src dst ?cap ?st0 = Some st" and f: "found st"
    and cp: "construct_path ?cap (Pred st) src dst [] = Some p" and path: "path = rev p"
    by (auto simp: XAie_findShortestPath_def same_tile_eq Let_def reversePath_def
        split: option.splits if_splits)
  have nf: "\<not> found ?st0" by simp
  from bfs_loop_inv [OF loop bfs_inv_init nf] f
  have inv: "bfs_inv ri rc src st" and w: "whitelist_walk rc (Pred st) src dst = Some True"
    and dv: "dst = src \<or> visited st dst"
    by simp_all
  have pre: "\<forall>t. visited st t \<longrightarrow>
      finder_edge ri rc (Pred st t) t \<and> (Pred st t = src \<or> visited st (Pred st t))"
    using inv by (simp add: bfs_inv_def)
  from construct_path_chain [where vis = "visited st" and ri = ri and rc = rc, OF cp pre dv]
  obtain chain where
    c: "p = chain" "chain \<noteq> []" "hd chain = dst" "last chain = src"
       "edge_path ri rc (rev chain)" "\<forall>t \<in> set (butlast chain). visited st t"
       "\<forall>t \<in> set (butlast chain). whitelist_ok rc t"
    using w by auto
  have "butlast chain = rev (tl (rev chain))"
    using butlast_rev [of "rev chain"] by simp
  then have tl: "set (tl path) = set (butlast chain)"
    using c(1) path by simp
  have grid: "Col t < NumCols ri \<and> Row t < NumRows ri \<and> \<not> XAie_isTileBlackListed t rc"
    if "t \<in> set (butlast chain)" for t
    using that c(6) inv finder_edge_grid [of ri rc "Pred st t" t] by (auto simp: bfs_inv_def)
  have "path \<noteq> []" "hd path = src" "last path = dst" "edge_path ri rc path"
    using c(1-5) path by (simp_all add: hd_rev last_rev)
  moreover have "\<forall>t \<in> set (tl path). Col t < NumCols ri \<and> Row t < NumRows ri \<and>
              \<not> XAie_isTileBlackListed t rc \<and> whitelist_ok rc t"
    using tl grid c(7) by simp
  ultimately show ?thesis by simp
qed

lemma found_path_shortest:
  assumes "XAie_findShortestPath ri rc src dst = Some (Some path)" and "src \<noteq> dst"
    and "q \<noteq> []" "hd q = src" "last q = dst" "edge_path ri rc q"
  shows "length path \<le> length q"
proof -
  let ?cap = "unat (NumRows ri) * unat (NumCols ri)"
  let ?st0 = "\<lparr>queue = XAie_enqueue ?cap [] src, visited = (\<lambda>t. False),
               Pred = (\<lambda>t. XAie_TileLoc 0 0), found = False\<rparr>"
  from assms(1,2) obtain st p where
    loop: "bfs_loop ri rc src dst ?cap ?st0 = Some st" and f: "found st"
    and cp: "construct_path ?cap (Pred st) src dst [] = Some p" and path: "path = rev p"
    by (auto simp: XAie_findShortestPath_def same_tile_eq Let_def reversePath_def
        split: option.splits if_splits)
  have nf: "\<not> found ?st0" by simp
  from bfs_loop_inv [OF loop bfs_inv_init nf] f
  have dv: "dst = src \<or> visited st dst" by simp
  from bfs_loop_levels [OF loop refl f] obtain lev L busy where
    inv: "bfs_level_inv ri rc src busy L lev st" by blast
  note I = bfs_level_invD [OF inv]
  have "length p = length ([] :: XAie_LocType list) + lev dst + 1"
  proof (rule construct_path_length [where vis = "visited st" and lev = lev, OF cp I(1) _ dv])
    fix t assume "visited st t" "t \<noteq> src"
    from I(2) [OF this]
    show "(Pred st t = src \<or> visited st (Pred st t)) \<and> lev t = lev (Pred st t) + 1"
      by (simp add: discovered_def)
  qed
  moreover have "lev dst + 1 \<le> length q"
    by (rule I(3)) (use dv assms(3-6) in \<open>simp_all add: discovered_def src_path_def\<close>)
  ultimately show ?thesis using path by simp
qed

lemma search_returns:
  assumes src: "Col src < NumCols ri" "Row src < NumRows ri"
  shows "\<exists>r. XAie_findShortestPath ri rc src dst = Some r \<and>
           (src \<noteq> dst \<and> no_whitelist rc \<and>
            (\<exists>q. q \<noteq> [] \<and> hd q = src \<and> last q = dst \<and> edge_path ri rc q) \<longrightarrow> r \<noteq> None)"
proof (cases "src = dst")
  case True
  then show ?thesis by (simp add: XAie_findShortestPath_def same_tile_eq)
next
  case False
  let ?cap = "unat (NumRows ri) * unat (NumCols ri)"
  have g: "in_grid ri src" using src by (simp add: in_grid_def)
  from bfs_run [OF refl grid_positive [OF g], of rc src dst "\<lambda>t. XAie_TileLoc 0 0"]
  obtain st lev L busy where
    run: "bfs_loop ri rc src dst ?cap
             \<lparr>queue = XAie_enqueue ?cap [] src, visited = (\<lambda>t. False),
              Pred = (\<lambda>t. XAie_TileLoc 0 0), found = False\<rparr> = Some st"
    and inv: "bfs_level_inv ri rc src busy L lev st"
    and nb: "\<not> found st \<longrightarrow> busy = (\<lambda>t. False) \<and> queue st = []"
    and fd: "no_whitelist rc \<longrightarrow> visited st dst \<longrightarrow> found st"
    by blast
  note I = bfs_level_invD [OF inv]
  show ?thesis
  proof (cases "found st")
    case nf: False
    have r: "XAie_findShortestPath ri rc src dst = Some None"
      using False run nf by (simp add: XAie_findShortestPath_def same_tile_eq Let_def)
    have "\<not> (no_whitelist rc \<and> (\<exists>q. q \<noteq> [] \<and> hd q = src \<and> last q = dst \<and> edge_path ri rc q))"
    proof
      assume a: "no_whitelist rc \<and> (\<exists>q. q \<noteq> [] \<and> hd q = src \<and> last q = dst \<and> edge_path ri rc q)"
      then obtain q where "src_path ri rc src dst q" by (auto simp: src_path_def)
      moreover from nb nf inv have "bfs_level_inv ri rc src (\<lambda>t. False) L lev st" "queue st = []"
        by simp_all
      ultimately have "discovered src st dst" using closed_discovered by blast
      with False have "visited st dst" by (auto simp: discovered_def)
      with fd a nf show False by simp
    qed
    with r show ?thesis by simp
  next
    case True
    from bfs_loop_inv [OF run bfs_inv_init] True
    have dv: "dst = src \<or> visited st dst" by simp
    then have d: "discovered src st dst" by (simp add: discovered_def)
    have k2: "\<And>t. visited st t \<Longrightarrow> t \<noteq> src \<Longrightarrow>
      (Pred st t = src \<or> visited st (Pred st t)) \<and> lev t = lev (Pred st t) + 1"
      using I(2) by (simp add: discovered_def)
    from construct_path_total [where vis = "visited st" and lev = lev, OF k2 dv level_bound [OF inv g d]]
    obtain chain where "construct_path ?cap (Pred st) src dst [] = Some chain" ..
    with False run True show ?thesis
      by (simp add: XAie_findShortestPath_def same_tile_eq Let_def)
  qed
qed

text \<open>
  C4, as the code has it, for a source and a different destination. When the search returns
  a path, the path leads from the source to the destination over edges the finder's edge
  test accepts; every tile on it other than the source lies in the grid, is not blacklisted
  and, if the white list is not empty, is whitelisted; and no sequence of tiles from the
  source to the destination over accepted edges is shorter. The source itself is never
  tested against either list. When the source lies in the grid the search always returns,
  and when there is moreover no white list and some sequence of tiles leads from the source
  to the destination over accepted edges, it returns a path.
\<close>

theorem path_search_result:
  assumes "src \<noteq> dst"
  shows "(XAie_findShortestPath ri rc src dst = Some (Some path) \<longrightarrow>
            src_path ri rc src dst path \<and>
            (\<forall>t \<in> set (tl path). in_grid ri t \<and> \<not> XAie_isTileBlackListed t rc \<and>
                 whitelist_ok rc t) \<and>
            (\<forall>q. src_path ri rc src dst q \<longrightarrow> length path \<le> length q)) \<and>
         (in_grid ri src \<longrightarrow>
            (\<exists>r. XAie_findShortestPath ri rc src dst = Some r \<and>
                 (no_whitelist rc \<and> (\<exists>q. src_path ri rc src dst q) \<longrightarrow> r \<noteq> None)))"
proof (rule conjI; rule impI)
  assume p: "XAie_findShortestPath ri rc src dst = Some (Some path)"
  from found_path_sound [OF p assms]
  show "src_path ri rc src dst path \<and>
        (\<forall>t \<in> set (tl path). in_grid ri t \<and> \<not> XAie_isTileBlackListed t rc \<and>
             whitelist_ok rc t) \<and>
        (\<forall>q. src_path ri rc src dst q \<longrightarrow> length path \<le> length q)"
    using found_path_shortest [OF p assms] by (simp add: src_path_def in_grid_def)
next
  assume "in_grid ri src"
  then have "Col src < NumCols ri" "Row src < NumRows ri" by (simp_all add: in_grid_def)
  from search_returns [OF this, of rc dst] assms
  show "\<exists>r. XAie_findShortestPath ri rc src dst = Some r \<and>
          (no_whitelist rc \<and> (\<exists>q. src_path ri rc src dst q) \<longrightarrow> r \<noteq> None)"
    by (simp add: src_path_def)
qed

theorem path_search_result_witness:
  "XAie_findShortestPath ri_5x4 (Some whitelist_33_43) (XAie_TileLoc 2 3) (XAie_TileLoc 4 3) =
     Some (Some [XAie_TileLoc 2 3, XAie_TileLoc 3 3, XAie_TileLoc 4 3]) \<and>
   src_path ri_5x4 (Some whitelist_33_43) (XAie_TileLoc 2 3) (XAie_TileLoc 4 3)
     [XAie_TileLoc 2 3, XAie_TileLoc 3 3, XAie_TileLoc 4 3] \<and>
   list_all (\<lambda>t. in_grid ri_5x4 t \<and> \<not> XAie_isTileBlackListed t (Some whitelist_33_43) \<and>
      whitelist_ok (Some whitelist_33_43) t)
     [XAie_TileLoc 3 3, XAie_TileLoc 4 3] \<and>
   src_path ri_5x4 (Some whitelist_33_43) (XAie_TileLoc 2 3) (XAie_TileLoc 4 3)
     [XAie_TileLoc 2 3, XAie_TileLoc 2 2, XAie_TileLoc 3 2, XAie_TileLoc 4 2, XAie_TileLoc 4 3] \<and>
   length [XAie_TileLoc 2 3, XAie_TileLoc 3 3, XAie_TileLoc 4 3] \<le>
     length [XAie_TileLoc 2 3, XAie_TileLoc 2 2, XAie_TileLoc 3 2, XAie_TileLoc 4 2,
             XAie_TileLoc 4 3] \<and>
   in_grid ri_5x4 (XAie_TileLoc 2 2) \<and> no_whitelist None \<and>
   src_path ri_5x4 None (XAie_TileLoc 2 2) (XAie_TileLoc 3 3)
     [XAie_TileLoc 2 2, XAie_TileLoc 3 2, XAie_TileLoc 3 3] \<and>
   XAie_findShortestPath ri_5x4 None (XAie_TileLoc 2 2) (XAie_TileLoc 3 3) \<noteq> None \<and>
   XAie_findShortestPath ri_5x4 None (XAie_TileLoc 2 2) (XAie_TileLoc 3 3) \<noteq> Some None"
proof -
  let ?rc = "Some whitelist_33_43"
  let ?p = "[XAie_TileLoc 2 3, XAie_TileLoc 3 3, XAie_TileLoc 4 3]"
  let ?q = "[XAie_TileLoc 2 3, XAie_TileLoc 2 2, XAie_TileLoc 3 2, XAie_TileLoc 4 2,
             XAie_TileLoc 4 3]"
  let ?r = "[XAie_TileLoc 2 2, XAie_TileLoc 3 2, XAie_TileLoc 3 3]"
  have p: "XAie_findShortestPath ri_5x4 ?rc (XAie_TileLoc 2 3) (XAie_TileLoc 4 3) = Some (Some ?p)"
    by code_simp
  have q: "src_path ri_5x4 ?rc (XAie_TileLoc 2 3) (XAie_TileLoc 4 3) ?q"
    by code_simp
  have r: "src_path ri_5x4 None (XAie_TileLoc 2 2) (XAie_TileLoc 3 3) ?r"
    by code_simp
  have g: "in_grid ri_5x4 (XAie_TileLoc 2 2)"
    by code_simp
  have n: "XAie_TileLoc 2 3 \<noteq> XAie_TileLoc 4 3" "XAie_TileLoc 2 2 \<noteq> XAie_TileLoc 3 3"
    by (simp_all add: XAie_TileLoc_def)
  have nw: "no_whitelist None" by (simp add: no_whitelist_def)
  from path_search_result [OF n(1), of ri_5x4 ?rc ?p] p q
  have a: "src_path ri_5x4 ?rc (XAie_TileLoc 2 3) (XAie_TileLoc 4 3) ?p"
    "list_all (\<lambda>t. in_grid ri_5x4 t \<and> \<not> XAie_isTileBlackListed t ?rc \<and> whitelist_ok ?rc t)
       [XAie_TileLoc 3 3, XAie_TileLoc 4 3]"
    "length ?p \<le> length ?q"
    by (simp_all add: list_all_iff)
  from path_search_result [OF n(2), of ri_5x4 None "[]"]
  have "in_grid ri_5x4 (XAie_TileLoc 2 2) \<longrightarrow>
          (\<exists>x. XAie_findShortestPath ri_5x4 None (XAie_TileLoc 2 2) (XAie_TileLoc 3 3) = Some x \<and>
               (no_whitelist None \<and>
                (\<exists>q. src_path ri_5x4 None (XAie_TileLoc 2 2) (XAie_TileLoc 3 3) q) \<longrightarrow>
                x \<noteq> None))"
    by (rule conjunct2)
  with g nw r obtain x where
    "XAie_findShortestPath ri_5x4 None (XAie_TileLoc 2 2) (XAie_TileLoc 3 3) = Some x" "x \<noteq> None"
    by blast
  then have b: "XAie_findShortestPath ri_5x4 None (XAie_TileLoc 2 2) (XAie_TileLoc 3 3) \<noteq> None"
    "XAie_findShortestPath ri_5x4 None (XAie_TileLoc 2 2) (XAie_TileLoc 3 3) \<noteq> Some None"
    by simp_all
  from p a q g nw r b show ?thesis by blast
qed

text \<open>
  The claim as stated fails twice on the 5 x 4 device in its initial state. With the white
  list (3,3), (4,3) the search from (2,3) to (4,3) returns a path whose first tile, the
  source, is not whitelisted. With the white list (2,2), (3,2), (3,3) the search from (2,2)
  to (3,3) returns no path, although the path over (3,2) has every tile whitelisted and
  every edge accepted by the edge test and by the paired-port test of the specification:
  the destination is first reached over (2,3), is marked visited before the white list is
  checked, and cannot be reached again.
\<close>

theorem search_misses_whitelisted_path:
  "XAie_findShortestPath ri_5x4 (Some whitelist_33_43) (XAie_TileLoc 2 3) (XAie_TileLoc 4 3) =
     Some (Some [XAie_TileLoc 2 3, XAie_TileLoc 3 3, XAie_TileLoc 4 3]) \<and>
   \<not> XAie_isTileWhitelisted (XAie_TileLoc 2 3) (WhiteListedCores whitelist_33_43) \<and>
   XAie_findShortestPath ri_5x4 (Some whitelist_22_32_33) (XAie_TileLoc 2 2) (XAie_TileLoc 3 3) =
     Some None \<and>
   edge_path ri_5x4 (Some whitelist_22_32_33)
     [XAie_TileLoc 2 2, XAie_TileLoc 3 2, XAie_TileLoc 3 3] \<and>
   spec_edge_traversable ri_5x4 (Some whitelist_22_32_33) (XAie_TileLoc 2 2) (XAie_TileLoc 3 2)
     EAST nothing_visited \<and>
   spec_edge_traversable ri_5x4 (Some whitelist_22_32_33) (XAie_TileLoc 3 2) (XAie_TileLoc 3 3)
     NORTH nothing_visited \<and>
   list_all (whitelist_ok (Some whitelist_22_32_33))
     [XAie_TileLoc 2 2, XAie_TileLoc 3 2, XAie_TileLoc 3 3] \<and>
   \<not> XAie_isTileBlackListed (XAie_TileLoc 2 2) (Some whitelist_22_32_33) \<and>
   \<not> XAie_isTileBlackListed (XAie_TileLoc 3 2) (Some whitelist_22_32_33) \<and>
   \<not> XAie_isTileBlackListed (XAie_TileLoc 3 3) (Some whitelist_22_32_33)"
  by code_simp

end
